theory Spec2Isabelle
  imports Main "HOL-Library.Word"
begin

unbundle bit_operations_syntax

section \<open>Common values\<close>

text \<open>
  Bytes are 8-bit words, Go strings and byte slices are lists of them; a Go
  \<^verbatim>\<open>string\<close> that the code only compares and splits is a HOL \<open>string\<close>.
  A Go function returning \<^verbatim>\<open>(value, error)\<close> is modelled by a pair whose
  second component is \<open>error option\<close> (\<open>None\<close> is \<^verbatim>\<open>nil\<close>), since the code
  does return a value together with an error in places. A run-time panic
  (slice bounds, failed type assertion, nil dereference) is the separate
  outcome \<open>Panics\<close>.

  The error values: \<open>EOF\<close>, \<open>ErrUnexpectedEOF\<close> are \<^verbatim>\<open>io.EOF\<close> and
  \<^verbatim>\<open>io.ErrUnexpectedEOF\<close>; \<open>ErrInvalid\<close>, \<open>ErrNotExist\<close>, \<open>ErrClosed\<close> are
  the \<^verbatim>\<open>fs\<close> sentinels; \<open>PathError e\<close> is a \<^verbatim>\<open>*fs.PathError\<close> whose \<^verbatim>\<open>Err\<close> is
  \<open>e\<close> (its \<^verbatim>\<open>Op\<close> and \<^verbatim>\<open>Path\<close> are left out);
  \<open>ErrBadPattern\<close> is \<^verbatim>\<open>path.ErrBadPattern\<close>; \<open>errNoMagic\<close>,
  \<open>errIncompatibleCompression\<close>, \<open>ErrOptions\<close>, \<open>errNotDirectory\<close>,
  \<open>errPathIsNotFile\<close> are the package's own sentinels; \<open>errBlockLog\<close>,
  \<open>errXzFilters\<close>, \<open>errReadDirNonDirectory\<close> and \<open>errNotDirectoryInode\<close> are the
  values the code builds in place with \<^verbatim>\<open>errors.New\<close> ("BlockSize and BlockLog
  doesn't match. The archive is probably corrupt", "XZ compression options
  has filters. These are not yet supported", "ReadDir called on a
  non-directory", "Not a directory inode"); \<open>ErrOther\<close>
  is an error that comes out of a helper outside the modelled files.
\<close>

type_synonym byte = "8 word"

datatype error =
    EOF
  | ErrUnexpectedEOF
  | ErrInvalid
  | ErrNotExist
  | ErrClosed
  | ErrBadPattern
  | errNoMagic
  | errBlockLog
  | errIncompatibleCompression
  | errXzFilters
  | ErrOptions
  | errNotDirectory
  | errPathIsNotFile
  | errReadDirNonDirectory
  | errNotDirectoryInode
  | ErrOther string
  | PathError error

datatype 'a outcome = Returns 'a | Panics

section \<open>Inodes (package inode)\<close>

text \<open>
  \<^verbatim>\<open>inode.Inode\<close> is a header with a \<^verbatim>\<open>Type\<close> tag and an \<^verbatim>\<open>Info\<close> field of
  interface type holding the variant's struct. The fourteen tag constants
  are distinct (they label the cases of one \<^verbatim>\<open>switch\<close> in
  \<^verbatim>\<open>ProcessInode\<close>); \<open>UnknownType\<close> stands for every other tag value, for which
  \<^verbatim>\<open>ProcessInode\<close> leaves \<^verbatim>\<open>Info\<close> nil. Only the fields the modelled functions
  read are kept.
\<close>

datatype inode_type =
    DirType | FileType | SymType | BlockDevType | CharDevType | FifoType | SocketType
  | ExtDirType | ExtFileType | ExtSymType | ExtBlockDeviceType | ExtCharDeviceType
  | ExtFifoType | ExtSocketType | UnknownType

record inode_File =
  BlockStart :: "32 word"
  FragmentIndex :: "32 word"
  FragmentOffset :: "32 word"
  Size :: "32 word"
  Fragmented :: bool

record inode_ExtFile =
  ExtBlockStart :: "64 word"
  ExtSize :: "64 word"
  ExtFragmentIndex :: "32 word"
  ExtFragmentOffset :: "32 word"
  ExtFragmented :: bool

record inode_Dir =
  DirectoryIndex :: "32 word"
  DirectorySize :: "16 word"
  DirectoryOffset :: "16 word"

record inode_ExtDir =
  ExtDirectorySize :: "32 word"
  ExtDirectoryIndex :: "32 word"
  ExtDirectoryOffset :: "16 word"

datatype inode_info =
    InfoDir inode_Dir
  | InfoFile inode_File
  | InfoSym string
  | InfoDevice
  | InfoIPC
  | InfoExtDir inode_ExtDir
  | InfoExtFile inode_ExtFile
  | InfoExtSym string
  | InfoExtDevice
  | InfoExtIPC
  | InfoNil

record Inode =
  Type :: inode_type
  Info :: inode_info

section \<open>The directory decoder (internal/directory/directory.go)\<close>

text \<open>
  Little-endian fields, as \<^verbatim>\<open>binary.Read(rdr, binary.LittleEndian, ...)\<close>
  decodes them, and the inverse used to lay a directory out.
\<close>

definition le16 :: "byte list \<Rightarrow> 16 word" where
  "le16 bs = (case bs of [a, b] \<Rightarrow> ucast a OR push_bit 8 (ucast b) | _ \<Rightarrow> 0)"

definition le32 :: "byte list \<Rightarrow> 32 word" where
  "le32 bs =
     (case bs of
        [a, b, c, d] \<Rightarrow>
          ucast a OR push_bit 8 (ucast b) OR push_bit 16 (ucast c) OR push_bit 24 (ucast d)
      | _ \<Rightarrow> 0)"

definition put16 :: "16 word \<Rightarrow> byte list" where
  "put16 w = [ucast w, ucast (drop_bit 8 w)]"

definition put32 :: "32 word \<Rightarrow> byte list" where
  "put32 w = [ucast w, ucast (drop_bit 8 w), ucast (drop_bit 16 w), ucast (drop_bit 24 w)]"

text \<open>
  \<^verbatim>\<open>string(tmp)\<close> and \<^verbatim>\<open>[]byte(s)\<close>: a Go string is its bytes; a HOL
  character is a byte.
\<close>

definition string_of_bytes :: "byte list \<Rightarrow> string" where
  "string_of_bytes bs = map (\<lambda>b. char_of (unat b)) bs"

definition bytes_of_string :: "string \<Rightarrow> byte list" where
  "bytes_of_string s = map (\<lambda>c. word_of_nat (of_char c)) s"

text \<open>
  The reader \<^verbatim>\<open>rdr\<close> is a \<^verbatim>\<open>bytes.Buffer\<close>: the list of its unread bytes.
  \<^verbatim>\<open>binary.Read\<close> of a value of \<open>n\<close> bytes is \<^verbatim>\<open>io.ReadFull\<close> on an
  \<open>n\<close>-byte scratch slice: nothing is read and nothing fails for \<open>n = 0\<close>,
  \<^verbatim>\<open>io.EOF\<close> when no byte is left, \<^verbatim>\<open>io.ErrUnexpectedEOF\<close> when fewer than
  \<open>n\<close> are left.
\<close>

definition ReadFull :: "byte list \<Rightarrow> nat \<Rightarrow> error + (byte list \<times> byte list)" where
  "ReadFull rdr n =
     (if n = 0 then Inr ([], rdr)
      else if rdr = [] then Inl EOF
      else if length rdr < n then Inl ErrUnexpectedEOF
      else Inr (take n rdr, drop n rdr))"

record Header =
  Count :: "32 word"
  HdrInodeOffset :: "32 word"
  InodeNumber :: "32 word"

record EntryRaw =
  Offset :: "16 word"
  RawInodeOffset :: "16 word"
  RawType :: "16 word"
  NameSize :: "16 word"

record Entry =
  Name :: string
  EntryType :: "16 word"
  InodeBlockOffset :: "16 word"
  InodeOffset :: "32 word"

definition decode_Header :: "byte list \<Rightarrow> Header" where
  "decode_Header bs =
     \<lparr>Count = le32 (take 4 bs), HdrInodeOffset = le32 (take 4 (drop 4 bs)),
      InodeNumber = le32 (take 4 (drop 8 bs))\<rparr>"

definition decode_EntryRaw :: "byte list \<Rightarrow> EntryRaw" where
  "decode_EntryRaw bs =
     \<lparr>Offset = le16 (take 2 bs), RawInodeOffset = le16 (take 2 (drop 2 bs)),
      RawType = le16 (take 2 (drop 4 bs)), NameSize = le16 (take 2 (drop 6 bs))\<rparr>"

definition read_Header :: "byte list \<Rightarrow> error + (Header \<times> byte list)" where
  "read_Header rdr =
     (case ReadFull rdr 12 of Inl e \<Rightarrow> Inl e | Inr (bs, rdr') \<Rightarrow> Inr (decode_Header bs, rdr'))"

text \<open>
  \<^verbatim>\<open>NewEntry\<close>. \<^verbatim>\<open>raw.NameSize+1\<close> is a \<^verbatim>\<open>uint16\<close> sum: it wraps. The entry's
  \<^verbatim>\<open>InodeOffset\<close> is left at its zero value here; \<^verbatim>\<open>NewDirectory\<close> sets it.
\<close>

definition NewEntry :: "byte list \<Rightarrow> error + (Entry \<times> byte list)" where
  "NewEntry rdr =
     (case ReadFull rdr 8 of
        Inl e \<Rightarrow> Inl e
      | Inr (bs, rdr1) \<Rightarrow>
          let raw = decode_EntryRaw bs in
          (case ReadFull rdr1 (unat (NameSize raw + 1)) of
             Inl e \<Rightarrow> Inl e
           | Inr (tmp, rdr2) \<Rightarrow>
               Inr (\<lparr>Name = string_of_bytes tmp, EntryType = RawType raw, InodeBlockOffset = Offset raw,
                     InodeOffset = 0\<rparr>, rdr2)))"

lemma ReadFull_length:
  "ReadFull rdr n = Inr (bs, rdr') \<Longrightarrow> length bs = n \<and> length rdr = n + length rdr'"
  by (auto simp: ReadFull_def split: if_splits)

lemma read_Header_length:
  "read_Header rdr = Inr (h, rdr') \<Longrightarrow> length rdr = 12 + length rdr'"
  by (auto simp: read_Header_def split: sum.splits dest: ReadFull_length)

lemma NewEntry_length:
  "NewEntry rdr = Inr (e, rdr') \<Longrightarrow> length rdr = 8 + length (Name e) + length rdr'"
  by (auto simp: NewEntry_def Let_def string_of_bytes_def split: sum.splits dest!: ReadFull_length)

text \<open>
  The inner loop of \<^verbatim>\<open>NewDirectory\<close>:
  \<^verbatim>\<open>for i := uint32(0); i < hdr.Count; i++\<close>, reading a header again when
  \<open>i\<close> is a non-zero multiple of 256 (that header replaces \<^verbatim>\<open>hdr\<close>, its
  \<^verbatim>\<open>Count\<close> included). It returns the buffer and the entries so far, or the
  error that makes \<^verbatim>\<open>NewDirectory\<close> return.
\<close>

function entries_loop ::
  "Header \<Rightarrow> 32 word \<Rightarrow> byte list \<Rightarrow> Entry list \<Rightarrow> error + (byte list \<times> Entry list)" where
  "entries_loop hdr i rdr entries =
     (if i < Count hdr then
        (case (if i \<noteq> 0 \<and> i mod 256 = 0 then read_Header rdr else Inr (hdr, rdr)) of
           Inl e \<Rightarrow> Inl e
         | Inr (hdr', rdr1) \<Rightarrow>
             (case NewEntry rdr1 of
                Inl e \<Rightarrow> Inl e
              | Inr (ent, rdr2) \<Rightarrow>
                  entries_loop hdr' (i + 1) rdr2
                    (entries @ [ent\<lparr>InodeOffset := HdrInodeOffset hdr'\<rparr>])))
      else Inr (rdr, entries))"
  by pat_completeness auto
termination
  by (relation "measure (\<lambda>(hdr, i, rdr, entries). length rdr)")
     (auto split: if_splits dest!: NewEntry_length read_Header_length)

declare entries_loop.simps [simp del]

lemma entries_loop_length:
  "entries_loop hdr i rdr entries = Inr (rdr', entries') \<Longrightarrow> length rdr' \<le> length rdr"
proof (induction hdr i rdr entries rule: entries_loop.induct)
  case (1 hdr i rdr entries)
  show ?case
  proof (cases "i < Count hdr")
    case False
    with "1.prems" show ?thesis by (simp add: entries_loop.simps [of hdr i rdr entries])
  next
    case True
    from "1.prems" True obtain hdr' rdr1 ent rdr2 where
      h: "(if i \<noteq> 0 \<and> i mod 256 = 0 then read_Header rdr else Inr (hdr, rdr)) = Inr (hdr', rdr1)"
      and e: "NewEntry rdr1 = Inr (ent, rdr2)"
      and r: "entries_loop hdr' (i + 1) rdr2 (entries @ [ent\<lparr>InodeOffset := HdrInodeOffset hdr'\<rparr>])
                = Inr (rdr', entries')"
      by (auto simp: entries_loop.simps [of hdr i rdr entries] split: sum.splits prod.splits)
    from "1.IH" [OF True h refl e refl r] have "length rdr' \<le> length rdr2" .
    moreover from e have "length rdr2 \<le> length rdr1" by (auto dest: NewEntry_length)
    moreover from h have "length rdr1 \<le> length rdr"
      by (auto split: if_splits dest: read_Header_length)
    ultimately show ?thesis by simp
  qed
qed

text \<open>
  The outer loop: a header, its count incremented (a \<^verbatim>\<open>uint32\<close> increment),
  then the inner loop. \<^verbatim>\<open>io.ErrUnexpectedEOF\<close> on the header ends the directory;
  any other error is returned with no entries.
\<close>

function directory_loop :: "byte list \<Rightarrow> Entry list \<Rightarrow> Entry list \<times> error option" where
  "directory_loop rdr entries =
     (case read_Header rdr of
        Inl e \<Rightarrow> (if e = ErrUnexpectedEOF then (entries, None) else ([], Some e))
      | Inr (hdr, rdr1) \<Rightarrow>
          (case entries_loop (hdr\<lparr>Count := Count hdr + 1\<rparr>) 0 rdr1 entries of
             Inl e \<Rightarrow> ([], Some e)
           | Inr (rdr2, entries') \<Rightarrow> directory_loop rdr2 entries'))"
  by pat_completeness auto
termination
  by (relation "measure (\<lambda>(rdr, entries). length rdr)")
     (auto dest!: entries_loop_length read_Header_length)

declare directory_loop.simps [simp del]

text \<open>
  \<^verbatim>\<open>NewDirectory(base, size)\<close>: \<^verbatim>\<open>tmp := make([]byte, size); base.Read(tmp)\<close>
  fills a zeroed slice with what that one \<^verbatim>\<open>Read\<close> delivers (its count and
  error are dropped); \<open>base\<close> is the bytes it delivers.
\<close>

definition NewDirectory :: "byte list \<Rightarrow> 32 word \<Rightarrow> Entry list \<times> error option" where
  "NewDirectory base size' =
     directory_loop (take (unat size') base @ replicate (unat size' - length base) 0) []"

text \<open>The on-disk layout of an entry and of a header, as the format gives it.\<close>

definition put_Entry :: "16 word \<Rightarrow> 16 word \<Rightarrow> 16 word \<Rightarrow> string \<Rightarrow> byte list" where
  "put_Entry off delta kind name =
     put16 off @ put16 delta @ put16 kind @ put16 (word_of_nat (length name - 1))
       @ bytes_of_string name"

definition put_Header :: "32 word \<Rightarrow> 32 word \<Rightarrow> 32 word \<Rightarrow> byte list" where
  "put_Header count_minus_one inode_offset inode_number =
     put32 count_minus_one @ put32 inode_offset @ put32 inode_number"

text \<open>
  A directory listing as the format lays it out: groups, each a header
  (inode-table block offset, inode number base) and its records (in-block
  offset, inode number delta, kind, name), at most 256 records to a header,
  every name of 1 to 65535 bytes.
\<close>

type_synonym raw_entry = "16 word \<times> 16 word \<times> 16 word \<times> string"

type_synonym raw_group = "32 word \<times> 32 word \<times> raw_entry list"

definition put_entries :: "raw_entry list \<Rightarrow> byte list" where
  "put_entries recs =
     concat (map (\<lambda>(off, delta, kind, name). put_Entry off delta kind name) recs)"

definition put_group :: "raw_group \<Rightarrow> byte list" where
  "put_group g =
     (case g of (inode_offset, inode_number, recs) \<Rightarrow>
        put_Header (word_of_nat (length recs - 1)) inode_offset inode_number @ put_entries recs)"

definition put_directory :: "raw_group list \<Rightarrow> byte list" where
  "put_directory groups = concat (map put_group groups)"

definition entry_of :: "32 word \<Rightarrow> raw_entry \<Rightarrow> Entry" where
  "entry_of inode_offset r =
     (case r of (off, delta, kind, name) \<Rightarrow>
        \<lparr>Name = name, EntryType = kind, InodeBlockOffset = off, InodeOffset = inode_offset\<rparr>)"

definition entries_of_group :: "raw_group \<Rightarrow> Entry list" where
  "entries_of_group g =
     (case g of (inode_offset, inode_number, recs) \<Rightarrow> map (entry_of inode_offset) recs)"

definition name_ok :: "raw_entry \<Rightarrow> bool" where
  "name_ok r = (case r of (off, delta, kind, name) \<Rightarrow> 1 \<le> length name \<and> length name \<le> 65535)"

definition group_ok :: "raw_group \<Rightarrow> bool" where
  "group_ok g =
     (case g of (inode_offset, inode_number, recs) \<Rightarrow>
        1 \<le> length recs \<and> length recs \<le> 256 \<and> list_all name_ok recs)"

section \<open>Opening an archive (reader.go)\<close>

text \<open>
  The fields of the superblock that \<^verbatim>\<open>NewSquashfsReader\<close> reads. The struct,
  \<^verbatim>\<open>GetFlags\<close> and the compression-type constants are declared outside the
  modelled files.
\<close>

record superblock =
  Magic :: "32 word"
  CreationTime :: "32 word"
  BlockSize :: "32 word"
  FragCount :: "32 word"
  CompressionType :: "16 word"
  BlockLog :: "16 word"
  IDCount :: "16 word"
  RootInodeRef :: "64 word"
  BytesUsed :: "64 word"

definition magic :: "32 word" where
  "magic = 0x73717368"

text \<open>
  Modelled from the spec: the compression-type tags, whose constants are not
  in the files: \<open>{gzip=1, lzma=2, lzo=3, xz=4, lz4=5, zstd=6}\<close>.
\<close>

definition GzipCompression :: "16 word" where "GzipCompression = 1"
definition LzmaCompression :: "16 word" where "LzmaCompression = 2"
definition LzoCompression :: "16 word" where "LzoCompression = 3"
definition XzCompression :: "16 word" where "XzCompression = 4"
definition Lz4Compression :: "16 word" where "Lz4Compression = 5"
definition ZstdCompression :: "16 word" where "ZstdCompression = 6"

text \<open>
  \<^verbatim>\<open>uint16(math.Log2(float64(rdr.super.BlockSize)))\<close>. A \<^verbatim>\<open>float64\<close> holds
  every \<^verbatim>\<open>uint32\<close> exactly; \<^verbatim>\<open>math.Log2\<close> is exact on powers of two and
  lies strictly between the neighbouring integers otherwise, and the
  conversion truncates: the result is the integer part of the logarithm.
  For a block size of 0 the logarithm is minus infinity and the conversion
  is implementation-dependent: \<open>at_zero\<close> is its value.
\<close>

fun floor_log2 :: "nat \<Rightarrow> nat" where
  "floor_log2 n = (if n < 2 then 0 else Suc (floor_log2 (n div 2)))"

declare floor_log2.simps [simp del]

definition Log2_uint16 :: "16 word \<Rightarrow> 32 word \<Rightarrow> 16 word" where
  "Log2_uint16 at_zero block_size =
     (if block_size = 0 then at_zero else word_of_nat (floor_log2 (unat block_size)))"

text \<open>
  The decompressors of package \<^verbatim>\<open>compression\<close>, which is not among the files.
  Modelled from the spec: the option blocks and the flags derived from
  them. gzip has 8 bytes: compression level (4), window size (2), strategy
  bitmap (2); a window size other than 15 sets \<^verbatim>\<open>HasCustomWindow\<close>, a
  strategy bitmap other than the default sets \<^verbatim>\<open>HasStrategies\<close> (the spec
  does not say which bitmaps are the default: \<open>default_strategies\<close> decides).
  XZ has 8 bytes: dictionary size (4), filter bitmap (4); any filter bit
  sets \<^verbatim>\<open>HasFilters\<close>. LZ4 has 8 bytes, Zstd 4, LZMA none. The block is read
  with \<^verbatim>\<open>binary.Read\<close> from the reader positioned after the superblock.
\<close>

record Gzip =
  CompressionLevel :: "32 word"
  HasCustomWindow :: bool
  HasStrategies :: bool

record Xz =
  DictionarySize :: "32 word"
  HasFilters :: bool

datatype Decompressor = DGzip Gzip | DLzma | DXz Xz | DLz4 | DZstd

definition gzip_window_size :: "byte list \<Rightarrow> 16 word" where
  "gzip_window_size bs = le16 (take 2 (drop 4 bs))"

definition gzip_strategies :: "byte list \<Rightarrow> 16 word" where
  "gzip_strategies bs = le16 (take 2 (drop 6 bs))"

definition xz_filters :: "byte list \<Rightarrow> 32 word" where
  "xz_filters bs = le32 (take 4 (drop 4 bs))"

definition NewGzipCompressorWithOptions :: "(16 word \<Rightarrow> bool) \<Rightarrow> byte list \<Rightarrow> error + Gzip" where
  "NewGzipCompressorWithOptions default_strategies r =
     (case ReadFull r 8 of
        Inl e \<Rightarrow> Inl e
      | Inr (bs, r') \<Rightarrow>
          Inr \<lparr>CompressionLevel = le32 (take 4 bs),
               HasCustomWindow = (gzip_window_size bs \<noteq> 15),
               HasStrategies = (\<not> default_strategies (gzip_strategies bs))\<rparr>)"

definition NewXzCompressorWithOptions :: "byte list \<Rightarrow> error + Xz" where
  "NewXzCompressorWithOptions r =
     (case ReadFull r 8 of
        Inl e \<Rightarrow> Inl e
      | Inr (bs, r') \<Rightarrow>
          Inr \<lparr>DictionarySize = le32 (take 4 bs), HasFilters = (xz_filters bs \<noteq> 0)\<rparr>)"

definition NewLz4CompressorWithOptions :: "byte list \<Rightarrow> error option" where
  "NewLz4CompressorWithOptions r = (case ReadFull r 8 of Inl e \<Rightarrow> Some e | Inr x \<Rightarrow> None)"

definition NewZstdCompressorWithOptions :: "byte list \<Rightarrow> error option" where
  "NewZstdCompressorWithOptions r = (case ReadFull r 4 of Inl e \<Rightarrow> Some e | Inr x \<Rightarrow> None)"

text \<open>\<^verbatim>\<open>&compression.Gzip{}\<close> and \<^verbatim>\<open>&compression.Xz{}\<close>: the zero values.\<close>

definition Gzip_zero :: Gzip where
  "Gzip_zero = \<lparr>CompressionLevel = 0, HasCustomWindow = False, HasStrategies = False\<rparr>"

definition Xz_zero :: Xz where
  "Xz_zero = \<lparr>DictionarySize = 0, HasFilters = False\<rparr>"

text \<open>
  What the byte source gives to the calls whose code is outside the files:
  \<open>read_super\<close> is \<^verbatim>\<open>binary.Read\<close> of the first 96 bytes into the superblock
  (an error when the source is shorter); \<open>compressorOptions\<close> is
  \<^verbatim>\<open>rdr.super.GetFlags().compressorOptions\<close>; \<open>after_super\<close> is the bytes from
  offset 96 to \<^verbatim>\<open>BytesUsed\<close>; \<open>load_tables\<close> is lines 116 to 177, the fragment
  and id tables, the root inode and the root directory (through
  \<^verbatim>\<open>newMetadataReader\<close>, \<^verbatim>\<open>inode.ProcessInode\<close>, \<^verbatim>\<open>newFileFromInode\<close>,
  \<^verbatim>\<open>AsFS\<close>): the first error met, or the root \<^verbatim>\<open>FileFS\<close>. The
  \<^verbatim>\<open>Seek(96, io.SeekStart)\<close> on the section reader cannot fail.
\<close>

record 'fs source =
  read_super :: "error + superblock"
  compressorOptions :: bool
  after_super :: "byte list"
  log2_of_zero :: "16 word"
  load_tables :: "error + 'fs"

record 'fs Reader =
  rdr_super :: superblock
  rdr_compressorOptions :: bool
  rdr_decompressor :: Decompressor
  rdr_FileFS :: 'fs

text \<open>
  The two switches on the compression type: the decompressor and
  \<^verbatim>\<open>hasUnsupportedOptions\<close>, or the error returned.
\<close>

definition select_decompressor ::
  "(16 word \<Rightarrow> bool) \<Rightarrow> bool \<Rightarrow> 16 word \<Rightarrow> byte list \<Rightarrow> error + (Decompressor \<times> bool)" where
  "select_decompressor default_strategies options ct r =
     (if options then
        (if ct = GzipCompression then
           (case NewGzipCompressorWithOptions default_strategies r of
              Inl e \<Rightarrow> Inl e
            | Inr gzip \<Rightarrow> Inr (DGzip gzip, HasCustomWindow gzip \<or> HasStrategies gzip))
         else if ct = XzCompression then
           (case NewXzCompressorWithOptions r of
              Inl e \<Rightarrow> Inl e
            | Inr xz \<Rightarrow> if HasFilters xz then Inl errXzFilters else Inr (DXz xz, False))
         else if ct = Lz4Compression then
           (case NewLz4CompressorWithOptions r of Some e \<Rightarrow> Inl e | None \<Rightarrow> Inr (DLz4, False))
         else if ct = ZstdCompression then
           (case NewZstdCompressorWithOptions r of Some e \<Rightarrow> Inl e | None \<Rightarrow> Inr (DZstd, False))
         else Inl errIncompatibleCompression)
      else
        (if ct = GzipCompression then Inr (DGzip Gzip_zero, False)
         else if ct = LzmaCompression then Inr (DLzma, False)
         else if ct = XzCompression then Inr (DXz Xz_zero, False)
         else if ct = Lz4Compression then Inr (DLz4, False)
         else if ct = ZstdCompression then Inr (DZstd, False)
         else Inl errIncompatibleCompression))"

definition NewSquashfsReader ::
  "(16 word \<Rightarrow> bool) \<Rightarrow> 'fs source \<Rightarrow> 'fs Reader option \<times> error option" where
  "NewSquashfsReader default_strategies src =
     (case read_super src of
        Inl e \<Rightarrow> (None, Some e)
      | Inr sb \<Rightarrow>
          if Magic sb \<noteq> magic then (None, Some errNoMagic)
          else if BlockLog sb \<noteq> Log2_uint16 (log2_of_zero src) (BlockSize sb)
          then (None, Some errBlockLog)
          else
            (case select_decompressor default_strategies (compressorOptions src)
                    (CompressionType sb) (after_super src) of
               Inl e \<Rightarrow> (None, Some e)
             | Inr (d, hasUnsupportedOptions) \<Rightarrow>
                 (case load_tables src of
                    Inl e \<Rightarrow> (None, Some e)
                  | Inr fs \<Rightarrow>
                      let rdr = \<lparr>rdr_super = sb, rdr_compressorOptions = compressorOptions src,
                                 rdr_decompressor = d, rdr_FileFS = fs\<rparr>
                      in if hasUnsupportedOptions then (Some rdr, Some ErrOptions)
                         else (Some rdr, None))))"

section \<open>Reading a regular file (fileReader)\<close>

text \<open>
  The data reader over a file's data blocks is outside the modelled files.
  Modelled from the spec: read yields the bytes of the data blocks in file
  order; a dataReader is the list of the bytes it has not delivered yet.
  \<^verbatim>\<open>Read(p)\<close> with \<open>len(p) = k\<close> fills \<open>p\<close> while bytes are left and reports
  \<^verbatim>\<open>io.EOF\<close> when the blocks end before \<open>p\<close> is full; \<^verbatim>\<open>WriteTo\<close> writes all
  that is left.
\<close>

type_synonym dataReader = "byte list"

definition dataReader_Read :: "dataReader \<Rightarrow> nat \<Rightarrow> byte list \<times> error option \<times> dataReader" where
  "dataReader_Read d k =
     (if length d < k then (d, Some EOF, []) else (take k d, None, drop k d))"

definition dataReader_WriteTo :: "dataReader \<Rightarrow> byte list \<Rightarrow> (int \<times> error option) \<times> byte list \<times> dataReader" where
  "dataReader_WriteTo d w = ((int (length d), None), w @ d, [])"

text \<open>
  The two calls \<^verbatim>\<open>fileReader\<close> makes on the \<^verbatim>\<open>Reader\<close>, whose code is outside
  the files: the fragment slice of an inode and the data reader of an inode,
  each with its error.
\<close>

record file_source =
  getFragmentDataFromInode :: "Inode \<Rightarrow> byte list \<times> error option"
  newDataReaderFromInode :: "Inode \<Rightarrow> dataReader option \<times> error option"

text \<open>
  Modelled from the spec: the fragment slice of a file is the bytes
  \<open>[fragment_offset, fragment_offset + remainder)\<close> of the decompressed fragment
  block \<open>fragment_index\<close>, the remainder being \<open>size - block_count * block_size\<close>,
  that is \<open>size mod block_size\<close>. \<open>frags\<close> holds the decompressed fragment
  blocks by index.
\<close>

definition fragment_slice :: "byte list list \<Rightarrow> nat \<Rightarrow> Inode \<Rightarrow> byte list \<times> error option" where
  "fragment_slice frags block_size i =
     (case Info i of
        InfoFile fil \<Rightarrow>
          if unat (FragmentIndex fil) < length frags
          then (take (unat (Size fil) mod block_size)
                  (drop (unat (FragmentOffset fil)) (frags ! unat (FragmentIndex fil))), None)
          else ([], Some (ErrOther ''fragment index''))
      | InfoExtFile fil \<Rightarrow>
          if unat (ExtFragmentIndex fil) < length frags
          then (take (unat (ExtSize fil) mod block_size)
                  (drop (unat (ExtFragmentOffset fil)) (frags ! unat (ExtFragmentIndex fil))), None)
          else ([], Some (ErrOther ''fragment index''))
      | _ \<Rightarrow> ([], Some (ErrOther ''not a file'')))"

text \<open>
  \<^verbatim>\<open>fileReader\<close>: \<open>data\<close> is nil until \<^verbatim>\<open>newDataReaderFromInode\<close> sets it;
  \<open>fil_in\<close> is \<^verbatim>\<open>f.fil.in\<close>; a nil \<^verbatim>\<open>fragmentData\<close> is the empty list; \<open>read\<close>
  is never negative.
\<close>

record fileReader =
  data :: "dataReader option"
  fil_in :: Inode
  fragmentData :: "byte list"
  fragged :: bool
  fragOnly :: bool
  read :: nat
  FileSize :: int

text \<open>
  \<^verbatim>\<open>newFileReader\<close>. \<^verbatim>\<open>int\<close> is 64 bits wide. The error of
  \<^verbatim>\<open>newDataReaderFromInode\<close> is assigned and never looked at.
\<close>

definition newFileReader :: "file_source \<Rightarrow> Inode \<Rightarrow> (fileReader option \<times> error option) outcome" where
  "newFileReader r i =
     (if Type i \<noteq> FileType \<and> Type i \<noteq> ExtFileType then Returns (None, Some errPathIsNotFile)
      else
        (case (if Type i = FileType
               then (case Info i of
                       InfoFile fil \<Rightarrow>
                         Returns (Fragmented fil, BlockStart fil = 0, uint (Size fil))
                     | _ \<Rightarrow> Panics)
               else (case Info i of
                       InfoExtFile fil \<Rightarrow>
                         Returns (ExtFragmented fil, ExtBlockStart fil = 0, sint (ExtSize fil))
                     | _ \<Rightarrow> Panics)) of
           Panics \<Rightarrow> Panics
         | Returns (frg, only, sz) \<Rightarrow>
             let (fd, err) = (if frg then getFragmentDataFromInode r i else ([], None))
             in if frg \<and> err \<noteq> None then Returns (None, err)
                else
                  Returns
                    (Some \<lparr>data = (if \<not> only then fst (newDataReaderFromInode r i) else None),
                           fil_in = i, fragmentData = fd, fragged = frg, fragOnly = only,
                           read = 0, FileSize = sz\<rparr>, None)))"

text \<open>
  \<^verbatim>\<open>bytes.NewBuffer(b).Read(p)\<close> on a fresh buffer, \<open>len(p) = k\<close>: an empty
  buffer gives \<^verbatim>\<open>io.EOF\<close> (nil when \<open>k = 0\<close>), otherwise the first \<open>k\<close> bytes
  are copied and the error is nil.
\<close>

definition Buffer_Read :: "byte list \<Rightarrow> nat \<Rightarrow> byte list \<times> error option" where
  "Buffer_Read b k =
     (if b = [] then (if k = 0 then ([], None) else ([], Some EOF)) else (take k b, None))"

text \<open>
  \<^verbatim>\<open>fileReader.Read(p)\<close> with \<open>len(p) = k\<close>: the bytes stored in \<open>p\<close>, the error,
  and the reader afterwards. \<^verbatim>\<open>f.fragmentData[f.read:]\<close> panics when \<open>read\<close>
  is beyond the length; \<^verbatim>\<open>f.data.Read\<close> on a nil data reader panics.
\<close>

definition fileReader_Read ::
  "file_source \<Rightarrow> fileReader \<Rightarrow> nat \<Rightarrow> ((byte list \<times> error option) \<times> fileReader) outcome" where
  "fileReader_Read r f k =
     (if fragOnly f then
        (if read f > length (fragmentData f) then Panics
         else
           let (bs, err) = Buffer_Read (drop (read f) (fragmentData f)) k
           in Returns ((bs, err), f\<lparr>read := read f + length bs\<rparr>))
      else
        (case data f of
           None \<Rightarrow> Panics
         | Some d \<Rightarrow>
             let (bs, err, d') = dataReader_Read d k in
             if fragged f \<and> err = Some EOF then
               let fd = (if fragmentData f = [] then fst (getFragmentDataFromInode r (fil_in f))
                         else fragmentData f);
                   (bs2, err2) = Buffer_Read fd (k - length bs)
               in Returns ((bs @ bs2, err2), f\<lparr>data := Some d', fragmentData := fd\<rparr>)
             else Returns ((bs, err), f\<lparr>data := Some d'\<rparr>)))"

text \<open>
  \<^verbatim>\<open>fileReader.WriteTo(w)\<close>; the sink accepts every write.
\<close>

definition fileReader_WriteTo ::
  "fileReader \<Rightarrow> byte list \<Rightarrow> ((int \<times> error option) \<times> byte list \<times> fileReader) outcome" where
  "fileReader_WriteTo f w =
     (if fragOnly f then Returns ((int (length (fragmentData f)), None), w @ fragmentData f, f)
      else
        (case data f of
           None \<Rightarrow> Panics
         | Some d \<Rightarrow>
             let ((n, err), w', d') = dataReader_WriteTo d w in
             if \<not> fragged f then Returns ((n, err), w', f\<lparr>data := Some d'\<rparr>)
             else if err \<noteq> None then Returns ((n, err), w', f\<lparr>data := Some d'\<rparr>)
             else Returns ((int (length (fragmentData f)) + n, None), w' @ fragmentData f,
                           f\<lparr>data := Some d'\<rparr>)))"

text \<open>
  Reading a stream to its end, as \<^verbatim>\<open>io.ReadAll\<close> and \<^verbatim>\<open>io.Copy\<close> do with a
  buffer of \<open>k\<close> bytes: \<^verbatim>\<open>Read\<close> is called until it returns an error, the bytes of
  every call are kept. The result is the bytes and that error (\<^verbatim>\<open>io.EOF\<close> at
  the end of the stream); \<open>None\<close> when no call ever returns an error.
\<close>

partial_function (option) read_to_end ::
  "file_source \<Rightarrow> nat \<Rightarrow> fileReader \<Rightarrow> byte list \<Rightarrow> (byte list \<times> error) outcome option" where
  "read_to_end r k f acc =
     (case fileReader_Read r f k of
        Panics \<Rightarrow> Some Panics
      | Returns ((bs, err), f') \<Rightarrow>
          (case err of
             Some e \<Rightarrow> Some (Returns (acc @ bs, e))
           | None \<Rightarrow> read_to_end r k f' (acc @ bs)))"

section \<open>File, the version that holds its entries\<close>

text \<open>
  \<^verbatim>\<open>type File struct { r; in; reader; parent; name; entries; dirsRead }\<close>.
  The inode pointer is never nil for a File the reader hands out.
\<close>

record File =
  f_in :: Inode
  f_reader :: "fileReader option"
  f_name :: string
  entries :: "Entry list"
  dirsRead :: int

definition IsDir :: "File \<Rightarrow> bool" where
  "IsDir f = (Type (f_in f) = DirType \<or> Type (f_in f) = ExtDirType)"

definition IsRegular :: "File \<Rightarrow> bool" where
  "IsRegular f = (Type (f_in f) = FileType \<or> Type (f_in f) = ExtFileType)"

definition IsSymlink :: "File \<Rightarrow> bool" where
  "IsSymlink f = (Type (f_in f) = SymType \<or> Type (f_in f) = ExtSymType)"

text \<open>
  \<^verbatim>\<open>File.Size\<close>: a switch on the tag; the type assertion on \<^verbatim>\<open>Info\<close> panics
  when the interface holds another struct. \<^verbatim>\<open>int64\<close> of a \<^verbatim>\<open>uint32\<close> is its
  value, of a \<^verbatim>\<open>uint64\<close> its two's-complement reading.
\<close>

definition File_Size :: "File \<Rightarrow> int outcome" where
  "File_Size f =
     (case Type (f_in f) of
        FileType \<Rightarrow>
          (case Info (f_in f) of InfoFile fil \<Rightarrow> Returns (uint (Size fil)) | _ \<Rightarrow> Panics)
      | ExtFileType \<Rightarrow>
          (case Info (f_in f) of InfoExtFile fil \<Rightarrow> Returns (sint (ExtSize fil)) | _ \<Rightarrow> Panics)
      | _ \<Rightarrow> Returns 0)"

text \<open>
  \<^verbatim>\<open>File.ReadDir(i)\<close>. \<^verbatim>\<open>f.entries[beg:end]\<close> panics unless
  \<open>0 \<le> beg \<le> end \<le> cap\<close>; the slice was built by append, so its capacity is
  at least its length, and \<^verbatim>\<open>end\<close> never exceeds the length here. The
  returned \<^verbatim>\<open>DirEntry\<close> values wrap the entries one to one; the model returns
  the entries. The third component is the File after the call.
\<close>

definition slice_entries :: "'a list \<Rightarrow> int \<Rightarrow> int \<Rightarrow> 'a list outcome" where
  "slice_entries xs beg end' =
     (if 0 \<le> beg \<and> beg \<le> end' \<and> end' \<le> int (length xs)
      then Returns (take (nat end' - nat beg) (drop (nat beg) xs))
      else Panics)"

definition File_ReadDir :: "File \<Rightarrow> int \<Rightarrow> (Entry list \<times> error option \<times> File) outcome" where
  "File_ReadDir f i =
     (if \<not> IsDir f then Returns ([], Some errReadDirNonDirectory, f)
      else
        let (beg, end', err) =
              (if i \<ge> 0 then (0, int (length (entries f)), None)
               else if dirsRead f + i > int (length (entries f))
                    then (dirsRead f, int (length (entries f)), Some EOF)
                    else (dirsRead f, dirsRead f + i, None))
        in case slice_entries (entries f) beg end' of
             Panics \<Rightarrow> Panics
           | Returns out \<Rightarrow>
               Returns (out, err, if err \<noteq> None then f\<lparr>dirsRead := 0\<rparr> else f))"

text \<open>
  The other \<^verbatim>\<open>File\<close>, the one that embeds a \<^verbatim>\<open>FileCore\<close>, has its own
  \<^verbatim>\<open>Size\<close>: the same switch with the two file cases in the other order.
\<close>

record FileCore =
  c_in :: Inode
  c_name :: string

definition IsFile :: "FileCore \<Rightarrow> bool" where
  "IsFile f = (Type (c_in f) = FileType \<or> Type (c_in f) = ExtFileType)"

definition FileCore_Size :: "FileCore \<Rightarrow> int outcome" where
  "FileCore_Size f =
     (case Type (c_in f) of
        ExtFileType \<Rightarrow>
          (case Info (c_in f) of InfoExtFile fil \<Rightarrow> Returns (sint (ExtSize fil)) | _ \<Rightarrow> Panics)
      | FileType \<Rightarrow>
          (case Info (c_in f) of InfoFile fil \<Rightarrow> Returns (uint (Size fil)) | _ \<Rightarrow> Panics)
      | _ \<Rightarrow> Returns 0)"

text \<open>
  \<^verbatim>\<open>func (f *File) WriteTo(w io.Writer) (int64, error) { return f.WriteTo(w) }\<close>:
  the method calls itself. The sink is the list of bytes written so far;
  not returning is \<open>None\<close>.
\<close>

partial_function (option) File_WriteTo :: "File \<Rightarrow> byte list \<Rightarrow> (int \<times> error option \<times> byte list) option" where
  "File_WriteTo f w = File_WriteTo f w"


section \<open>Go library functions used by FileFS\<close>

text \<open>
  The functions of the Go standard library that \<^verbatim>\<open>FileFS.Open\<close> calls, after
  their implementation in the library. A Go string is its bytes, one \<open>char\<close>
  each.

  \<^verbatim>\<open>strings.HasPrefix\<close>, \<^verbatim>\<open>strings.TrimPrefix\<close>, \<^verbatim>\<open>strings.Split(s, "/")\<close>,
  \<^verbatim>\<open>strings.Join(elems, "/")\<close>.
\<close>

definition HasPrefix :: "string \<Rightarrow> string \<Rightarrow> bool" where
  "HasPrefix s p = (take (length p) s = p)"

definition TrimPrefix :: "string \<Rightarrow> string \<Rightarrow> string" where
  "TrimPrefix s p = (if HasPrefix s p then drop (length p) s else s)"

fun Split :: "string \<Rightarrow> string list" where
  "Split [] = [[]]"
| "Split (c # cs) =
     (if c = CHR ''/'' then [] # Split cs
      else (case Split cs of x # xs \<Rightarrow> (c # x) # xs | [] \<Rightarrow> [[c]]))"

fun Join :: "string list \<Rightarrow> string" where
  "Join [] = []"
| "Join [x] = x"
| "Join (x # y # ys) = x @ CHR ''/'' # Join (y # ys)"

text \<open>
  \<^verbatim>\<open>utf8.DecodeRuneInString\<close>: the code point and its width in bytes;
  \<^verbatim>\<open>(RuneError, 1)\<close> for a byte that starts no well-formed sequence,
  \<^verbatim>\<open>(RuneError, 0)\<close> for the empty string. \<^verbatim>\<open>utf8.ValidString\<close>.
\<close>

definition RuneError :: nat where
  "RuneError = 0xFFFD"

definition cont :: "nat \<Rightarrow> bool" where
  "cont b = (0x80 \<le> b \<and> b \<le> 0xBF)"

fun DecodeRune :: "nat list \<Rightarrow> nat \<times> nat" where
  "DecodeRune [] = (RuneError, 0)"
| "DecodeRune (a # rest) =
     (if a < 0x80 then (a, 1)
      else if 0xC2 \<le> a \<and> a \<le> 0xDF then
        (case rest of
           b # _ \<Rightarrow> if cont b then ((a mod 32) * 64 + b mod 64, 2) else (RuneError, 1)
         | _ \<Rightarrow> (RuneError, 1))
      else if 0xE0 \<le> a \<and> a \<le> 0xEF then
        (case rest of
           b # c # _ \<Rightarrow>
             if (if a = 0xE0 then 0xA0 \<le> b \<and> b \<le> 0xBF
                 else if a = 0xED then 0x80 \<le> b \<and> b \<le> 0x9F else cont b) \<and> cont c
             then ((a mod 16) * 4096 + (b mod 64) * 64 + c mod 64, 3) else (RuneError, 1)
         | _ \<Rightarrow> (RuneError, 1))
      else if 0xF0 \<le> a \<and> a \<le> 0xF4 then
        (case rest of
           b # c # d # _ \<Rightarrow>
             if (if a = 0xF0 then 0x90 \<le> b \<and> b \<le> 0xBF
                 else if a = 0xF4 then 0x80 \<le> b \<and> b \<le> 0x8F else cont b) \<and> cont c \<and> cont d
             then ((a mod 8) * 262144 + (b mod 64) * 4096 + (c mod 64) * 64 + d mod 64, 4)
             else (RuneError, 1)
         | _ \<Rightarrow> (RuneError, 1))
      else (RuneError, 1))"

definition DecodeRuneInString :: "string \<Rightarrow> nat \<times> nat" where
  "DecodeRuneInString s = DecodeRune (map of_char s)"

lemma DecodeRune_width: "s \<noteq> [] \<Longrightarrow> 0 < snd (DecodeRune s)"
  by (cases s) (auto split: list.splits)

lemma DecodeRuneInString_width: "s \<noteq> [] \<Longrightarrow> 0 < snd (DecodeRuneInString s)"
  by (simp add: DecodeRuneInString_def DecodeRune_width)

function ValidString :: "string \<Rightarrow> bool" where
  "ValidString s =
     (if s = [] then True
      else if fst (DecodeRuneInString s) = RuneError \<and> snd (DecodeRuneInString s) = 1 then False
      else ValidString (drop (snd (DecodeRuneInString s)) s))"
  by pat_completeness auto
termination
proof (relation "measure length")
  show "wf (measure length)" by simp
next
  fix s :: string
  assume "s \<noteq> []"
  with DecodeRuneInString_width [of s]
  show "(drop (snd (DecodeRuneInString s)) s, s) \<in> measure length" by simp
qed

declare ValidString.simps [simp del]

text \<open>\<^verbatim>\<open>fs.ValidPath\<close>.\<close>

definition ValidPath :: "string \<Rightarrow> bool" where
  "ValidPath name =
     (ValidString name \<and>
      (name = ''.'' \<or>
       list_all (\<lambda>elem. elem \<noteq> [] \<and> elem \<noteq> ''.'' \<and> elem \<noteq> ''..'') (Split name)))"

text \<open>
  \<^verbatim>\<open>path.Clean\<close>, by its rules: empty and \<open>.\<close> elements are dropped, a \<open>..\<close>
  element removes the element before it when there is one that is not \<open>..\<close>,
  is dropped at the start of a rooted path and is kept otherwise; the empty
  result is \<open>.\<close>.
\<close>

fun clean_elems :: "bool \<Rightarrow> string list \<Rightarrow> string list \<Rightarrow> string list" where
  "clean_elems rooted out [] = out"
| "clean_elems rooted out (e # es) =
     (if e = [] \<or> e = ''.'' then clean_elems rooted out es
      else if e = ''..'' then
        (if out \<noteq> [] \<and> last out \<noteq> ''..'' then clean_elems rooted (butlast out) es
         else if \<not> rooted then clean_elems rooted (out @ [''..'']) es
         else clean_elems rooted out es)
      else clean_elems rooted (out @ [e]) es)"

definition Clean :: "string \<Rightarrow> string" where
  "Clean path =
     (if path = [] then ''.''
      else
        let rooted = (hd path = CHR ''/'');
            out = (if rooted then ''/'' else []) @ Join (clean_elems rooted [] (Split path))
        in if out = [] then ''.'' else out)"

text \<open>
  \<^verbatim>\<open>path.Split\<close> (at the last slash), \<^verbatim>\<open>path.Dir\<close>, \<^verbatim>\<open>path.Base\<close>.
\<close>

definition path_Split :: "string \<Rightarrow> string \<times> string" where
  "path_Split path =
     (let n = length (takeWhile (\<lambda>c. c \<noteq> CHR ''/'') (rev path))
      in (take (length path - n) path, drop (length path - n) path))"

definition Dir :: "string \<Rightarrow> string" where
  "Dir path = Clean (fst (path_Split path))"

definition Base :: "string \<Rightarrow> string" where
  "Base path =
     (if path = [] then ''.''
      else
        let p = rev (dropWhile (\<lambda>c. c = CHR ''/'') (rev path));
            p = snd (path_Split p)
        in if p = [] then ''/'' else p)"

text \<open>
  \<^verbatim>\<open>path.Match\<close>, as the library implements it (Go 1.16 and later): the pattern
  is cut into chunks at the stars outside brackets (\<^verbatim>\<open>scanChunk\<close>), each chunk
  is matched at the front of the name (\<^verbatim>\<open>matchChunk\<close>) or, after a star, at the
  first place up to the next slash where it matches; a malformed pattern is
  \<^verbatim>\<open>ErrBadPattern\<close>.
\<close>

fun scan_len :: "string \<Rightarrow> bool \<Rightarrow> nat" where
  "scan_len [] inrange = 0"
| "scan_len (c # cs) inrange =
     (if c = CHR 0x5C then (case cs of [] \<Rightarrow> 1 | d # ds \<Rightarrow> 2 + scan_len ds inrange)
      else if c = CHR ''['' then 1 + scan_len cs True
      else if c = CHR '']'' then 1 + scan_len cs False
      else if c = CHR ''*'' then (if inrange then 1 + scan_len cs inrange else 0)
      else 1 + scan_len cs inrange)"

definition scanChunk :: "string \<Rightarrow> bool \<times> string \<times> string" where
  "scanChunk pattern =
     (let p = dropWhile (\<lambda>c. c = CHR ''*'') pattern;
          star = (pattern \<noteq> [] \<and> hd pattern = CHR ''*'');
          i = scan_len p False
      in (star, take i p, drop i p))"

text \<open>
  \<^verbatim>\<open>getEsc\<close>: one possibly escaped character of a class, and the rest of the
  chunk, which is not empty; \<open>None\<close> is \<^verbatim>\<open>ErrBadPattern\<close>.
\<close>

definition getEsc :: "string \<Rightarrow> (nat \<times> string) option" where
  "getEsc chunk =
     (if chunk = [] \<or> hd chunk = CHR ''-'' \<or> hd chunk = CHR '']'' then None
      else
        let chunk1 = (if hd chunk = CHR 0x5C then tl chunk else chunk) in
        if chunk1 = [] then None
        else
          let (r, n) = DecodeRuneInString chunk1 in
          if r = RuneError \<and> n = 1 then None
          else if drop n chunk1 = [] then None
          else Some (r, drop n chunk1))"

lemma getEsc_shorter: "getEsc chunk = Some (r, rest) \<Longrightarrow> length rest < length chunk \<and> rest \<noteq> []"
proof -
  assume a: "getEsc chunk = Some (r, rest)"
  then have ne: "chunk \<noteq> []" by (auto simp: getEsc_def)
  define chunk1 where "chunk1 = (if hd chunk = CHR 0x5C then tl chunk else chunk)"
  from a have c1: "chunk1 \<noteq> []"
    by (auto simp: getEsc_def chunk1_def Let_def split: if_splits)
  from a have r: "rest = drop (snd (DecodeRuneInString chunk1)) chunk1" "rest \<noteq> []"
    by (auto simp: getEsc_def chunk1_def Let_def split: if_splits prod.splits)
  have "length chunk1 \<le> length chunk" by (simp add: chunk1_def)
  moreover have "length rest < length chunk1"
    using r(1) c1 DecodeRuneInString_width [of chunk1] by simp
  ultimately show ?thesis using r(2) by simp
qed

text \<open>
  The ranges of a class, up to its closing bracket: whether the rune \<open>r\<close> is in
  one of them, and the chunk after the bracket.
\<close>

function class_loop :: "string \<Rightarrow> nat \<Rightarrow> nat \<Rightarrow> bool \<Rightarrow> (bool \<times> string) option" where
  "class_loop chunk r nrange m =
     (if chunk \<noteq> [] \<and> hd chunk = CHR '']'' \<and> 0 < nrange then Some (m, tl chunk)
      else
        (case getEsc chunk of
           None \<Rightarrow> None
         | Some (lo, chunk1) \<Rightarrow>
             (case (if hd chunk1 = CHR ''-'' then getEsc (tl chunk1) else Some (lo, chunk1)) of
                None \<Rightarrow> None
              | Some (hi, chunk2) \<Rightarrow>
                  class_loop chunk2 r (nrange + 1) (m \<or> (lo \<le> r \<and> r \<le> hi)))))"
  by pat_completeness auto
termination
proof (relation "measure (\<lambda>(chunk, r, nrange, m). length chunk)")
  show "wf (measure (\<lambda>(chunk, r, nrange, m). length chunk))" by simp
next
  fix chunk :: string and r nrange :: nat and m :: bool and x2 lo chunk1 x2a hi chunk2
  assume g: "getEsc chunk = Some x2" "(lo, chunk1) = x2"
    and h: "(if hd chunk1 = CHR ''-'' then getEsc (tl chunk1) else Some (lo, chunk1)) = Some x2a"
      "(hi, chunk2) = x2a"
  from g have 1: "length chunk1 < length chunk" using getEsc_shorter [of chunk lo chunk1] by simp
  have "length chunk2 \<le> length chunk1"
  proof (cases "hd chunk1 = CHR ''-''")
    case True
    with h have "getEsc (tl chunk1) = Some (hi, chunk2)" by simp
    from getEsc_shorter [OF this] have "length chunk2 < length (tl chunk1)" by blast
    then show ?thesis by simp
  next
    case False
    with h show ?thesis by auto
  qed
  with 1 show "((chunk2, r, nrange + 1, m \<or> lo \<le> r \<and> r \<le> hi), chunk, r, nrange, m)
      \<in> measure (\<lambda>(chunk, r, nrange, m). length chunk)"
    by simp
qed

declare class_loop.simps [simp del]

lemma class_loop_shorter: "class_loop chunk r nrange m = Some (b, rest) \<Longrightarrow> length rest < length chunk"
proof (induction chunk r nrange m rule: class_loop.induct)
  case (1 chunk r nrange m)
  show ?case
  proof (cases "chunk \<noteq> [] \<and> hd chunk = CHR '']'' \<and> 0 < nrange")
    case True
    with "1.prems" have "rest = tl chunk" by (simp add: class_loop.simps [of chunk])
    with True show ?thesis by (cases chunk) auto
  next
    case False
    with "1.prems" obtain lo chunk1 hi chunk2 where
      g: "getEsc chunk = Some (lo, chunk1)"
      and h: "(if hd chunk1 = CHR ''-'' then getEsc (tl chunk1) else Some (lo, chunk1)) = Some (hi, chunk2)"
      and r: "class_loop chunk2 r (nrange + 1) (m \<or> (lo \<le> r \<and> r \<le> hi)) = Some (b, rest)"
      by (auto simp: class_loop.simps [of chunk] split: option.splits)
    from "1.IH" [OF False g refl h refl r] have "length rest < length chunk2" .
    moreover from g have "length chunk1 < length chunk" using getEsc_shorter by blast
    moreover have "length chunk2 \<le> length chunk1"
    proof (cases "hd chunk1 = CHR ''-''")
      case True
      with h have "getEsc (tl chunk1) = Some (hi, chunk2)" by simp
      from getEsc_shorter [OF this] have "length chunk2 < length (tl chunk1)" by blast
    then show ?thesis by simp
    next
      case False
      with h show ?thesis by auto
    qed
    ultimately show ?thesis by simp
  qed
qed

text \<open>
  \<^verbatim>\<open>matchChunk(chunk, s)\<close>: the rest of \<open>s\<close>, whether the chunk matched, and the
  error. After the match has failed the chunk is still scanned to its end
  for its syntax, without reading \<open>s\<close>.
\<close>

function matchChunk_loop :: "string \<Rightarrow> string \<Rightarrow> bool \<Rightarrow> string \<times> bool \<times> error option" where
  "matchChunk_loop chunk s failed =
     (if chunk = [] then (if failed then ([], False, None) else (s, True, None))
      else
        let failed = (failed \<or> s = []) in
        if hd chunk = CHR ''['' then
          (let r = (if failed then 0 else fst (DecodeRuneInString s));
               s' = (if failed then s else drop (snd (DecodeRuneInString s)) s);
               negated = (tl chunk \<noteq> [] \<and> hd (tl chunk) = CHR ''^'');
               chunk1 = (if negated then tl (tl chunk) else tl chunk)
           in case class_loop chunk1 r 0 False of
                None \<Rightarrow> ([], False, Some ErrBadPattern)
              | Some (m, chunk2) \<Rightarrow> matchChunk_loop chunk2 s' (failed \<or> m = negated))
        else if hd chunk = CHR ''?'' then
          (if failed then matchChunk_loop (tl chunk) s True
           else matchChunk_loop (tl chunk) (drop (snd (DecodeRuneInString s)) s) (hd s = CHR ''/''))
        else if hd chunk = CHR 0x5C \<and> tl chunk = [] then ([], False, Some ErrBadPattern)
        else
          let chunk1 = (if hd chunk = CHR 0x5C then tl chunk else chunk) in
          if failed then matchChunk_loop (tl chunk1) s True
          else matchChunk_loop (tl chunk1) (tl s) (hd chunk1 \<noteq> hd s))"
  by pat_completeness auto
termination
proof (relation "measure (\<lambda>(chunk, s, failed). length chunk)", goal_cases)
  case 1
  show ?case by simp
next
  case (2 chunk s failed x r s' negated chunk1 x2 m chunk2)
  then have "class_loop chunk1 r 0 False = Some (m, chunk2)" by simp
  from class_loop_shorter [OF this] have "length chunk2 < length chunk1" .
  moreover from 2 have "length chunk1 \<le> length chunk" by auto
  ultimately show ?case by simp
qed (auto simp: Let_def)

declare matchChunk_loop.simps [simp del]

definition matchChunk :: "string \<Rightarrow> string \<Rightarrow> string \<times> bool \<times> error option" where
  "matchChunk chunk s = matchChunk_loop chunk s False"

lemma scan_len_le: "scan_len p inrange \<le> length p"
  by (induction p inrange rule: scan_len.induct) (auto split: list.splits)

lemma scanChunk_shorter:
  assumes "pattern \<noteq> []" "scanChunk pattern = (star, chunk, rest)"
  shows "length rest < length pattern"
proof -
  define p where "p = dropWhile (\<lambda>c. c = CHR ''*'') pattern"
  from assms(2) have rest: "rest = drop (scan_len p False) p"
    by (simp add: scanChunk_def p_def Let_def)
  have le: "length p \<le> length pattern" by (simp add: p_def length_dropWhile_le)
  show ?thesis
  proof (cases "hd pattern = CHR ''*''")
    case True
    with assms(1) have "length p < length pattern"
      by (cases pattern) (auto simp: p_def intro: le_imp_less_Suc length_dropWhile_le)
    with rest show ?thesis by simp
  next
    case False
    with assms(1) obtain c cs where pc: "pattern = c # cs" "c \<noteq> CHR ''*''" by (cases pattern) auto
    then have "p = c # cs" by (simp add: p_def)
    with pc have "0 < scan_len p False" by (auto split: list.splits)
    with rest le \<open>p = c # cs\<close> pc show ?thesis by simp
  qed
qed

text \<open>
  The attempts after a star: the chunk is tried after skipping one more byte
  each time, never past a slash; when the chunk is the last one, a match
  that leaves part of the name is passed over.
\<close>

datatype star_result = Found string | StarErr error | NoMatch

fun star_loop :: "string \<Rightarrow> bool \<Rightarrow> string \<Rightarrow> star_result" where
  "star_loop chunk lastc [] = NoMatch"
| "star_loop chunk lastc (c # cs) =
     (if c = CHR ''/'' then NoMatch
      else
        (case matchChunk chunk cs of
           (t, ok, err) \<Rightarrow>
             if ok then (if lastc \<and> t \<noteq> [] then star_loop chunk lastc cs else Found t)
             else (case err of Some e \<Rightarrow> StarErr e | None \<Rightarrow> star_loop chunk lastc cs)))"

text \<open>The syntax check of the rest of the pattern, made before a plain mismatch is returned.\<close>

function check_rest :: "string \<Rightarrow> error option" where
  "check_rest pattern =
     (if pattern = [] then None
      else
        (case scanChunk pattern of
           (star, chunk, rest) \<Rightarrow>
             (case matchChunk chunk [] of
                (t, ok, Some e) \<Rightarrow> Some e
              | (t, ok, None) \<Rightarrow> check_rest rest)))"
  by pat_completeness auto
termination
  by (relation "measure length") (auto dest: scanChunk_shorter [OF _ sym])

declare check_rest.simps [simp del]

function Match :: "string \<Rightarrow> string \<Rightarrow> bool \<times> error option" where
  "Match pattern name =
     (if pattern = [] then (name = [], None)
      else
        (case scanChunk pattern of
           (star, chunk, rest) \<Rightarrow>
             if star \<and> chunk = [] then (CHR ''/'' \<notin> set name, None)
             else
               (case matchChunk chunk name of
                  (t, ok, err) \<Rightarrow>
                    if ok \<and> (t = [] \<or> rest \<noteq> []) then Match rest t
                    else if err \<noteq> None then (False, err)
                    else
                      (case (if star then star_loop chunk (rest = []) name else NoMatch) of
                         Found t' \<Rightarrow> Match rest t'
                       | StarErr e \<Rightarrow> (False, Some e)
                       | NoMatch \<Rightarrow> (False, check_rest rest)))))"
  by pat_completeness auto
termination
  by (relation "measure (\<lambda>(pattern, name). length pattern)")
     (auto dest: scanChunk_shorter [OF _ sym])

declare Match.simps [simp del]

text \<open>What the termination of \<^verbatim>\<open>FileFS.Open\<close> needs of these functions.\<close>

lemma Split_not_Nil [simp]: "Split s \<noteq> []"
  by (induction s) (auto split: list.splits)

lemma Join_Split [simp]: "Join (Split s) = s"
proof (induction s)
  case Nil
  show ?case by simp
next
  case (Cons c s)
  obtain x xs where sp: "Split s = x # xs" by (cases "Split s") auto
  with Cons show ?case by (cases xs) auto
qed

lemma length_Join_tl_Split: "s \<noteq> [] \<Longrightarrow> length (Join (tl (Split s))) < length s"
proof -
  assume ne: "s \<noteq> []"
  obtain x xs where sp: "Split s = x # xs" by (cases "Split s") auto
  have "length (Join (x # xs)) = length s" using sp Join_Split [of s] by simp
  then show ?thesis using sp ne by (cases xs) auto
qed

lemma no_slash_in_Split: "e \<in> set (Split s) \<Longrightarrow> CHR ''/'' \<notin> set e"
  by (induction s arbitrary: e) (auto split: if_splits list.splits)

definition plain :: "string \<Rightarrow> bool" where
  "plain e = (e \<noteq> [] \<and> e \<noteq> ''.'' \<and> e \<noteq> ''..'')"

lemma clean_elems_plain:
  "list_all plain es \<Longrightarrow> list_all plain out \<Longrightarrow> clean_elems rooted out es = out @ es"
  by (induction es arbitrary: out) (auto simp: plain_def)

lemma ValidPath_elems: "ValidPath name \<Longrightarrow> name \<noteq> ''.'' \<Longrightarrow> list_all plain (Split name)"
  by (auto simp: ValidPath_def plain_def list_all_iff)

lemma ValidPath_not_rooted: "ValidPath name \<Longrightarrow> name \<noteq> [] \<and> hd name \<noteq> CHR ''/''"
proof (cases "name = ''.''")
  case True
  then show ?thesis by simp
next
  case False
  assume "ValidPath name"
  with False have p: "list_all plain (Split name)" by (rule ValidPath_elems [rotated])
  then have "hd (Split name) \<noteq> []" by (cases "Split name") (auto simp: plain_def)
  then show ?thesis by (cases name) (auto split: if_splits)
qed

lemma Clean_ValidPath: "ValidPath name \<Longrightarrow> Clean name = name"
proof (cases "name = ''.''")
  case True
  then show ?thesis by (simp add: Clean_def)
next
  case False
  assume v: "ValidPath name"
  with False have p: "list_all plain (Split name)" by (rule ValidPath_elems [rotated])
  from v have nr: "name \<noteq> []" "hd name \<noteq> CHR ''/''" using ValidPath_not_rooted by auto
  have "clean_elems False [] (Split name) = Split name"
    using clean_elems_plain [OF p, of "[]" False] by simp
  with nr show ?thesis by (simp add: Clean_def)
qed

lemma HasPrefix_slash: "HasPrefix name ''/'' = (name \<noteq> [] \<and> hd name = CHR ''/'')"
  by (cases name) (auto simp: HasPrefix_def)

lemma TrimPrefix_ValidPath: "ValidPath name \<Longrightarrow> TrimPrefix name ''/'' = name"
  using ValidPath_not_rooted [of name] by (auto simp: TrimPrefix_def HasPrefix_slash)

lemma Split_noslash: "CHR ''/'' \<notin> set x \<Longrightarrow> Split x = [x]"
  by (induction x) auto

lemma Split_append_slash: "Split (a @ CHR ''/'' # b) = Split a @ Split b"
proof (induction a)
  case Nil
  show ?case by simp
next
  case (Cons c a)
  obtain x xs where "Split a = x # xs" by (cases "Split a") auto
  with Cons show ?case by simp
qed

lemma Split_Join:
  "cs \<noteq> [] \<Longrightarrow> list_all (\<lambda>c. CHR ''/'' \<notin> set c) cs \<Longrightarrow> Split (Join cs) = cs"
  by (induction cs rule: Join.induct) (auto simp: Split_noslash Split_append_slash)


section \<open>FileFS over File (part 003)\<close>

text \<open>
  What the archive holds behind the two metadata tables: \<open>inode_at\<close> is
  \<^verbatim>\<open>newMetadataReader(InodeTableStart + offset)\<close>, \<^verbatim>\<open>Seek(blockOffset)\<close> and
  \<^verbatim>\<open>inode.ProcessInode\<close>; \<open>dir_at\<close> is \<^verbatim>\<open>newMetadataReader(DirTableStart + offset)\<close>
  and \<^verbatim>\<open>Seek(metaOffset)\<close>, the bytes from there on. The metadata reader is
  not in the sources.
\<close>

record tree_source =
  files :: file_source
  inode_at :: "32 word \<Rightarrow> 16 word \<Rightarrow> error + Inode"
  dir_at :: "32 word \<Rightarrow> 16 word \<Rightarrow> error + byte list"

text \<open>\<^verbatim>\<open>readDirFromInode\<close>; the type assertions panic on another struct.\<close>

definition dir_location :: "Inode \<Rightarrow> (32 word \<times> 16 word \<times> 32 word) option outcome" where
  "dir_location i =
     (case Type i of
        DirType \<Rightarrow>
          (case Info i of
             InfoDir d \<Rightarrow> Returns (Some (DirectoryIndex d, DirectoryOffset d, ucast (DirectorySize d)))
           | _ \<Rightarrow> Panics)
      | ExtDirType \<Rightarrow>
          (case Info i of
             InfoExtDir d \<Rightarrow>
               Returns (Some (ExtDirectoryIndex d, ExtDirectoryOffset d, ExtDirectorySize d))
           | _ \<Rightarrow> Panics)
      | _ \<Rightarrow> Returns None)"

definition readDirFromInode :: "tree_source \<Rightarrow> Inode \<Rightarrow> (error + Entry list) outcome" where
  "readDirFromInode r i =
     (case dir_location i of
        Panics \<Rightarrow> Panics
      | Returns None \<Rightarrow> Returns (Inl errNotDirectoryInode)
      | Returns (Some (offset, metaOffset, size')) \<Rightarrow>
          (case dir_at r offset metaOffset of
             Inl e \<Rightarrow> Returns (Inl e)
           | Inr br \<Rightarrow>
               (case NewDirectory br size' of
                  (ents, Some e) \<Rightarrow> Returns (Inl e)
                | (ents, None) \<Rightarrow> Returns (Inr ents))))"

text \<open>
  \<^verbatim>\<open>newFileFromInode\<close>, \<^verbatim>\<open>newFileFromDirEntry\<close>, \<^verbatim>\<open>DirEntry.Info\<close>. The
  \<^verbatim>\<open>Reader.newFileReader\<close> that this version calls is not in the sources;
  \<open>newFileReader\<close> above, the method of \<^verbatim>\<open>FileCore\<close>, stands for it. The \<^verbatim>\<open>DirEntry\<close>
  values that \<^verbatim>\<open>File.ReadDir\<close> builds always carry the reader, so \<^verbatim>\<open>Info\<close> never
  takes its nil-reader branch.
\<close>

definition newFileFromInode :: "tree_source \<Rightarrow> Inode \<Rightarrow> (error + File) outcome" where
  "newFileFromInode r i =
     (let fil = \<lparr>f_in = i, f_reader = None, f_name = [], entries = [], dirsRead = 0\<rparr> in
      if IsRegular fil then
        (case newFileReader (files r) i of
           Panics \<Rightarrow> Panics
         | Returns (rd, Some e) \<Rightarrow> Returns (Inl e)
         | Returns (rd, None) \<Rightarrow> Returns (Inr (fil\<lparr>f_reader := rd\<rparr>)))
      else if IsDir fil then
        (case readDirFromInode r i of
           Panics \<Rightarrow> Panics
         | Returns (Inl e) \<Rightarrow> Returns (Inl e)
         | Returns (Inr ents) \<Rightarrow> Returns (Inr (fil\<lparr>entries := ents\<rparr>)))
      else Returns (Inr fil))"

definition newFileFromDirEntry :: "tree_source \<Rightarrow> Entry \<Rightarrow> (error + File) outcome" where
  "newFileFromDirEntry r entry =
     (case inode_at r (InodeOffset entry) (InodeBlockOffset entry) of
        Inl e \<Rightarrow> Returns (Inl e)
      | Inr i \<Rightarrow>
          (case newFileFromInode r i of
             Panics \<Rightarrow> Panics
           | Returns (Inl e) \<Rightarrow> Returns (Inl e)
           | Returns (Inr fil) \<Rightarrow> Returns (Inr (fil\<lparr>f_name := Name entry\<rparr>))))"

definition DirEntry_Info :: "tree_source \<Rightarrow> Entry \<Rightarrow> (error + File) outcome" where
  "DirEntry_Info r en = newFileFromDirEntry r en"

text \<open>
  The loop of \<^verbatim>\<open>FileFS.Open\<close> over the entries of the directory. It ends with
  a result, or with the call of \<^verbatim>\<open>Open\<close> on the directory it found and the
  rest of the path. \<^verbatim>\<open>split[0]\<close> panics on an empty slice.
\<close>

datatype open_step = Done "(error + File) outcome" | Descend File string

fun Open_loop :: "tree_source \<Rightarrow> string list \<Rightarrow> Entry list \<Rightarrow> open_step" where
  "Open_loop r split [] = Done (Returns (Inl (PathError ErrNotExist)))"
| "Open_loop r split (d # dirs) =
     (case split of
        [] \<Rightarrow> Done Panics
      | s0 # rest \<Rightarrow>
          (case Match s0 (Name d) of
             (True, err) \<Rightarrow>
               (case DirEntry_Info r d of
                  Panics \<Rightarrow> Done Panics
                | Returns (Inl e) \<Rightarrow> Done (Returns (Inl (PathError e)))
                | Returns (Inr fil) \<Rightarrow>
                    if length split = 1 then Done (Returns (Inr fil))
                    else if IsDir fil then Descend fil (Join (tl split))
                    else Done (Returns (Inl (PathError ErrNotExist))))
           | (False, Some e) \<Rightarrow> Done (Returns (Inl (PathError e)))
           | (False, None) \<Rightarrow> Open_loop r split dirs))"

lemma Open_loop_Descend:
  "Open_loop r split dirs = Descend fil rest \<Longrightarrow> rest = Join (tl split) \<and> 1 < length split"
  by (induction dirs)
     (auto split: list.splits prod.splits bool.splits option.splits outcome.splits sum.splits
        if_splits)

text \<open>
  \<^verbatim>\<open>FileFS.Open\<close> of part 003. \<^verbatim>\<open>ReadDir(0)\<close> leaves the File as it was, and
  \<^verbatim>\<open>AsFS\<close> of this version returns no error.
\<close>

function FileFS_Open :: "tree_source \<Rightarrow> File \<Rightarrow> string \<Rightarrow> (error + File) outcome" where
  "FileFS_Open r f name =
     (if name = [] then Returns (Inr f)
      else if \<not> ValidPath name then Returns (Inl (PathError ErrInvalid))
      else
        let name1 = (if HasPrefix name ''/'' then TrimPrefix name ''/'' else name);
            name2 = Clean name1
        in if name2 = [] \<or> name2 = ''.'' then Returns (Inr f)
           else if HasPrefix name2 ''../'' then Returns (Inl (PathError ErrInvalid))
           else
             (case File_ReadDir f 0 of
                Panics \<Rightarrow> Panics
              | Returns (dirs, Some err, f') \<Rightarrow> Returns (Inl (PathError err))
              | Returns (dirs, None, f') \<Rightarrow>
                  (case Open_loop r (Split name2) dirs of
                     Done res \<Rightarrow> res
                   | Descend fil rest \<Rightarrow> FileFS_Open r fil rest)))"
  by pat_completeness auto
termination
proof (relation "measure (\<lambda>(r, f, name). length name)", goal_cases)
  case 1
  show ?case by simp
next
  case (2 r f name name1 name2 x2 dirs y err f' fil rest)
  from 2 have v: "ValidPath name" by simp
  then have "name1 = name" using 2 by (simp add: TrimPrefix_ValidPath)
  with 2 v have n2: "name2 = name" by (simp add: Clean_ValidPath)
  from 2 have "Open_loop r (Split name2) dirs = Descend fil rest" by simp
  from Open_loop_Descend [OF this] n2 have "rest = Join (tl (Split name))" by simp
  with 2 show ?case using length_Join_tl_Split [of name] by simp
qed

declare FileFS_Open.simps [simp del]


section \<open>FileFS over FileCore (part 002)\<close>

text \<open>
  \<^verbatim>\<open>type File struct { *FileCore; rdr; directory; dirIndex; mode }\<close>, the File
  that \<^verbatim>\<open>FileCore.AsFile\<close> builds. \<open>cf_directory\<close> is the entry list of the
  \<^verbatim>\<open>*directory.Directory\<close>, \<open>None\<close> for nil. This version's
  \<^verbatim>\<open>readDirFromInode\<close> differs from the other in the type it returns, and its
  \<^verbatim>\<open>newFileFromDirEntry\<close> reads the inode at the entry's coordinates
  (\<^verbatim>\<open>getInodeFromEntry\<close>) and keeps the entry's name.
\<close>

record CoreFile =
  cf_core :: FileCore
  cf_rdr :: "fileReader option"
  cf_directory :: "Entry list option"
  cf_dirIndex :: int

definition FileCore_IsDir :: "FileCore \<Rightarrow> bool" where
  "FileCore_IsDir f = (Type (c_in f) = DirType \<or> Type (c_in f) = ExtDirType)"

definition AsFile :: "tree_source \<Rightarrow> FileCore \<Rightarrow> CoreFile outcome" where
  "AsFile r f =
     (let fil = \<lparr>cf_core = f, cf_rdr = None, cf_directory = None, cf_dirIndex = 0\<rparr> in
      case (if FileCore_IsDir f then
              (case readDirFromInode r (c_in f) of
                 Panics \<Rightarrow> Panics
               | Returns (Inl e) \<Rightarrow> Returns fil
               | Returns (Inr ents) \<Rightarrow> Returns (fil\<lparr>cf_directory := Some ents\<rparr>))
            else Returns fil) of
        Panics \<Rightarrow> Panics
      | Returns fil \<Rightarrow>
          if IsFile f then
            (case newFileReader (files r) (c_in f) of
               Panics \<Rightarrow> Panics
             | Returns (rd, Some e) \<Rightarrow> Returns fil
             | Returns (rd, None) \<Rightarrow> Returns (fil\<lparr>cf_rdr := rd\<rparr>))
          else Returns fil)"

definition newFileCoreFromDirEntry :: "tree_source \<Rightarrow> Entry \<Rightarrow> error + FileCore" where
  "newFileCoreFromDirEntry r entry =
     (case inode_at r (InodeOffset entry) (InodeBlockOffset entry) of
        Inl e \<Rightarrow> Inl e
      | Inr i \<Rightarrow> Inr \<lparr>c_in = i, c_name = Name entry\<rparr>)"

text \<open>
  The loop of \<^verbatim>\<open>File.ReadDir\<close>: the files built so far and, when an entry
  fails, the error and the index of the entry.
\<close>

fun ReadDir_loop ::
  "tree_source \<Rightarrow> nat \<Rightarrow> Entry list \<Rightarrow> CoreFile list \<Rightarrow> (CoreFile list \<times> (error \<times> nat) option) outcome"
  where
  "ReadDir_loop r i [] out = Returns (out, None)"
| "ReadDir_loop r i (entry # es) out =
     (case newFileCoreFromDirEntry r entry of
        Inl e \<Rightarrow> Returns (out, Some (e, i))
      | Inr fil \<Rightarrow>
          (case AsFile r fil of
             Panics \<Rightarrow> Panics
           | Returns cf \<Rightarrow> ReadDir_loop r (i + 1) es (out @ [cf])))"

text \<open>
  \<^verbatim>\<open>File.ReadDir(n)\<close>: the result and the File afterwards. \<^verbatim>\<open>int\<close> is 64 bits
  wide, and \<open>beg + n\<close> wraps around.
\<close>

definition add_int :: "int \<Rightarrow> int \<Rightarrow> int" where
  "add_int a b = sint (word_of_int (a + b) :: 64 word)"

definition CoreFile_ReadDir ::
  "tree_source \<Rightarrow> CoreFile \<Rightarrow> int \<Rightarrow> ((CoreFile list \<times> error option) \<times> CoreFile) outcome" where
  "CoreFile_ReadDir r f n =
     (case cf_directory f of
        None \<Rightarrow> Returns (([], Some errNotDirectory), f)
      | Some ents \<Rightarrow>
          if \<not> FileCore_IsDir (cf_core f) then Returns (([], Some errNotDirectory), f)
          else
            let (beg, end', eof) =
                  (if n \<le> 0 then (0, int (length ents), False)
                   else if add_int (cf_dirIndex f) n > int (length ents)
                        then (cf_dirIndex f, int (length ents), True)
                        else (cf_dirIndex f, add_int (cf_dirIndex f) n, False));
                f1 = (if n \<le> 0 then f else f\<lparr>cf_dirIndex := end'\<rparr>)
            in case slice_entries ents beg end' of
                 Panics \<Rightarrow> Panics
               | Returns es \<Rightarrow>
                   (case ReadDir_loop r 0 es [] of
                      Panics \<Rightarrow> Panics
                    | Returns (out, Some (e, i)) \<Rightarrow>
                        Returns ((out, Some e), f1\<lparr>cf_dirIndex := int i\<rparr>)
                    | Returns (out, None) \<Rightarrow>
                        Returns ((out, if eof then Some EOF else None), f1)))"

text \<open>
  \<^verbatim>\<open>FileFS.Open\<close> and \<^verbatim>\<open>FileFS.ReadDir\<close> of part 002 call each other. The loop
  of \<^verbatim>\<open>Open\<close> returns the first entry whose name the pattern matches; the
  error of \<^verbatim>\<open>path.Match\<close> is dropped. \<^verbatim>\<open>ReadDir\<close> passes on an error of \<^verbatim>\<open>Open\<close>
  that is a \<^verbatim>\<open>*fs.PathError\<close> and replaces any other.
\<close>

definition is_PathError :: "error \<Rightarrow> bool" where
  "is_PathError e = (case e of PathError x \<Rightarrow> True | _ \<Rightarrow> False)"

definition open_measure :: "string \<Rightarrow> nat" where
  "open_measure name =
     (let name1 = TrimPrefix (Clean name) ''/'' in
      if name1 = [] \<or> name1 = ''.'' then 0 else length name1)"

lemma Join_snoc: "ps \<noteq> [] \<Longrightarrow> Join (ps @ [b]) = Join ps @ CHR ''/'' # b"
  by (induction ps rule: Join.induct) auto

lemma path_Split_noslash: "CHR ''/'' \<notin> set b \<Longrightarrow> path_Split b = ([], b)"
proof -
  assume "CHR ''/'' \<notin> set b"
  then have tw: "takeWhile (\<lambda>c. c \<noteq> CHR ''/'') (rev b) = rev b"
    by (intro takeWhile_eq_all_conv [THEN iffD2]) auto
  show ?thesis unfolding path_Split_def Let_def tw by simp
qed

lemma path_Split_slash: "CHR ''/'' \<notin> set b \<Longrightarrow> path_Split (p @ CHR ''/'' # b) = (p @ ''/'', b)"
proof -
  assume "CHR ''/'' \<notin> set b"
  then have tw: "takeWhile (\<lambda>c. c \<noteq> CHR ''/'') (rev b @ CHR ''/'' # rev p) = rev b"
    by (subst takeWhile_append2) auto
  show ?thesis unfolding path_Split_def Let_def rev_append rev.simps append.simps append_assoc tw
    by simp
qed

lemma clean_elems_snoc_empty: "clean_elems rooted out (es @ [[]]) = clean_elems rooted out es"
  by (induction es arbitrary: out) auto

lemma Join_plain_not_Nil: "ps \<noteq> [] \<Longrightarrow> list_all plain ps \<Longrightarrow> Join ps \<noteq> [] \<and> hd (Join ps) = hd (hd ps)"
  by (induction ps rule: Join.induct) (auto simp: plain_def)

text \<open>What \<^verbatim>\<open>path.Dir\<close> and \<^verbatim>\<open>path.Base\<close> are on a cleaned relative path.\<close>

lemma Dir_Base_single:
  assumes "plain b" "CHR ''/'' \<notin> set b"
  shows "Dir b = ''.''" "Base b = b"
proof -
  from assms have ne: "b \<noteq> []" by (simp add: plain_def)
  show "Dir b = ''.''" using assms by (simp add: Dir_def path_Split_noslash Clean_def)
  from assms(2) ne have "last b \<noteq> CHR ''/''" by (metis last_in_set)
  then have "dropWhile (\<lambda>c. c = CHR ''/'') (rev b) = rev b"
    using ne by (cases "rev b") (auto simp: last_rev)
  then show "Base b = b" using ne assms(2) by (simp add: Base_def path_Split_noslash)
qed

lemma Dir_Base_snoc:
  assumes "ps \<noteq> []" "list_all plain ps" "list_all (\<lambda>c. CHR ''/'' \<notin> set c) ps"
    "plain b" "CHR ''/'' \<notin> set b"
  shows "Dir (Join (ps @ [b])) = Join ps" "Base (Join (ps @ [b])) = b"
proof -
  from assms have ne: "b \<noteq> []" by (simp add: plain_def)
  note j = Join_snoc [OF assms(1), of b]
  from Join_plain_not_Nil [OF assms(1,2)]
  have jn1: "Join ps \<noteq> []" and h: "hd (Join ps) = hd (hd ps)" by simp_all
  from assms(1,2,3) have "hd (hd ps) \<noteq> CHR ''/''"
    by (cases ps; cases "hd ps") (auto simp: plain_def)
  with jn1 h have jn: "Join ps \<noteq> [] \<and> hd (Join ps) \<noteq> CHR ''/''" by simp
  have sp: "Split (Join ps @ ''/'') = ps @ [[]]"
    using Split_append_slash [of "Join ps" "[]"] Split_Join [OF assms(1,3)] by simp
  have "clean_elems False [] (ps @ [[]]) = ps"
    using clean_elems_plain [OF assms(2), of "[]" False] by (simp add: clean_elems_snoc_empty)
  then have "Clean (Join ps @ ''/'') = Join ps"
    using jn by (simp add: Clean_def sp)
  then show "Dir (Join (ps @ [b])) = Join ps"
    using assms(5) by (simp add: Dir_def j path_Split_slash)
  from assms(5) ne have "last b \<noteq> CHR ''/''" by (metis last_in_set)
  then have "dropWhile (\<lambda>c. c = CHR ''/'') (rev b @ CHR ''/'' # rev (Join ps)) = rev b @ CHR ''/'' # rev (Join ps)"
    using ne by (cases "rev b") (auto simp: last_rev)
  then show "Base (Join (ps @ [b])) = b"
    using ne assms(5) by (simp add: Base_def j path_Split_slash)
qed

lemma Clean_plain:
  assumes "list_all plain (Split name)"
  shows "Clean name = name" "TrimPrefix name ''/'' = name"
proof -
  from assms have "hd (Split name) \<noteq> []" by (cases "Split name") (auto simp: plain_def)
  then have nr: "name \<noteq> [] \<and> hd name \<noteq> CHR ''/''" by (cases name) (auto split: if_splits)
  have "clean_elems False [] (Split name) = Split name"
    using clean_elems_plain [OF assms, of "[]" False] by simp
  with nr show "Clean name = name" by (simp add: Clean_def)
  from nr show "TrimPrefix name ''/'' = name" by (auto simp: TrimPrefix_def HasPrefix_slash)
qed

lemma open_measure_Dir:
  assumes "ValidPath n" "n \<noteq> ''.''"
  shows "open_measure (Dir n) < length n"
proof -
  from assms have pl: "list_all plain (Split n)" by (rule ValidPath_elems)
  have ns: "list_all (\<lambda>c. CHR ''/'' \<notin> set c) (Split n)"
    using no_slash_in_Split [of _ n] by (auto simp: list_all_iff)
  from ValidPath_not_rooted [OF assms(1)] have ne: "n \<noteq> []" by simp
  obtain ps b where sp: "Split n = ps @ [b]"
    using Split_not_Nil [of n] by (cases "Split n" rule: rev_cases) auto
  from pl ns sp have b: "plain b" "CHR ''/'' \<notin> set b" and ps: "list_all plain ps"
    "list_all (\<lambda>c. CHR ''/'' \<notin> set c) ps"
    by auto
  have n: "n = Join (ps @ [b])" using Join_Split [of n] sp by simp
  show ?thesis
  proof (cases "ps = []")
    case True
    then have "Dir n = ''.''" using Dir_Base_single [OF b] n by simp
    then show ?thesis using ne by (simp add: open_measure_def Clean_def TrimPrefix_def HasPrefix_def Let_def)
  next
    case False
    have d: "Dir n = Join ps" using Dir_Base_snoc [OF False ps b] n by simp
    have "Split (Join ps) = ps" using Split_Join [OF False ps(2)] .
    with ps(1) have "list_all plain (Split (Join ps))" by simp
    from Clean_plain [OF this] have "open_measure (Join ps) \<le> length (Join ps)"
      by (simp add: open_measure_def Let_def)
    moreover have "length (Join ps) < length n"
      using n Join_snoc [OF False, of b] by simp
    ultimately show ?thesis using d by simp
  qed
qed

lemma open_measure_ValidPath:
  "ValidPath n \<Longrightarrow> n \<noteq> ''.'' \<Longrightarrow> open_measure n = length n"
  using ValidPath_not_rooted [of n]
  by (simp add: open_measure_def Clean_ValidPath TrimPrefix_ValidPath Let_def)

function FileFS2_Open :: "tree_source \<Rightarrow> FileCore \<Rightarrow> string \<Rightarrow> (error + CoreFile) outcome"
  and FileFS2_ReadDir :: "tree_source \<Rightarrow> FileCore \<Rightarrow> string \<Rightarrow> (CoreFile list \<times> error option) outcome"
  where
  "FileFS2_Open r f name =
     (let name1 = TrimPrefix (Clean name) ''/'' in
      if name1 = [] \<or> name1 = ''.'' then
        (case AsFile r f of Panics \<Rightarrow> Panics | Returns fil \<Rightarrow> Returns (Inr fil))
      else if \<not> ValidPath name1 then Returns (Inl (PathError ErrInvalid))
      else
        (case FileFS2_ReadDir r f (Dir name1) of
           Panics \<Rightarrow> Panics
         | Returns (dirs, Some err) \<Rightarrow> Returns (Inl err)
         | Returns (dirs, None) \<Rightarrow>
             (case find (\<lambda>d. fst (Match (Base name1) (c_name (cf_core d)))) dirs of
                Some d \<Rightarrow> Returns (Inr d)
              | None \<Rightarrow> Returns (Inl (PathError ErrNotExist)))))"
| "FileFS2_ReadDir r f name =
     (let name1 = TrimPrefix (Clean name) ''/'' in
      if name1 = [] \<or> name1 = ''.'' then
        (case AsFile r f of
           Panics \<Rightarrow> Panics
         | Returns fil \<Rightarrow>
             (case CoreFile_ReadDir r fil (- 1) of
                Panics \<Rightarrow> Panics
              | Returns (res, fil') \<Rightarrow> Returns res))
      else if \<not> ValidPath name1 then Returns ([], Some (PathError ErrInvalid))
      else
        (case FileFS2_Open r f name1 of
           Panics \<Rightarrow> Panics
         | Returns (Inl err) \<Rightarrow>
             Returns ([], Some (if is_PathError err then err else PathError ErrInvalid))
         | Returns (Inr dir) \<Rightarrow>
             (case CoreFile_ReadDir r dir (- 1) of
                Panics \<Rightarrow> Panics
              | Returns (res, dir') \<Rightarrow> Returns res)))"
  by pat_completeness auto
termination
proof (relation "measure (\<lambda>x. case x of
          Inl (r, f, name) \<Rightarrow> 2 * open_measure name + 1
        | Inr (r, f, name) \<Rightarrow> 2 * open_measure name + 2)", goal_cases)
  case 1
  show ?case by simp
next
  case (2 r f name name1)
  then have v: "ValidPath name1" and nd: "name1 \<noteq> ''.''" and ne: "name1 \<noteq> []" by auto
  from 2 have m: "open_measure name = length name1"
    using ne nd by (simp add: open_measure_def Let_def)
  from open_measure_Dir [OF v nd] m show ?case by simp
next
  case (3 r f name name1)
  then have v: "ValidPath name1" and nd: "name1 \<noteq> ''.''" and ne: "name1 \<noteq> []" by auto
  from 3 have m: "open_measure name = length name1"
    using ne nd by (simp add: open_measure_def Let_def)
  from open_measure_ValidPath [OF v nd] m show ?case by simp
qed

declare FileFS2_Open.simps [simp del] FileFS2_ReadDir.simps [simp del]


section \<open>Properties of the directory decoder\<close>

lemma string_of_bytes_of_string [simp]: "string_of_bytes (bytes_of_string s) = s"
  by (simp add: string_of_bytes_def bytes_of_string_def comp_def unat_of_nat map_idI)

lemma length_bytes_of_string [simp]: "length (bytes_of_string s) = length s"
  by (simp add: bytes_of_string_def)

lemma le16_put16 [simp]: "le16 (put16 w) = w"
  unfolding le16_def put16_def
  apply simp
  apply (rule bit_word_eqI)
  apply (auto simp: bit_simps)
  done

lemma le32_put32 [simp]: "le32 (put32 w) = w"
  unfolding le32_def put32_def
  apply simp
  apply (rule bit_word_eqI)
  subgoal for n
    apply (cases "n < 8"; cases "n < 16"; cases "n < 24")
    apply (auto simp: bit_simps)
    done
  done

lemma length_put16 [simp]: "length (put16 w) = 2" by (simp add: put16_def)
lemma length_put32 [simp]: "length (put32 w) = 4" by (simp add: put32_def)

lemma ReadFull_append: "length a = n \<Longrightarrow> ReadFull (a @ b) n = Inr (a, b)"
  by (auto simp: ReadFull_def)

lemma decode_EntryRaw_put:
  "decode_EntryRaw (put16 off @ put16 delta @ put16 kind @ put16 ns) =
     \<lparr>Offset = off, RawInodeOffset = delta, RawType = kind, NameSize = ns\<rparr>"
  by (simp add: decode_EntryRaw_def)

lemma decode_Header_put:
  "decode_Header (put_Header c off n) = \<lparr>Count = c, HdrInodeOffset = off, InodeNumber = n\<rparr>"
  by (simp add: decode_Header_def put_Header_def)

lemma read_Header_put:
  "read_Header (put_Header c off n @ rest) = Inr (\<lparr>Count = c, HdrInodeOffset = off, InodeNumber = n\<rparr>, rest)"
proof -
  have "ReadFull (put_Header c off n @ rest) 12 = Inr (put_Header c off n, rest)"
    by (rule ReadFull_append) (simp add: put_Header_def)
  then show ?thesis by (simp add: read_Header_def decode_Header_put)
qed

lemma NewEntry_put_Entry:
  assumes "1 \<le> length name" "length name \<le> 65535"
  shows "NewEntry (put_Entry off delta kind name @ rest) =
     Inr (\<lparr>Name = name, EntryType = kind, InodeBlockOffset = off, InodeOffset = 0\<rparr>, rest)"
proof -
  define ns :: "16 word" where "ns = word_of_nat (length name - 1)"
  define h where "h = put16 off @ put16 delta @ put16 kind @ put16 ns"
  define nb where "nb = bytes_of_string name"
  have n: "unat (ns + 1) = length nb"
    using assms by (simp add: ns_def nb_def unat_word_ariths unat_of_nat)
  have 1: "ReadFull (h @ (nb @ rest)) 8 = Inr (h, nb @ rest)"
    by (rule ReadFull_append) (simp add: h_def)
  have 2: "ReadFull (nb @ rest) (unat (ns + 1)) = Inr (nb, rest)"
    by (rule ReadFull_append) (simp add: n)
  have 3: "decode_EntryRaw h = \<lparr>Offset = off, RawInodeOffset = delta, RawType = kind, NameSize = ns\<rparr>"
    by (simp add: h_def decode_EntryRaw_put)
  have eq: "put_Entry off delta kind name @ rest = h @ (nb @ rest)"
    by (simp add: put_Entry_def h_def nb_def ns_def)
  have "NewEntry (h @ (nb @ rest)) =
      Inr (\<lparr>Name = string_of_bytes nb, EntryType = kind, InodeBlockOffset = off, InodeOffset = 0\<rparr>, rest)"
    by (simp add: NewEntry_def 1 2 3 Let_def)
  then show ?thesis
    unfolding eq by (simp add: nb_def)
qed

lemma entries_loop_put_entries:
  assumes "list_all name_ok recs" "k + length recs = n" "n \<le> 256"
  shows "entries_loop \<lparr>Count = word_of_nat n, HdrInodeOffset = ioff, InodeNumber = inum\<rparr>
           (word_of_nat k) (put_entries recs @ rest) acc
         = Inr (rest, acc @ map (entry_of ioff) recs)"
  using assms
proof (induction recs arbitrary: k acc)
  case Nil
  then show ?case
    by (subst entries_loop.simps) (simp add: put_entries_def)
next
  case (Cons r recs)
  obtain off delta kind name where r: "r = (off, delta, kind, name)" by (cases r) auto
  from Cons.prems have k: "k < n" "n \<le> 256" by auto
  then have lt: "(word_of_nat k :: 32 word) < word_of_nat n"
    by (simp add: word_less_nat_alt unat_of_nat)
  have nomod: "\<not> ((word_of_nat k :: 32 word) \<noteq> 0 \<and> (word_of_nat k :: 32 word) mod 256 = 0)"
  proof (rule notI, elim conjE)
    assume a: "(word_of_nat k :: 32 word) \<noteq> 0" and b: "(word_of_nat k :: 32 word) mod 256 = 0"
    have u: "unat ((word_of_nat k :: 32 word) mod 256) = k"
      using k by (simp add: unat_mod unat_of_nat)
    have "unat ((word_of_nat k :: 32 word) mod 256) = 0"
      by (simp only: b unat_0)
    with u have "k = 0" by simp
    with a show False by simp
  qed
  from Cons.prems r have nm: "1 \<le> length name" "length name \<le> 65535"
    by (auto simp: name_ok_def)
  have ne: "NewEntry (put_entries (r # recs) @ rest) =
      Inr (\<lparr>Name = name, EntryType = kind, InodeBlockOffset = off, InodeOffset = 0\<rparr>, put_entries recs @ rest)"
    using NewEntry_put_Entry [OF nm, of off delta kind "put_entries recs @ rest"]
    by (simp add: put_entries_def r)
  have suc: "(word_of_nat k :: 32 word) + 1 = word_of_nat (Suc k)" by simp
  have IH: "entries_loop \<lparr>Count = word_of_nat n, HdrInodeOffset = ioff, InodeNumber = inum\<rparr>
           (word_of_nat (Suc k)) (put_entries recs @ rest) (acc @ [entry_of ioff r])
         = Inr (rest, (acc @ [entry_of ioff r]) @ map (entry_of ioff) recs)"
    using Cons.prems by (intro Cons.IH) auto
  have nomod': "((word_of_nat k :: 32 word) \<noteq> 0 \<and> (word_of_nat k :: 32 word) mod 256 = 0) = False"
    using nomod by blast
  have "entries_loop \<lparr>Count = word_of_nat n, HdrInodeOffset = ioff, InodeNumber = inum\<rparr>
           (word_of_nat k) (put_entries (r # recs) @ rest) acc
        = entries_loop \<lparr>Count = word_of_nat n, HdrInodeOffset = ioff, InodeNumber = inum\<rparr>
           (word_of_nat (Suc k)) (put_entries recs @ rest) (acc @ [entry_of ioff r])"
    apply (subst entries_loop.simps)
    apply (simp only: Header.simps lt if_True nomod' if_False sum.case prod.case ne suc)
    apply (simp add: entry_of_def r)
    done
  with IH show ?case by simp
qed

lemma directory_loop_end:
  assumes "0 < length tail" "length tail < 12"
  shows "directory_loop tail acc = (acc, None)"
  using assms by (subst directory_loop.simps) (auto simp: read_Header_def ReadFull_def)

lemma directory_loop_put_directory:
  assumes "list_all group_ok groups" "0 < length tail" "length tail < 12"
  shows "directory_loop (put_directory groups @ tail) acc
           = (acc @ concat (map entries_of_group groups), None)"
  using assms
proof (induction groups arbitrary: acc)
  case Nil
  then show ?case by (simp add: put_directory_def directory_loop_end)
next
  case (Cons g groups)
  obtain ioff inum recs where g: "g = (ioff, inum, recs)" by (cases g) auto
  from Cons.prems g have ok: "1 \<le> length recs" "length recs \<le> 256" "list_all name_ok recs"
    by (auto simp: group_ok_def)
  define rest where "rest = put_directory groups @ tail"
  define c :: "32 word" where "c = word_of_nat (length recs - 1)"
  have eq: "put_directory (g # groups) @ tail = put_Header c ioff inum @ (put_entries recs @ rest)"
    by (simp add: put_directory_def put_group_def g rest_def c_def)
  have cnt: "c + 1 = word_of_nat (length recs)"
    using ok by (cases "length recs") (auto simp: c_def)
  have inner: "entries_loop \<lparr>Count = word_of_nat (length recs), HdrInodeOffset = ioff, InodeNumber = inum\<rparr>
           0 (put_entries recs @ rest) acc = Inr (rest, acc @ map (entry_of ioff) recs)"
    using entries_loop_put_entries [OF ok(3), of 0 "length recs" ioff inum rest acc] ok by simp
  have "directory_loop (put_directory (g # groups) @ tail) acc
      = directory_loop rest (acc @ map (entry_of ioff) recs)"
    unfolding eq
    by (subst directory_loop.simps) (simp add: read_Header_put cnt inner)
  also have "\<dots> = ((acc @ map (entry_of ioff) recs) @ concat (map entries_of_group groups), None)"
    unfolding rest_def using Cons.prems by (intro Cons.IH) auto
  finally show ?case
    by (simp add: entries_of_group_def [of "(ioff, inum, recs)"] g)
qed

lemma NewDirectory_put_directory:
  assumes "list_all group_ok groups" "0 < length tail" "length tail < 12"
    "length (put_directory groups @ tail) = unat size'"
  shows "NewDirectory (put_directory groups @ tail) size' = (concat (map entries_of_group groups), None)"
proof -
  have "take (unat size') (put_directory groups @ tail) @
      replicate (unat size' - length (put_directory groups @ tail)) 0 = put_directory groups @ tail"
    unfolding assms(4) [symmetric] by simp
  then show ?thesis
    unfolding NewDirectory_def
    using directory_loop_put_directory [OF assms(1,2,3), of "[]"] by simp
qed

lemma NewEntry_reads:
  assumes "NewEntry rdr = Inr (e, rdr')"
  shows "length (Name e) = (unat (NameSize (decode_EntryRaw (take 8 rdr))) + 1) mod 65536
       \<and> Name e = string_of_bytes (take (length (Name e)) (drop 8 rdr))
       \<and> rdr' = drop (8 + length (Name e)) rdr
       \<and> InodeBlockOffset e = Offset (decode_EntryRaw (take 8 rdr))
       \<and> EntryType e = RawType (decode_EntryRaw (take 8 rdr))"
proof -
  from assms obtain bs rdr1 tmp where
    1: "ReadFull rdr 8 = Inr (bs, rdr1)" and
    2: "ReadFull rdr1 (unat (NameSize (decode_EntryRaw bs) + 1)) = Inr (tmp, rdr')" and
    e: "e = \<lparr>Name = string_of_bytes tmp, EntryType = RawType (decode_EntryRaw bs),
             InodeBlockOffset = Offset (decode_EntryRaw bs), InodeOffset = 0\<rparr>"
    by (auto simp: NewEntry_def Let_def split: sum.splits)
  from 1 have bs: "bs = take 8 rdr" "rdr1 = drop 8 rdr"
    by (auto simp: ReadFull_def split: if_splits)
  from 2 have tmp: "length tmp = unat (NameSize (decode_EntryRaw bs) + 1)"
    "tmp = take (length tmp) rdr1" "rdr' = drop (length tmp) rdr1"
    by (auto simp: ReadFull_def split: if_splits)
  have "unat (NameSize (decode_EntryRaw bs) + 1) = (unat (NameSize (decode_EntryRaw bs)) + 1) mod 65536"
    by (simp add: unat_word_ariths)
  with tmp bs e show ?thesis
    by (simp add: string_of_bytes_def add.commute)
qed

text \<open>
  What the decoder does. (a) Whatever \<^verbatim>\<open>NewEntry\<close> decodes, the name it returns is the
  \<open>(name_size + 1) mod 65536\<close> bytes that follow the 8-byte record, unchanged,
  and the entry's in-block offset is the record's own; the count is
  \<open>name_size + 1\<close> for every stored size below 65535. (b) \<^verbatim>\<open>NewDirectory\<close> on
  a listing laid out as the format says (groups of at most 256 records,
  names of 1 to 65535 bytes, followed by 1 to 11 spare bytes within the
  declared size) returns exactly the records' names, kinds and in-block
  offsets, in order, each with the inode-table block offset of its group's
  header, which is the header read last before it.
\<close>

lemma NewDirectory_decodes_layout:
  "(NewEntry rdr = Inr (e, rdr') \<longrightarrow>
      length (Name e) = (unat (NameSize (decode_EntryRaw (take 8 rdr))) + 1) mod 65536
      \<and> Name e = string_of_bytes (take (length (Name e)) (drop 8 rdr))
      \<and> rdr' = drop (8 + length (Name e)) rdr
      \<and> InodeBlockOffset e = Offset (decode_EntryRaw (take 8 rdr)))
   \<and> (list_all group_ok groups \<and> 0 < length tail \<and> length tail < 12
        \<and> length (put_directory groups @ tail) = unat size' \<longrightarrow>
      NewDirectory (put_directory groups @ tail) size'
        = (concat (map entries_of_group groups), None))"
proof (rule conjI)
  show "NewEntry rdr = Inr (e, rdr') \<longrightarrow>
      length (Name e) = (unat (NameSize (decode_EntryRaw (take 8 rdr))) + 1) mod 65536
      \<and> Name e = string_of_bytes (take (length (Name e)) (drop 8 rdr))
      \<and> rdr' = drop (8 + length (Name e)) rdr
      \<and> InodeBlockOffset e = Offset (decode_EntryRaw (take 8 rdr))"
    using NewEntry_reads [of rdr e rdr'] by blast
next
  show "list_all group_ok groups \<and> 0 < length tail \<and> length tail < 12
        \<and> length (put_directory groups @ tail) = unat size' \<longrightarrow>
      NewDirectory (put_directory groups @ tail) size'
        = (concat (map entries_of_group groups), None)"
  proof
    assume a: "list_all group_ok groups \<and> 0 < length tail \<and> length tail < 12
        \<and> length (put_directory groups @ tail) = unat size'"
    then have len: "length (put_directory groups @ tail) = unat size'"
      by blast
    have "take (unat size') (put_directory groups @ tail) @
        replicate (unat size' - length (put_directory groups @ tail)) 0 = put_directory groups @ tail"
      unfolding len [symmetric] by simp
    then show "NewDirectory (put_directory groups @ tail) size'
        = (concat (map entries_of_group groups), None)"
      unfolding NewDirectory_def
      using directory_loop_put_directory [of groups tail "[]"] a by simp
  qed
qed

definition example_groups :: "raw_group list" where
  "example_groups = [(5, 1, [(32, 0, 2, ''a''), (64, 1, 1, ''bc'')]), (9, 7, [(0, 0, 2, ''d'')])]"

lemma NewDirectory_decodes_layout_example:
  "NewEntry (put_Entry 32 0 2 ''a'') =
      Inr (\<lparr>Name = ''a'', EntryType = 2, InodeBlockOffset = 32, InodeOffset = 0\<rparr>, [])
   \<and> length ''a'' = (unat (NameSize (decode_EntryRaw (take 8 (put_Entry 32 0 2 ''a'')))) + 1) mod 65536
   \<and> list_all group_ok example_groups
   \<and> length (put_directory example_groups @ [0, 0, 0]) = unat (55 :: 32 word)
   \<and> NewDirectory (put_directory example_groups @ [0, 0, 0]) 55 =
       ([\<lparr>Name = ''a'', EntryType = 2, InodeBlockOffset = 32, InodeOffset = 5\<rparr>,
         \<lparr>Name = ''bc'', EntryType = 1, InodeBlockOffset = 64, InodeOffset = 5\<rparr>,
         \<lparr>Name = ''d'', EntryType = 2, InodeBlockOffset = 0, InodeOffset = 9\<rparr>], None)"
proof -
  have e: "NewEntry (put_Entry 32 0 2 ''a'') =
      Inr (\<lparr>Name = ''a'', EntryType = 2, InodeBlockOffset = 32, InodeOffset = 0\<rparr>, [])"
    using NewEntry_put_Entry [of "''a''" 32 0 2 "[]"] by simp
  have ok: "list_all group_ok example_groups"
    by (simp add: example_groups_def group_ok_def name_ok_def)
  have len: "length (put_directory example_groups @ [0, 0, 0]) = unat (55 :: 32 word)"
    by (simp add: example_groups_def put_directory_def put_group_def put_entries_def
        put_Entry_def put_Header_def)
  have es: "concat (map entries_of_group example_groups) =
       [\<lparr>Name = ''a'', EntryType = 2, InodeBlockOffset = 32, InodeOffset = 5\<rparr>,
        \<lparr>Name = ''bc'', EntryType = 1, InodeBlockOffset = 64, InodeOffset = 5\<rparr>,
        \<lparr>Name = ''d'', EntryType = 2, InodeBlockOffset = 0, InodeOffset = 9\<rparr>]"
    by (simp add: example_groups_def entries_of_group_def entry_of_def)
  have t: "0 < length [0, 0, 0 :: byte]" "length [0, 0, 0 :: byte] < 12"
    by simp_all
  note T = NewDirectory_decodes_layout
    [of "put_Entry 32 0 2 ''a''"
        "\<lparr>Name = ''a'', EntryType = 2, InodeBlockOffset = 32, InodeOffset = 0\<rparr>" "[]"
        example_groups "[0, 0, 0]" 55]
  from T e have "length (Name \<lparr>Name = ''a'', EntryType = 2, InodeBlockOffset = 32, InodeOffset = 0\<rparr>)
      = (unat (NameSize (decode_EntryRaw (take 8 (put_Entry 32 0 2 ''a'')))) + 1) mod 65536"
    by blast
  then have n: "length ''a'' = (unat (NameSize (decode_EntryRaw (take 8 (put_Entry 32 0 2 ''a'')))) + 1) mod 65536"
    by (simp only: Entry.select_convs)
  from T ok t len have "NewDirectory (put_directory example_groups @ [0, 0, 0]) 55
      = (concat (map entries_of_group example_groups), None)"
    by blast
  with es have d: "NewDirectory (put_directory example_groups @ [0, 0, 0]) 55 =
       ([\<lparr>Name = ''a'', EntryType = 2, InodeBlockOffset = 32, InodeOffset = 5\<rparr>,
         \<lparr>Name = ''bc'', EntryType = 1, InodeBlockOffset = 64, InodeOffset = 5\<rparr>,
         \<lparr>Name = ''d'', EntryType = 2, InodeBlockOffset = 0, InodeOffset = 9\<rparr>], None)"
    by simp
  from e n ok len d show ?thesis by blast
qed

text \<open>
  C8. The code fails the claim where the stored size is 65535, the name of
  65536 bytes: \<^verbatim>\<open>raw.NameSize+1\<close> is computed in \<^verbatim>\<open>uint16\<close> and wraps to 0, so
  \<^verbatim>\<open>NewEntry\<close> reads no byte of the name, returns an entry with the empty
  name, and leaves the bytes of the name to be decoded as the next records.
  The claim has \<open>name_size + 1 = 65536\<close> bytes read.
\<close>

theorem NewEntry_name_size_wraps:
  "NewEntry [0, 0, 0, 0, 0, 0, 0xFF, 0xFF, 0x61, 0x62] =
     Inr (\<lparr>Name = [], EntryType = 0, InodeBlockOffset = 0, InodeOffset = 0\<rparr>, [0x61, 0x62])
   \<and> unat (NameSize (decode_EntryRaw [0, 0, 0, 0, 0, 0, 0xFF, 0xFF])) + 1 = 65536"
  by (simp add: NewEntry_def ReadFull_def decode_EntryRaw_def Let_def le16_def string_of_bytes_def)

section \<open>Properties of File\<close>

text \<open>
  C10: a File whose inode is neither a basic nor an extended regular file
  (a directory, symlink, device, pipe, socket, or an unknown tag) has size 0,
  in both versions of \<^verbatim>\<open>File.Size\<close>.
\<close>

theorem Size_zero_unless_regular:
  "(\<not> IsRegular f \<longrightarrow> File_Size f = Returns 0)
   \<and> (\<not> IsFile c \<longrightarrow> FileCore_Size c = Returns 0)"
  by (auto simp: IsRegular_def File_Size_def IsFile_def FileCore_Size_def split: inode_type.splits)

definition example_dir :: File where
  "example_dir =
     \<lparr>f_in = \<lparr>Type = DirType,
              Info = InfoDir \<lparr>DirectoryIndex = 0, DirectorySize = 25, DirectoryOffset = 0\<rparr>\<rparr>,
      f_reader = None, f_name = ''a'',
      entries = [\<lparr>Name = ''b'', EntryType = 2, InodeBlockOffset = 0, InodeOffset = 0\<rparr>],
      dirsRead = 0\<rparr>"

theorem Size_zero_unless_regular_witness:
  "\<not> IsRegular example_dir \<and> File_Size example_dir = Returns 0
   \<and> \<not> IsFile \<lparr>c_in = \<lparr>Type = ExtSymType, Info = InfoExtSym ''../b''\<rparr>, c_name = ''l''\<rparr>
   \<and> FileCore_Size \<lparr>c_in = \<lparr>Type = ExtSymType, Info = InfoExtSym ''../b''\<rparr>, c_name = ''l''\<rparr>
       = Returns 0"
  using Size_zero_unless_regular
    [of example_dir "\<lparr>c_in = \<lparr>Type = ExtSymType, Info = InfoExtSym ''../b''\<rparr>, c_name = ''l''\<rparr>"]
  by (simp add: IsRegular_def IsFile_def example_dir_def)

text \<open>
  \<^verbatim>\<open>File.ReadDir\<close> with a negative count: \<^verbatim>\<open>end = f.dirsRead + i\<close> is below
  \<^verbatim>\<open>beg = f.dirsRead\<close> (or negative), and the slice expression panics.
\<close>

lemma File_ReadDir_negative_panics:
  "IsDir f \<Longrightarrow> i < 0 \<Longrightarrow> File_ReadDir f i = Panics"
  by (auto simp: File_ReadDir_def slice_entries_def Let_def)

lemma File_ReadDir_nonnegative_all:
  "IsDir f \<Longrightarrow> 0 \<le> i \<Longrightarrow> File_ReadDir f i = Returns (entries f, None, f)"
  by (auto simp: File_ReadDir_def slice_entries_def Let_def)

text \<open>
  C9 fails on the code: on a directory with one entry, \<^verbatim>\<open>ReadDir(-1)\<close> panics.
\<close>

theorem File_ReadDir_minus_one_panics:
  "File_ReadDir example_dir (- 1) = Panics"
  by (simp add: File_ReadDir_def slice_entries_def Let_def example_dir_def IsDir_def)

text \<open>
  C1 fails on the code: \<^verbatim>\<open>File.WriteTo\<close> never returns, whatever the file and
  the sink.
\<close>

theorem File_WriteTo_never_returns: "File_WriteTo f w = None"
proof (cases "File_WriteTo f w")
  case None
  then show ?thesis .
next
  case (Some y)
  have "False"
    by (rule File_WriteTo.raw_induct [where P = "\<lambda>_ _ _. False", OF _ Some])
  then show ?thesis ..
qed

section \<open>Properties of NewSquashfsReader\<close>

lemma floor_log2_bounds: "0 < n \<Longrightarrow> 2 ^ floor_log2 n \<le> n \<and> n < 2 ^ Suc (floor_log2 n)"
proof (induction n rule: floor_log2.induct)
  case (1 n)
  show ?case
  proof (cases "n < 2")
    case True
    with "1.prems" show ?thesis by (simp add: floor_log2.simps [of n])
  next
    case False
    then have "0 < n div 2" by simp
    with "1.IH" False have "2 ^ floor_log2 (n div 2) \<le> n div 2 \<and> n div 2 < 2 ^ Suc (floor_log2 (n div 2))"
      by simp
    with False show ?thesis
      by (simp add: floor_log2.simps [of n]) linarith
  qed
qed

lemma floor_log2_unique:
  assumes "2 ^ k \<le> n" "n < 2 ^ Suc k"
  shows "floor_log2 n = k"
proof -
  from assms have n: "0 < n" by (cases n) auto
  note b = floor_log2_bounds [OF n]
  have "k < Suc (floor_log2 n)"
    using assms(1) b by (meson le_less_trans power_less_imp_less_exp one_less_numeral_iff semiring_norm(76))
  moreover have "floor_log2 n < Suc k"
    using assms(2) b by (meson le_less_trans power_less_imp_less_exp one_less_numeral_iff semiring_norm(76))
  ultimately show ?thesis by simp
qed

lemma Log2_uint16_eq:
  assumes "2 ^ k \<le> unat bs" "unat bs < 2 ^ Suc k"
  shows "unat (Log2_uint16 z bs) = k"
proof -
  have fl: "floor_log2 (unat bs) = k" using assms by (rule floor_log2_unique)
  have "unat bs < 2 ^ 32"
    using unsigned_less [of bs, where 'a = nat] by simp
  with assms(1) have "(2::nat) ^ k < 2 ^ 32"
    by (rule le_less_trans)
  then have "k < 32" by (simp only: power_strict_increasing_iff rel_simps)
  moreover have "bs \<noteq> 0" using assms(1) by (auto simp: unat_eq_0)
  ultimately show ?thesis
    by (simp add: Log2_uint16_def fl unat_of_nat)
qed

lemma floor_log2_131072: "floor_log2 131072 = 17"
  by (rule floor_log2_unique) simp_all

lemma Log2_131072: "Log2_uint16 z 131072 = 17"
  by (simp add: Log2_uint16_def floor_log2_131072)

lemma Log2_2048: "Log2_uint16 z 2048 = 11"
proof -
  have "floor_log2 2048 = 11" by (rule floor_log2_unique) simp_all
  then show ?thesis by (simp add: Log2_uint16_def)
qed

lemma select_decompressor_unsupported:
  "select_decompressor dflt opts ct r = Inl errIncompatibleCompression \<longleftrightarrow>
     (ct \<notin> {GzipCompression, LzmaCompression, XzCompression, Lz4Compression, ZstdCompression}
      \<or> (ct = LzmaCompression \<and> opts))"
  by (auto simp: select_decompressor_def NewGzipCompressorWithOptions_def
      NewXzCompressorWithOptions_def NewLz4CompressorWithOptions_def
      NewZstdCompressorWithOptions_def ReadFull_def
      GzipCompression_def LzmaCompression_def XzCompression_def Lz4Compression_def
      ZstdCompression_def split: sum.splits option.splits if_splits)

definition example_super :: "16 word \<Rightarrow> 32 word \<Rightarrow> 16 word \<Rightarrow> superblock" where
  "example_super ct bs bl =
     \<lparr>Magic = 0x73717368, CreationTime = 0, BlockSize = bs, FragCount = 0, CompressionType = ct,
      BlockLog = bl, IDCount = 1, RootInodeRef = 0, BytesUsed = 4096\<rparr>"

definition example_source :: "superblock \<Rightarrow> bool \<Rightarrow> byte list \<Rightarrow> unit source" where
  "example_source sb opts bytes =
     \<lparr>read_super = Inr sb, compressorOptions = opts, after_super = bytes, log2_of_zero = 0,
      load_tables = Inr ()\<rparr>"

text \<open>
  C5. With the compressor-options flag set and the superblock checks
  passed: a gzip archive whose 8-byte options block has a window size other
  than 15 or a strategy bitmap other than the default gives, when the tables
  and the root directory load, the Reader together with \<^verbatim>\<open>ErrOptions\<close>; an XZ
  archive whose options block has a filter bit set gives no Reader and the
  filters error.
\<close>

theorem compressor_options:
  assumes "read_super src = Inr sb" "Magic sb = magic"
    and "BlockLog sb = Log2_uint16 (log2_of_zero src) (BlockSize sb)"
    and "compressorOptions src" "8 \<le> length (after_super src)"
  shows "(CompressionType sb = GzipCompression \<longrightarrow>
            (gzip_window_size (take 8 (after_super src)) \<noteq> 15
               \<or> \<not> dflt (gzip_strategies (take 8 (after_super src)))) \<longrightarrow>
            load_tables src = Inr fs \<longrightarrow>
            NewSquashfsReader dflt src =
              (Some \<lparr>rdr_super = sb, rdr_compressorOptions = True,
                      rdr_decompressor =
                        DGzip \<lparr>CompressionLevel = le32 (take 4 (after_super src)),
                               HasCustomWindow = (gzip_window_size (take 8 (after_super src)) \<noteq> 15),
                               HasStrategies = (\<not> dflt (gzip_strategies (take 8 (after_super src))))\<rparr>,
                      rdr_FileFS = fs\<rparr>, Some ErrOptions))
       \<and> (CompressionType sb = XzCompression \<longrightarrow>
            xz_filters (take 8 (after_super src)) \<noteq> 0 \<longrightarrow>
            NewSquashfsReader dflt src = (None, Some errXzFilters))"
proof -
  from assms(5) have r: "ReadFull (after_super src) 8
      = Inr (take 8 (after_super src), drop 8 (after_super src))"
    by (auto simp: ReadFull_def)
  show ?thesis
    using assms(1-4)
    by (auto simp: NewSquashfsReader_def select_decompressor_def r
        NewGzipCompressorWithOptions_def NewXzCompressorWithOptions_def
        GzipCompression_def XzCompression_def Let_def)
qed

theorem compressor_options_witness:
  "8 \<le> length (put32 9 @ put16 12 @ put16 1)
   \<and> gzip_window_size (take 8 (put32 9 @ put16 12 @ put16 1)) \<noteq> 15
   \<and> NewSquashfsReader (\<lambda>s. s = 0 \<or> s = 1)
         (example_source (example_super GzipCompression 131072 17) True (put32 9 @ put16 12 @ put16 1))
       = (Some \<lparr>rdr_super = example_super GzipCompression 131072 17, rdr_compressorOptions = True,
                 rdr_decompressor =
                   DGzip \<lparr>CompressionLevel = 9, HasCustomWindow = True, HasStrategies = False\<rparr>,
                 rdr_FileFS = ()\<rparr>, Some ErrOptions)
   \<and> xz_filters (take 8 (put32 4096 @ put32 1)) \<noteq> 0
   \<and> NewSquashfsReader (\<lambda>s. s = 0 \<or> s = 1)
         (example_source (example_super XzCompression 131072 17) True (put32 4096 @ put32 1))
       = (None, Some errXzFilters)"
proof -
  have w: "gzip_window_size (take 8 (put32 9 @ put16 12 @ put16 1)) \<noteq> 15"
    by (simp add: gzip_window_size_def)
  have x: "xz_filters (take 8 (put32 4096 @ put32 1)) \<noteq> 0"
    by (simp add: xz_filters_def)
  have g: "NewSquashfsReader (\<lambda>s. s = 0 \<or> s = 1)
         (example_source (example_super GzipCompression 131072 17) True (put32 9 @ put16 12 @ put16 1))
       = (Some \<lparr>rdr_super = example_super GzipCompression 131072 17, rdr_compressorOptions = True,
                 rdr_decompressor =
                   DGzip \<lparr>CompressionLevel = 9, HasCustomWindow = True, HasStrategies = False\<rparr>,
                 rdr_FileFS = ()\<rparr>, Some ErrOptions)"
    using compressor_options
      [of "example_source (example_super GzipCompression 131072 17) True (put32 9 @ put16 12 @ put16 1)"
          "example_super GzipCompression 131072 17" "\<lambda>s. s = 0 \<or> s = 1" "()"] w
    by (simp add: example_source_def example_super_def magic_def Log2_131072 gzip_strategies_def)
  have z: "NewSquashfsReader (\<lambda>s. s = 0 \<or> s = 1)
         (example_source (example_super XzCompression 131072 17) True (put32 4096 @ put32 1))
       = (None, Some errXzFilters)"
    using compressor_options
      [of "example_source (example_super XzCompression 131072 17) True (put32 4096 @ put32 1)"
          "example_super XzCompression 131072 17" "\<lambda>s. s = 0 \<or> s = 1" "()"] x
    by (simp add: example_source_def example_super_def magic_def Log2_131072)
  from w g x z show ?thesis by simp
qed


lemma NewSquashfsReader_selected:
  assumes "read_super src = Inr sb" "Magic sb = magic"
    and "BlockLog sb = Log2_uint16 (log2_of_zero src) (BlockSize sb)"
    and "select_decompressor dflt (compressorOptions src) (CompressionType sb) (after_super src)
           = Inr (d, u)"
    and "load_tables src = Inr fs"
  shows "NewSquashfsReader dflt src =
           (Some \<lparr>rdr_super = sb, rdr_compressorOptions = compressorOptions src,
                   rdr_decompressor = d, rdr_FileFS = fs\<rparr>,
            if u then Some ErrOptions else None)"
  using assms by (simp add: NewSquashfsReader_def)

lemma select_decompressor_plain:
  "ct \<in> {GzipCompression, LzmaCompression, XzCompression, Lz4Compression, ZstdCompression} \<Longrightarrow>
   select_decompressor dflt False ct r =
     Inr (if ct = GzipCompression then DGzip Gzip_zero
          else if ct = LzmaCompression then DLzma
          else if ct = XzCompression then DXz Xz_zero
          else if ct = Lz4Compression then DLz4
          else DZstd, False)"
  by (auto simp: select_decompressor_def)

lemma select_decompressor_options:
  "8 \<le> length r \<Longrightarrow>
   select_decompressor dflt True GzipCompression r =
     Inr (DGzip \<lparr>CompressionLevel = le32 (take 4 r),
                 HasCustomWindow = (gzip_window_size (take 8 r) \<noteq> 15),
                 HasStrategies = (\<not> dflt (gzip_strategies (take 8 r)))\<rparr>,
          gzip_window_size (take 8 r) \<noteq> 15 \<or> \<not> dflt (gzip_strategies (take 8 r)))"
  "8 \<le> length r \<Longrightarrow> xz_filters (take 8 r) = 0 \<Longrightarrow>
   select_decompressor dflt True XzCompression r =
     Inr (DXz \<lparr>DictionarySize = le32 (take 4 r), HasFilters = False\<rparr>, False)"
  "8 \<le> length r \<Longrightarrow> select_decompressor dflt True Lz4Compression r = Inr (DLz4, False)"
  "4 \<le> length r \<Longrightarrow> select_decompressor dflt True ZstdCompression r = Inr (DZstd, False)"
  by (auto simp: select_decompressor_def NewGzipCompressorWithOptions_def
      NewXzCompressorWithOptions_def NewLz4CompressorWithOptions_def
      NewZstdCompressorWithOptions_def ReadFull_def
      GzipCompression_def LzmaCompression_def XzCompression_def Lz4Compression_def
      ZstdCompression_def)

text \<open>
  C6, as amended. For an archive that passes the superblock checks, the
  error of \<^verbatim>\<open>NewSquashfsReader\<close> is \<^verbatim>\<open>errIncompatibleCompression\<close> exactly when
  the compression type is not one of gzip=1, lzma=2, xz=4, lz4=5, zstd=6, or
  it is lzma and the compressor-options flag is set; no Reader is returned
  then. (The tables and the root directory are loaded by helpers outside the
  files; they are taken not to return this error themselves.) When the tables
  load: without the flag each of the five types opens with its decompressor at
  its zero value; with the flag, gzip with an options block of 8 bytes gives
  the Reader with the gzip decompressor of those options, XZ with an options
  block of 8 bytes and no filter bit opens with the XZ decompressor of those
  options, LZ4 with 8 bytes and Zstd with 4 open with theirs.
\<close>

theorem unsupported_compression_iff:
  assumes "read_super src = Inr sb" "Magic sb = magic"
    and "BlockLog sb = Log2_uint16 (log2_of_zero src) (BlockSize sb)"
    and "load_tables src \<noteq> Inl errIncompatibleCompression"
  shows "((snd (NewSquashfsReader dflt src) = Some errIncompatibleCompression) =
           (CompressionType sb \<notin> {GzipCompression, LzmaCompression, XzCompression,
                                     Lz4Compression, ZstdCompression}
            \<or> (CompressionType sb = LzmaCompression \<and> compressorOptions src)))
       \<and> ((NewSquashfsReader dflt src = (None, Some errIncompatibleCompression)) =
           (snd (NewSquashfsReader dflt src) = Some errIncompatibleCompression))
       \<and> (\<not> compressorOptions src
            \<and> CompressionType sb \<in> {GzipCompression, LzmaCompression, XzCompression,
                                      Lz4Compression, ZstdCompression}
            \<and> load_tables src = Inr fs \<longrightarrow>
          NewSquashfsReader dflt src =
            (Some \<lparr>rdr_super = sb, rdr_compressorOptions = False,
                    rdr_decompressor =
                      (if CompressionType sb = GzipCompression then DGzip Gzip_zero
                       else if CompressionType sb = LzmaCompression then DLzma
                       else if CompressionType sb = XzCompression then DXz Xz_zero
                       else if CompressionType sb = Lz4Compression then DLz4
                       else DZstd),
                    rdr_FileFS = fs\<rparr>, None))
       \<and> (compressorOptions src \<and> CompressionType sb = GzipCompression
            \<and> 8 \<le> length (after_super src) \<and> load_tables src = Inr fs \<longrightarrow>
          fst (NewSquashfsReader dflt src) =
            Some \<lparr>rdr_super = sb, rdr_compressorOptions = True,
                   rdr_decompressor =
                     DGzip \<lparr>CompressionLevel = le32 (take 4 (after_super src)),
                            HasCustomWindow = (gzip_window_size (take 8 (after_super src)) \<noteq> 15),
                            HasStrategies = (\<not> dflt (gzip_strategies (take 8 (after_super src))))\<rparr>,
                   rdr_FileFS = fs\<rparr>)
       \<and> (compressorOptions src \<and> CompressionType sb = XzCompression
            \<and> 8 \<le> length (after_super src) \<and> xz_filters (take 8 (after_super src)) = 0
            \<and> load_tables src = Inr fs \<longrightarrow>
          NewSquashfsReader dflt src =
            (Some \<lparr>rdr_super = sb, rdr_compressorOptions = True,
                    rdr_decompressor =
                      DXz \<lparr>DictionarySize = le32 (take 4 (after_super src)), HasFilters = False\<rparr>,
                    rdr_FileFS = fs\<rparr>, None))
       \<and> (compressorOptions src \<and> CompressionType sb = Lz4Compression
            \<and> 8 \<le> length (after_super src) \<and> load_tables src = Inr fs \<longrightarrow>
          NewSquashfsReader dflt src =
            (Some \<lparr>rdr_super = sb, rdr_compressorOptions = True, rdr_decompressor = DLz4,
                    rdr_FileFS = fs\<rparr>, None))
       \<and> (compressorOptions src \<and> CompressionType sb = ZstdCompression
            \<and> 4 \<le> length (after_super src) \<and> load_tables src = Inr fs \<longrightarrow>
          NewSquashfsReader dflt src =
            (Some \<lparr>rdr_super = sb, rdr_compressorOptions = True, rdr_decompressor = DZstd,
                    rdr_FileFS = fs\<rparr>, None))"
proof (intro conjI impI)
  show "(NewSquashfsReader dflt src = (None, Some errIncompatibleCompression)) =
     (snd (NewSquashfsReader dflt src) = Some errIncompatibleCompression)"
    using assms by (auto simp: NewSquashfsReader_def Let_def split: sum.splits)
  have "(snd (NewSquashfsReader dflt src) = Some errIncompatibleCompression) =
     (select_decompressor dflt (compressorOptions src) (CompressionType sb) (after_super src)
        = Inl errIncompatibleCompression)"
    using assms by (auto simp: NewSquashfsReader_def Let_def split: sum.splits)
  then show "(snd (NewSquashfsReader dflt src) = Some errIncompatibleCompression) =
     (CompressionType sb \<notin> {GzipCompression, LzmaCompression, XzCompression,
                               Lz4Compression, ZstdCompression}
      \<or> (CompressionType sb = LzmaCompression \<and> compressorOptions src))"
    by (simp only: select_decompressor_unsupported)
next
  assume a: "\<not> compressorOptions src
            \<and> CompressionType sb \<in> {GzipCompression, LzmaCompression, XzCompression,
                                      Lz4Compression, ZstdCompression}
            \<and> load_tables src = Inr fs"
  then have o: "compressorOptions src = False" and t: "load_tables src = Inr fs" by simp_all
  from a have "select_decompressor dflt (compressorOptions src) (CompressionType sb) (after_super src)
      = Inr (if CompressionType sb = GzipCompression then DGzip Gzip_zero
             else if CompressionType sb = LzmaCompression then DLzma
             else if CompressionType sb = XzCompression then DXz Xz_zero
             else if CompressionType sb = Lz4Compression then DLz4
             else DZstd, False)"
    unfolding o by (intro select_decompressor_plain) simp
  from NewSquashfsReader_selected [OF assms(1,2,3) this t]
  show "NewSquashfsReader dflt src =
            (Some \<lparr>rdr_super = sb, rdr_compressorOptions = False,
                    rdr_decompressor =
                      (if CompressionType sb = GzipCompression then DGzip Gzip_zero
                       else if CompressionType sb = LzmaCompression then DLzma
                       else if CompressionType sb = XzCompression then DXz Xz_zero
                       else if CompressionType sb = Lz4Compression then DLz4
                       else DZstd),
                    rdr_FileFS = fs\<rparr>, None)"
    by (simp add: o)
next
  assume a: "compressorOptions src \<and> CompressionType sb = GzipCompression
            \<and> 8 \<le> length (after_super src) \<and> load_tables src = Inr fs"
  then have o: "compressorOptions src = True" and c: "CompressionType sb = GzipCompression"
    and l: "8 \<le> length (after_super src)" and t: "load_tables src = Inr fs" by simp_all
  from NewSquashfsReader_selected
    [OF assms(1,2,3) select_decompressor_options(1) [OF l, of dflt, folded o c] t]
  show "fst (NewSquashfsReader dflt src) =
            Some \<lparr>rdr_super = sb, rdr_compressorOptions = True,
                   rdr_decompressor =
                     DGzip \<lparr>CompressionLevel = le32 (take 4 (after_super src)),
                            HasCustomWindow = (gzip_window_size (take 8 (after_super src)) \<noteq> 15),
                            HasStrategies = (\<not> dflt (gzip_strategies (take 8 (after_super src))))\<rparr>,
                   rdr_FileFS = fs\<rparr>"
    by (simp add: o)
next
  assume a: "compressorOptions src \<and> CompressionType sb = XzCompression
            \<and> 8 \<le> length (after_super src) \<and> xz_filters (take 8 (after_super src)) = 0
            \<and> load_tables src = Inr fs"
  then have o: "compressorOptions src = True" and c: "CompressionType sb = XzCompression"
    and l: "8 \<le> length (after_super src)" and x: "xz_filters (take 8 (after_super src)) = 0"
    and t: "load_tables src = Inr fs"
    by simp_all
  from NewSquashfsReader_selected
    [OF assms(1,2,3) select_decompressor_options(2) [OF l x, of dflt, folded o c] t]
  show "NewSquashfsReader dflt src =
            (Some \<lparr>rdr_super = sb, rdr_compressorOptions = True,
                    rdr_decompressor =
                      DXz \<lparr>DictionarySize = le32 (take 4 (after_super src)), HasFilters = False\<rparr>,
                    rdr_FileFS = fs\<rparr>, None)"
    by (simp add: o)
next
  assume a: "compressorOptions src \<and> CompressionType sb = Lz4Compression
            \<and> 8 \<le> length (after_super src) \<and> load_tables src = Inr fs"
  then have o: "compressorOptions src = True" and c: "CompressionType sb = Lz4Compression"
    and l: "8 \<le> length (after_super src)" and t: "load_tables src = Inr fs" by simp_all
  from NewSquashfsReader_selected
    [OF assms(1,2,3) select_decompressor_options(3) [OF l, of dflt, folded o c] t]
  show "NewSquashfsReader dflt src =
            (Some \<lparr>rdr_super = sb, rdr_compressorOptions = True, rdr_decompressor = DLz4,
                    rdr_FileFS = fs\<rparr>, None)"
    by (simp add: o)
next
  assume a: "compressorOptions src \<and> CompressionType sb = ZstdCompression
            \<and> 4 \<le> length (after_super src) \<and> load_tables src = Inr fs"
  then have o: "compressorOptions src = True" and c: "CompressionType sb = ZstdCompression"
    and l: "4 \<le> length (after_super src)" and t: "load_tables src = Inr fs" by simp_all
  from NewSquashfsReader_selected
    [OF assms(1,2,3) select_decompressor_options(4) [OF l, of dflt, folded o c] t]
  show "NewSquashfsReader dflt src =
            (Some \<lparr>rdr_super = sb, rdr_compressorOptions = True, rdr_decompressor = DZstd,
                    rdr_FileFS = fs\<rparr>, None)"
    by (simp add: o)
qed

theorem unsupported_compression_iff_witness:
  "snd (NewSquashfsReader (\<lambda>s. s = 0 \<or> s = 1)
          (example_source (example_super LzoCompression 131072 17) False []))
     = Some errIncompatibleCompression
   \<and> NewSquashfsReader (\<lambda>s. s = 0 \<or> s = 1)
        (example_source (example_super LzmaCompression 131072 17) False [])
     = (Some \<lparr>rdr_super = example_super LzmaCompression 131072 17, rdr_compressorOptions = False,
               rdr_decompressor = DLzma, rdr_FileFS = ()\<rparr>, None)
   \<and> fst (NewSquashfsReader (\<lambda>s. s = 0 \<or> s = 1)
          (example_source (example_super GzipCompression 131072 17) True
             (put32 9 @ put16 15 @ put16 0)))
     = Some \<lparr>rdr_super = example_super GzipCompression 131072 17, rdr_compressorOptions = True,
              rdr_decompressor =
                DGzip \<lparr>CompressionLevel = 9, HasCustomWindow = False, HasStrategies = False\<rparr>,
              rdr_FileFS = ()\<rparr>
   \<and> NewSquashfsReader (\<lambda>s. s = 0 \<or> s = 1)
        (example_source (example_super XzCompression 131072 17) True (put32 4096 @ put32 0))
     = (Some \<lparr>rdr_super = example_super XzCompression 131072 17, rdr_compressorOptions = True,
               rdr_decompressor = DXz \<lparr>DictionarySize = 4096, HasFilters = False\<rparr>,
               rdr_FileFS = ()\<rparr>, None)
   \<and> NewSquashfsReader (\<lambda>s. s = 0 \<or> s = 1)
        (example_source (example_super Lz4Compression 131072 17) True (put32 1 @ put32 0))
     = (Some \<lparr>rdr_super = example_super Lz4Compression 131072 17, rdr_compressorOptions = True,
               rdr_decompressor = DLz4, rdr_FileFS = ()\<rparr>, None)
   \<and> NewSquashfsReader (\<lambda>s. s = 0 \<or> s = 1)
        (example_source (example_super ZstdCompression 131072 17) True [1, 0, 0, 0])
     = (Some \<lparr>rdr_super = example_super ZstdCompression 131072 17, rdr_compressorOptions = True,
               rdr_decompressor = DZstd, rdr_FileFS = ()\<rparr>, None)"
proof -
  note defs = example_source_def example_super_def magic_def Log2_131072
    GzipCompression_def LzmaCompression_def LzoCompression_def XzCompression_def
    Lz4Compression_def ZstdCompression_def gzip_window_size_def gzip_strategies_def
    xz_filters_def
  have 1: "snd (NewSquashfsReader (\<lambda>s. s = 0 \<or> s = 1)
          (example_source (example_super LzoCompression 131072 17) False []))
     = Some errIncompatibleCompression"
    using unsupported_compression_iff
      [where src = "example_source (example_super LzoCompression 131072 17) False []"
         and sb = "example_super LzoCompression 131072 17" and dflt = "\<lambda>s. s = 0 \<or> s = 1",
       THEN conjunct1]
    by (simp add: defs)
  have 2: "NewSquashfsReader (\<lambda>s. s = 0 \<or> s = 1)
        (example_source (example_super LzmaCompression 131072 17) False [])
     = (Some \<lparr>rdr_super = example_super LzmaCompression 131072 17, rdr_compressorOptions = False,
               rdr_decompressor = DLzma, rdr_FileFS = ()\<rparr>, None)"
    using unsupported_compression_iff
      [where src = "example_source (example_super LzmaCompression 131072 17) False []"
         and sb = "example_super LzmaCompression 131072 17" and dflt = "\<lambda>s. s = 0 \<or> s = 1"
         and fs = "()",
       THEN conjunct2, THEN conjunct2, THEN conjunct1]
    by (simp add: defs)
  have 3: "fst (NewSquashfsReader (\<lambda>s. s = 0 \<or> s = 1)
          (example_source (example_super GzipCompression 131072 17) True
             (put32 9 @ put16 15 @ put16 0)))
     = Some \<lparr>rdr_super = example_super GzipCompression 131072 17, rdr_compressorOptions = True,
              rdr_decompressor =
                DGzip \<lparr>CompressionLevel = 9, HasCustomWindow = False, HasStrategies = False\<rparr>,
              rdr_FileFS = ()\<rparr>"
    using unsupported_compression_iff
      [where src = "example_source (example_super GzipCompression 131072 17) True
             (put32 9 @ put16 15 @ put16 0)"
         and sb = "example_super GzipCompression 131072 17" and dflt = "\<lambda>s. s = 0 \<or> s = 1"
         and fs = "()",
       THEN conjunct2, THEN conjunct2, THEN conjunct2, THEN conjunct1]
    by (simp add: defs)
  have 4: "NewSquashfsReader (\<lambda>s. s = 0 \<or> s = 1)
        (example_source (example_super XzCompression 131072 17) True (put32 4096 @ put32 0))
     = (Some \<lparr>rdr_super = example_super XzCompression 131072 17, rdr_compressorOptions = True,
               rdr_decompressor = DXz \<lparr>DictionarySize = 4096, HasFilters = False\<rparr>,
               rdr_FileFS = ()\<rparr>, None)"
    using unsupported_compression_iff
      [where src = "example_source (example_super XzCompression 131072 17) True
             (put32 4096 @ put32 0)"
         and sb = "example_super XzCompression 131072 17" and dflt = "\<lambda>s. s = 0 \<or> s = 1"
         and fs = "()",
       THEN conjunct2, THEN conjunct2, THEN conjunct2, THEN conjunct2, THEN conjunct1]
    by (simp add: defs)
  have 5: "NewSquashfsReader (\<lambda>s. s = 0 \<or> s = 1)
        (example_source (example_super Lz4Compression 131072 17) True (put32 1 @ put32 0))
     = (Some \<lparr>rdr_super = example_super Lz4Compression 131072 17, rdr_compressorOptions = True,
               rdr_decompressor = DLz4, rdr_FileFS = ()\<rparr>, None)"
    using unsupported_compression_iff
      [where src = "example_source (example_super Lz4Compression 131072 17) True
             (put32 1 @ put32 0)"
         and sb = "example_super Lz4Compression 131072 17" and dflt = "\<lambda>s. s = 0 \<or> s = 1"
         and fs = "()",
       THEN conjunct2, THEN conjunct2, THEN conjunct2, THEN conjunct2, THEN conjunct2,
       THEN conjunct1]
    by (simp add: defs)
  have 6: "NewSquashfsReader (\<lambda>s. s = 0 \<or> s = 1)
        (example_source (example_super ZstdCompression 131072 17) True [1, 0, 0, 0])
     = (Some \<lparr>rdr_super = example_super ZstdCompression 131072 17, rdr_compressorOptions = True,
               rdr_decompressor = DZstd, rdr_FileFS = ()\<rparr>, None)"
    using unsupported_compression_iff
      [where src = "example_source (example_super ZstdCompression 131072 17) True [1, 0, 0, 0]"
         and sb = "example_super ZstdCompression 131072 17" and dflt = "\<lambda>s. s = 0 \<or> s = 1"
         and fs = "()",
       THEN conjunct2, THEN conjunct2, THEN conjunct2, THEN conjunct2, THEN conjunct2,
       THEN conjunct2]
    by (simp add: defs)
  from 1 2 3 4 5 6 show ?thesis by blast
qed


text \<open>
  C6 as stated fails for lzma with the compressor-options flag set: the tag
  is in the supported set and the error is \<^verbatim>\<open>errIncompatibleCompression\<close>.
\<close>

theorem lzma_with_options_unsupported:
  "CompressionType (example_super LzmaCompression 131072 17) = 2
   \<and> NewSquashfsReader (\<lambda>s. s = 0 \<or> s = 1)
        (example_source (example_super LzmaCompression 131072 17) True [])
      = (None, Some errIncompatibleCompression)"
  by (simp add: NewSquashfsReader_def example_source_def example_super_def magic_def Log2_131072
      select_decompressor_def GzipCompression_def LzmaCompression_def XzCompression_def
      Lz4Compression_def ZstdCompression_def)

text \<open>
  C7, as amended. With the right magic and a block size that is a power of
  two, \<open>2 ^ k\<close>: a block log other than \<open>k\<close> is the corrupt error and no Reader;
  with a block log of \<open>k\<close> the archive opens once a decompressor is selected
  and the tables load, whatever the block size: the code has no range check.
\<close>

theorem block_log_check:
  assumes "read_super src = Inr sb" "Magic sb = magic"
    and "unat (BlockSize sb) = 2 ^ k"
  shows "(unat (BlockLog sb) \<noteq> k \<longrightarrow> NewSquashfsReader dflt src = (None, Some errBlockLog))
       \<and> (unat (BlockLog sb) = k \<longrightarrow>
            select_decompressor dflt (compressorOptions src) (CompressionType sb) (after_super src)
              = Inr (d, False) \<longrightarrow>
            load_tables src = Inr fs \<longrightarrow>
            NewSquashfsReader dflt src =
              (Some \<lparr>rdr_super = sb, rdr_compressorOptions = compressorOptions src,
                      rdr_decompressor = d, rdr_FileFS = fs\<rparr>, None))"
proof -
  have l: "unat (Log2_uint16 (log2_of_zero src) (BlockSize sb)) = k"
    using Log2_uint16_eq [of k "BlockSize sb"] assms(3) by simp
  show ?thesis
  proof (intro conjI impI)
    assume "unat (BlockLog sb) \<noteq> k"
    with l have "BlockLog sb \<noteq> Log2_uint16 (log2_of_zero src) (BlockSize sb)" by auto
    with assms(1,2) show "NewSquashfsReader dflt src = (None, Some errBlockLog)"
      by (simp add: NewSquashfsReader_def)
  next
    assume "unat (BlockLog sb) = k"
      and s: "select_decompressor dflt (compressorOptions src) (CompressionType sb) (after_super src)
              = Inr (d, False)"
      and t: "load_tables src = Inr fs"
    with l have "BlockLog sb = Log2_uint16 (log2_of_zero src) (BlockSize sb)"
      by (simp add: word_unat_eq_iff)
    with assms(1,2) s t show "NewSquashfsReader dflt src =
              (Some \<lparr>rdr_super = sb, rdr_compressorOptions = compressorOptions src,
                      rdr_decompressor = d, rdr_FileFS = fs\<rparr>, None)"
      by (simp add: NewSquashfsReader_def)
  qed
qed

theorem block_log_check_witness:
  "NewSquashfsReader (\<lambda>s. s = 0 \<or> s = 1)
      (example_source (example_super GzipCompression 131072 16) False [])
     = (None, Some errBlockLog)
   \<and> NewSquashfsReader (\<lambda>s. s = 0 \<or> s = 1)
      (example_source (example_super GzipCompression 131072 17) False [])
     = (Some \<lparr>rdr_super = example_super GzipCompression 131072 17, rdr_compressorOptions = False,
               rdr_decompressor = DGzip Gzip_zero, rdr_FileFS = ()\<rparr>, None)"
proof -
  have s: "select_decompressor (\<lambda>s. s = 0 \<or> s = 1) False GzipCompression [] = Inr (DGzip Gzip_zero, False)"
    by (simp add: select_decompressor_def)
  have 1: "NewSquashfsReader (\<lambda>s. s = 0 \<or> s = 1)
      (example_source (example_super GzipCompression 131072 16) False [])
     = (None, Some errBlockLog)"
    using block_log_check
      [of "example_source (example_super GzipCompression 131072 16) False []"
          "example_super GzipCompression 131072 16" 17]
    by (simp add: example_source_def example_super_def magic_def)
  have 2: "NewSquashfsReader (\<lambda>s. s = 0 \<or> s = 1)
      (example_source (example_super GzipCompression 131072 17) False [])
     = (Some \<lparr>rdr_super = example_super GzipCompression 131072 17, rdr_compressorOptions = False,
               rdr_decompressor = DGzip Gzip_zero, rdr_FileFS = ()\<rparr>, None)"
    using block_log_check
      [of "example_source (example_super GzipCompression 131072 17) False []"
          "example_super GzipCompression 131072 17" 17 "\<lambda>s. s = 0 \<or> s = 1" "DGzip Gzip_zero" "()"] s
    by (simp add: example_source_def example_super_def magic_def)
  from 1 2 show ?thesis by simp
qed

text \<open>
  C7 as stated fails for a block size below 4 KiB: 2048 with block log 11
  opens.
\<close>

theorem small_block_size_accepted:
  "unat (BlockSize (example_super GzipCompression 2048 11)) < 4096
   \<and> NewSquashfsReader (\<lambda>s. s = 0 \<or> s = 1)
        (example_source (example_super GzipCompression 2048 11) False [])
      = (Some \<lparr>rdr_super = example_super GzipCompression 2048 11, rdr_compressorOptions = False,
                rdr_decompressor = DGzip Gzip_zero, rdr_FileFS = ()\<rparr>, None)"
  by (simp add: NewSquashfsReader_def example_source_def example_super_def magic_def Log2_2048
      select_decompressor_def GzipCompression_def)

text \<open>
  The comparison is with \<^verbatim>\<open>uint16(math.Log2(...))\<close>, which truncates, so the
  check that the code makes misses a block size that is not a power of two:
  131073 with block log 17 opens. This is a defect of the check, and no part
  of the amended statement above.
\<close>

lemma truncated_logarithm_accepted:
  "NewSquashfsReader (\<lambda>s. s = 0 \<or> s = 1)
      (example_source (example_super GzipCompression 131073 17) False [])
     = (Some \<lparr>rdr_super = example_super GzipCompression 131073 17, rdr_compressorOptions = False,
               rdr_decompressor = DGzip Gzip_zero, rdr_FileFS = ()\<rparr>, None)"
proof -
  have "floor_log2 131073 = 17" by (rule floor_log2_unique) simp_all
  then have "Log2_uint16 z 131073 = 17" for z by (simp add: Log2_uint16_def)
  then show ?thesis
    by (simp add: NewSquashfsReader_def example_source_def example_super_def magic_def
        select_decompressor_def GzipCompression_def)
qed


section \<open>Properties of the file reader\<close>

lemma take_drop_length_take: "take k xs @ drop (length (take k xs)) xs = xs"
  by (cases "k \<le> length xs") (simp_all add: min_def)

lemma fragOnly_read_to_end:
  assumes "fragOnly f" "read f \<le> length (fragmentData f)" "0 < k"
  shows "read_to_end r k f acc = Some (Returns (acc @ drop (read f) (fragmentData f), EOF))"
  using assms
proof (induction "length (fragmentData f) - read f" arbitrary: f acc rule: less_induct)
  case less
  show ?case
  proof (cases "drop (read f) (fragmentData f) = []")
    case True
    with less.prems show ?thesis
      by (subst read_to_end.simps) (simp add: fileReader_Read_def Buffer_Read_def)
  next
    case False
    define bs where "bs = take k (drop (read f) (fragmentData f))"
    define f' where "f' = f\<lparr>read := read f + length bs\<rparr>"
    from False less.prems have lt: "read f < length (fragmentData f)" by simp
    with less.prems have len: "0 < length bs" by (simp add: bs_def)
    have step: "fileReader_Read r f k = Returns ((bs, None), f')"
      using False less.prems by (simp add: fileReader_Read_def Buffer_Read_def bs_def f'_def)
    have le: "read f' \<le> length (fragmentData f')"
      using lt by (simp add: f'_def bs_def)
    have "read_to_end r k f' (acc @ bs) =
        Some (Returns ((acc @ bs) @ drop (read f') (fragmentData f'), EOF))"
      using less.prems len lt le
      by (intro less.hyps) (auto simp: f'_def simp del: length_greater_0_conv)
    moreover have "bs @ drop (read f') (fragmentData f') = drop (read f) (fragmentData f)"
    proof -
      have "drop (read f') (fragmentData f') = drop (length bs) (drop (read f) (fragmentData f))"
        by (simp add: f'_def add.commute)
      then show ?thesis
        unfolding bs_def by (simp only: take_drop_length_take)
    qed
    ultimately show ?thesis
      by (subst read_to_end.simps) (simp add: step)
  qed
qed

text \<open>
  A reader that is not fragment-only, has a fragment and a data reader, and
  whose fragment is not empty: every \<^verbatim>\<open>Read\<close> into a non-empty buffer returns a
  nil error and leaves the reader in such a state, because the fragment is
  read from its start by a fresh buffer each time.
\<close>

definition stuck :: "fileReader \<Rightarrow> bool" where
  "stuck f = (\<not> fragOnly f \<and> fragged f \<and> data f \<noteq> None \<and> fragmentData f \<noteq> [])"

lemma stuck_Read:
  assumes "stuck f" "0 < k"
  shows "\<exists>bs f'. fileReader_Read r f k = Returns ((bs, None), f') \<and> stuck f'"
proof -
  from assms obtain d where d: "data f = Some d" by (auto simp: stuck_def)
  show ?thesis
    using assms d
    by (cases "length d < k")
       (auto simp: stuck_def fileReader_Read_def dataReader_Read_def Buffer_Read_def Let_def)
qed

lemma stuck_never_ends:
  assumes a: "read_to_end r k f acc = Some y"
  shows "\<not> (stuck f \<and> 0 < k)"
proof (rule read_to_end.raw_induct [where P = "\<lambda>r k f acc y. \<not> (stuck f \<and> 0 < k)", OF _ a])
  fix rte :: "file_source \<Rightarrow> nat \<Rightarrow> fileReader \<Rightarrow> byte list \<Rightarrow> (byte list \<times> error) outcome option"
    and r k f acc y
  assume IH: "\<And>r k f acc y. rte r k f acc = Some y \<Longrightarrow> \<not> (stuck f \<and> 0 < k)"
    and step: "(case fileReader_Read r f k of
                  Panics \<Rightarrow> Some Panics
                | Returns ((bs, err), f') \<Rightarrow>
                    (case err of
                       Some e \<Rightarrow> Some (Returns (acc @ bs, e))
                     | None \<Rightarrow> rte r k f' (acc @ bs))) = Some y"
  show "\<not> (stuck f \<and> 0 < k)"
  proof
    assume s: "stuck f \<and> 0 < k"
    then obtain bs f' where st: "fileReader_Read r f k = Returns ((bs, None), f')" and s': "stuck f'"
      using stuck_Read [of f k r] by blast
    with step have "rte r k f' (acc @ bs) = Some y" by simp
    from IH [OF this] s s' show False by simp
  qed
qed

lemma stuck_read_to_end: "stuck f \<Longrightarrow> 0 < k \<Longrightarrow> read_to_end r k f acc = None"
  using stuck_never_ends [of r k f acc] by (cases "read_to_end r k f acc") auto


lemma fileReader_WriteTo_delivers:
  assumes "data f = Some d" "\<not> fragOnly f" "fragged f"
  shows "fileReader_WriteTo f w =
     Returns ((int (length (fragmentData f)) + int (length d), None), w @ d @ fragmentData f,
              f\<lparr>data := Some []\<rparr>)"
  using assms by (simp add: fileReader_WriteTo_def dataReader_WriteTo_def)

definition hello_inode :: Inode where
  "hello_inode =
     \<lparr>Type = FileType,
      Info = InfoFile \<lparr>BlockStart = 0, FragmentIndex = 0, FragmentOffset = 0, Size = 10,
                        Fragmented = True\<rparr>\<rparr>"

definition hello_source :: file_source where
  "hello_source =
     \<lparr>getFragmentDataFromInode = fragment_slice [bytes_of_string ''helloworld''] 131072,
      newDataReaderFromInode = (\<lambda>i. (None, Some (ErrOther ''no data blocks'')))\<rparr>"

definition hello_reader :: fileReader where
  "hello_reader =
     \<lparr>data = None, fil_in = hello_inode, fragmentData = bytes_of_string ''helloworld'',
      fragged = True, fragOnly = True, read = 0, FileSize = 10\<rparr>"

definition tail_inode :: Inode where
  "tail_inode =
     \<lparr>Type = FileType,
      Info = InfoFile \<lparr>BlockStart = 96, FragmentIndex = 0, FragmentOffset = 0, Size = 5,
                        Fragmented = True\<rparr>\<rparr>"

definition tail_source :: file_source where
  "tail_source =
     \<lparr>getFragmentDataFromInode = fragment_slice [[5]] 4,
      newDataReaderFromInode = (\<lambda>i. (Some [1, 2, 3, 4], None))\<rparr>"

definition tail_reader :: "dataReader \<Rightarrow> fileReader" where
  "tail_reader d =
     \<lparr>data = Some d, fil_in = tail_inode, fragmentData = [5],
      fragged = True, fragOnly = False, read = 0, FileSize = 5\<rparr>"

text \<open>
  C3. For an inode of a regular file, basic or extended, whose block start
  is 0 and that has a fragment, and whose fragment slice the reader finds:
  \<^verbatim>\<open>newFileReader\<close> gives a reader, and reading it to the end with a buffer of
  any positive size returns exactly the fragment slice and then \<^verbatim>\<open>io.EOF\<close>.
\<close>

theorem fragment_only_read:
  assumes "(Type i = FileType \<and> Info i = InfoFile fil \<and> BlockStart fil = 0 \<and> Fragmented fil)
         \<or> (Type i = ExtFileType \<and> Info i = InfoExtFile xfil \<and> ExtBlockStart xfil = 0
              \<and> ExtFragmented xfil)"
    and "getFragmentDataFromInode r i = (frag, None)" and "0 < k"
  shows "\<exists>f. newFileReader r i = Returns (Some f, None)
           \<and> read_to_end r k f [] = Some (Returns (frag, EOF))"
proof -
  from assms(1,2) obtain f where
    n: "newFileReader r i = Returns (Some f, None)"
    and f: "fragOnly f" "fragmentData f = frag" "read f = 0"
    by (auto simp: newFileReader_def)
  from fragOnly_read_to_end [of f k r "[]"] f assms(3)
  have "read_to_end r k f [] = Some (Returns (frag, EOF))" by simp
  with n show ?thesis by blast
qed

theorem fragment_only_read_witness:
  "getFragmentDataFromInode hello_source hello_inode = (bytes_of_string ''helloworld'', None)
   \<and> newFileReader hello_source hello_inode = Returns (Some hello_reader, None)
   \<and> read_to_end hello_source 4 hello_reader [] = Some (Returns (bytes_of_string ''helloworld'', EOF))"
proof -
  have g: "getFragmentDataFromInode hello_source hello_inode = (bytes_of_string ''helloworld'', None)"
    by (simp add: hello_source_def hello_inode_def fragment_slice_def bytes_of_string_def)
  have n: "newFileReader hello_source hello_inode = Returns (Some hello_reader, None)"
    using g by (simp add: newFileReader_def hello_reader_def) (simp add: hello_inode_def)
  have "\<exists>f. newFileReader hello_source hello_inode = Returns (Some f, None)
           \<and> read_to_end hello_source 4 f [] = Some (Returns (bytes_of_string ''helloworld'', EOF))"
    using fragment_only_read [of hello_inode _ _ hello_source "bytes_of_string ''helloworld''" 4] g
    by (simp add: hello_inode_def)
  with n have "read_to_end hello_source 4 hello_reader [] =
      Some (Returns (bytes_of_string ''helloworld'', EOF))"
    by auto
  with g n show ?thesis by blast
qed

text \<open>
  C2 fails on the code for a file with a data block and a fragment tail: a
  5-byte file with block size 4, one data block and a 1-byte fragment. Its
  size is 5; the first \<^verbatim>\<open>Read\<close> into a 4-byte buffer returns the data block, and
  every later one returns the fragment byte with a nil error and leaves the
  reader as it was, so that the end of the stream is never reported.
\<close>

theorem read_never_reaches_EOF:
  "File_Size \<lparr>f_in = tail_inode, f_reader = Some (tail_reader [1, 2, 3, 4]), f_name = ''f'',
                entries = [], dirsRead = 0\<rparr> = Returns 5
   \<and> newFileReader tail_source tail_inode = Returns (Some (tail_reader [1, 2, 3, 4]), None)
   \<and> fileReader_Read tail_source (tail_reader [1, 2, 3, 4]) 4
        = Returns (([1, 2, 3, 4], None), tail_reader [])
   \<and> fileReader_Read tail_source (tail_reader []) 4 = Returns (([5], None), tail_reader [])
   \<and> read_to_end tail_source 4 (tail_reader [1, 2, 3, 4]) [] = None"
proof -
  have "File_Size \<lparr>f_in = tail_inode, f_reader = Some (tail_reader [1, 2, 3, 4]), f_name = ''f'',
                entries = [], dirsRead = 0\<rparr> = Returns 5"
    by (simp add: File_Size_def tail_inode_def)
  moreover have "newFileReader tail_source tail_inode = Returns (Some (tail_reader [1, 2, 3, 4]), None)"
    by (simp add: newFileReader_def tail_source_def tail_reader_def fragment_slice_def
        tail_inode_def)
  moreover have "fileReader_Read tail_source (tail_reader [1, 2, 3, 4]) 4
        = Returns (([1, 2, 3, 4], None), tail_reader [])"
    by (simp add: fileReader_Read_def tail_reader_def dataReader_Read_def)
  moreover have "fileReader_Read tail_source (tail_reader []) 4 = Returns (([5], None), tail_reader [])"
    by (simp add: fileReader_Read_def tail_reader_def dataReader_Read_def Buffer_Read_def Let_def)
  moreover have "read_to_end tail_source 4 (tail_reader [1, 2, 3, 4]) [] = None"
    by (rule stuck_read_to_end) (simp_all add: stuck_def tail_reader_def)
  ultimately show ?thesis by blast
qed


section \<open>Properties of FileFS.Open\<close>

text \<open>A pattern with none of the characters that \<^verbatim>\<open>path.Match\<close> reads as syntax.\<close>

definition literal :: "string \<Rightarrow> bool" where
  "literal p = list_all (\<lambda>c. c \<noteq> CHR ''*'' \<and> c \<noteq> CHR ''?'' \<and> c \<noteq> CHR ''['' \<and> c \<noteq> CHR 0x5C) p"

lemma scan_len_literal: "literal p \<Longrightarrow> scan_len p inrange = length p"
  by (induction p inrange rule: scan_len.induct) (auto simp: literal_def)

lemma scanChunk_literal: "literal p \<Longrightarrow> p \<noteq> [] \<Longrightarrow> scanChunk p = (False, p, [])"
proof -
  assume l: "literal p" and ne: "p \<noteq> []"
  then have "hd p \<noteq> CHR ''*''" by (cases p) (auto simp: literal_def)
  moreover from l have "dropWhile (\<lambda>c. c = CHR ''*'') p = p"
    by (induction p) (auto simp: literal_def)
  ultimately show ?thesis
    using l by (simp add: scanChunk_def scan_len_literal)
qed

lemma matchChunk_loop_literal:
  "literal p \<Longrightarrow>
   matchChunk_loop p s failed =
     (if \<not> failed \<and> take (length p) s = p then (drop (length p) s, True, None)
      else ([], False, None))"
proof (induction p arbitrary: s failed)
  case Nil
  then show ?case by (simp add: matchChunk_loop.simps [of "[]"])
next
  case (Cons c p)
  then have l: "literal p" and c: "c \<noteq> CHR ''*''" "c \<noteq> CHR ''?''" "c \<noteq> CHR ''[''" "c \<noteq> CHR 0x5C"
    by (auto simp: literal_def)
  show ?case
  proof (cases "failed \<or> s = []")
    case True
    then show ?thesis
      using c Cons.IH [OF l, of s True]
      by (subst matchChunk_loop.simps) (auto simp: Let_def)
  next
    case False
    then obtain x xs where s: "s = x # xs" by (cases s) auto
    with False show ?thesis
      using c Cons.IH [OF l, of xs "c \<noteq> x"]
      by (subst matchChunk_loop.simps) (auto simp: Let_def)
  qed
qed

lemma Match_literal: "literal p \<Longrightarrow> Match p n = (p = n, None)"
proof (cases "p = []")
  case True
  then show ?thesis by (subst Match.simps) auto
next
  case False
  assume l: "literal p"
  have m: "matchChunk p n =
     (if take (length p) n = p then (drop (length p) n, True, None) else ([], False, None))"
    using matchChunk_loop_literal [OF l, of n False] by (simp add: matchChunk_def)
  have e: "Match [] [] = (True, None)" by (subst Match.simps) simp
  have cr: "check_rest [] = None" by (subst check_rest.simps) simp
  have eq: "(take (length p) n = p \<and> drop (length p) n = []) = (p = n)"
    by (metis append_Nil2 append_take_drop_id take_all_iff drop_eq_Nil order_refl)
  note sc = scanChunk_literal [OF l False]
  show ?thesis
  proof (cases "take (length p) n = p \<and> drop (length p) n = []")
    case True
    have "Match p n = (True, None)"
      using True False by (subst Match.simps) (simp add: sc m e)
    moreover from True eq have "p = n" by blast
    ultimately show ?thesis by simp
  next
    case nm: False
    have "Match p n = (False, None)"
      using nm False by (subst Match.simps) (auto simp: sc m cr)
    moreover from nm eq have "p \<noteq> n" by blast
    ultimately show ?thesis by simp
  qed
qed

lemma DecodeRune_append:
  "DecodeRune (a # rest) \<noteq> (RuneError, 1) \<Longrightarrow>
   DecodeRune (a # rest @ y) = DecodeRune (a # rest) \<and> snd (DecodeRune (a # rest)) \<le> length (a # rest)"
  by (auto split: list.splits if_splits)

lemma DecodeRuneInString_append:
  assumes "x \<noteq> []" "DecodeRuneInString x \<noteq> (RuneError, 1)"
  shows "DecodeRuneInString (x @ y) = DecodeRuneInString x \<and> snd (DecodeRuneInString x) \<le> length x"
proof -
  from assms(1) obtain a rest where x: "x = a # rest" by (cases x) auto
  from assms(2) have "DecodeRune (of_char a # map of_char rest) \<noteq> (RuneError, 1)"
    by (simp add: DecodeRuneInString_def x)
  from DecodeRune_append [OF this, of "map of_char y"] show ?thesis
    by (simp add: DecodeRuneInString_def x)
qed

lemma ValidString_append: "ValidString x \<Longrightarrow> ValidString (x @ y) = ValidString y"
proof (induction x rule: ValidString.induct)
  case (1 s)
  show ?case
  proof (cases "s = []")
    case True
    then show ?thesis by simp
  next
    case False
    from "1.prems" False have ne: "DecodeRuneInString s \<noteq> (RuneError, 1)"
      and v: "ValidString (drop (snd (DecodeRuneInString s)) s)"
      by (auto simp: ValidString.simps [of s] split: if_splits)
    from ne have ne': "\<not> (fst (DecodeRuneInString s) = RuneError \<and> snd (DecodeRuneInString s) = 1)"
      by (cases "DecodeRuneInString s") auto
    from DecodeRuneInString_append [OF False ne, of y]
    have d: "DecodeRuneInString (s @ y) = DecodeRuneInString s"
      and w: "snd (DecodeRuneInString s) \<le> length s" by auto
    have "ValidString (s @ y) = ValidString (drop (snd (DecodeRuneInString s)) s @ y)"
      using False ne' w by (subst ValidString.simps) (auto simp: d)
    also have "\<dots> = ValidString y" using "1.IH" [OF False ne' v] .
    finally show ?thesis .
  qed
qed

lemma ValidString_Nil [simp]: "ValidString []"
  by (simp add: ValidString.simps)

lemma ValidString_slash: "ValidString (CHR ''/'' # y) = ValidString y"
  by (subst ValidString.simps) (simp add: DecodeRuneInString_def RuneError_def)

lemma ValidString_dot [simp]: "ValidString ''.''"
  by (subst ValidString.simps) (simp add: DecodeRuneInString_def RuneError_def)

text \<open>
  A path component that \<^verbatim>\<open>fs.ValidPath\<close> accepts and \<^verbatim>\<open>path.Match\<close> reads as
  plain text.
\<close>

definition component :: "string \<Rightarrow> bool" where
  "component c = (plain c \<and> CHR ''/'' \<notin> set c \<and> literal c \<and> ValidString c)"

lemma ValidString_Join: "list_all ValidString cs \<Longrightarrow> ValidString (Join cs)"
  by (induction cs rule: Join.induct) (auto simp: ValidString_append ValidString_slash)

lemma components_path:
  assumes "cs \<noteq> []" "list_all component cs"
  shows "Split (Join cs) = cs" "ValidPath (Join cs)" "Join cs \<noteq> []" "Join cs \<noteq> ''.''"
    "list_all plain (Split (Join cs))"
proof -
  from assms(2) have ns: "list_all (\<lambda>c. CHR ''/'' \<notin> set c) cs" and vs: "list_all ValidString cs"
    and pl: "list_all plain cs"
    by (auto simp: component_def list_all_iff)
  show s: "Split (Join cs) = cs" using Split_Join [OF assms(1) ns] .
  from pl show "list_all plain (Split (Join cs))" by (simp add: s)
  from pl show v: "ValidPath (Join cs)"
    using ValidString_Join [OF vs] by (auto simp: ValidPath_def s plain_def list_all_iff)
  from ValidPath_not_rooted [OF v] show "Join cs \<noteq> []" by simp
  show "Join cs \<noteq> ''.''"
  proof
    assume "Join cs = ''.''"
    with s have "cs = [''.'']" by simp
    with pl show False by (simp add: plain_def)
  qed
qed

lemma HasPrefix_dotdot: "HasPrefix n ''../'' \<Longrightarrow> hd (Split n) = ''..''"
proof -
  assume "HasPrefix n ''../''"
  then obtain rest where "n = ''../'' @ rest"
    by (metis HasPrefix_def append_take_drop_id)
  then show ?thesis by simp
qed

text \<open>
  Modelled from the spec: the traversal that compares each component with
  the entry names for equality.
\<close>

fun lookup_literal :: "tree_source \<Rightarrow> File \<Rightarrow> string list \<Rightarrow> (error + File) outcome" where
  "lookup_literal r f [] = Returns (Inr f)"
| "lookup_literal r f (c # cs) =
     (case File_ReadDir f 0 of
        Panics \<Rightarrow> Panics
      | Returns (dirs, Some err, f') \<Rightarrow> Returns (Inl (PathError err))
      | Returns (dirs, None, f') \<Rightarrow>
          (case find (\<lambda>d. Name d = c) dirs of
             None \<Rightarrow> Returns (Inl (PathError ErrNotExist))
           | Some d \<Rightarrow>
               (case DirEntry_Info r d of
                  Panics \<Rightarrow> Panics
                | Returns (Inl e) \<Rightarrow> Returns (Inl (PathError e))
                | Returns (Inr fil) \<Rightarrow>
                    if cs = [] then Returns (Inr fil)
                    else if IsDir fil then lookup_literal r fil cs
                    else Returns (Inl (PathError ErrNotExist)))))"

lemma Open_loop_literal:
  "literal c \<Longrightarrow>
   Open_loop r (c # cs) dirs =
     (case find (\<lambda>d. Name d = c) dirs of
        None \<Rightarrow> Done (Returns (Inl (PathError ErrNotExist)))
      | Some d \<Rightarrow>
          (case DirEntry_Info r d of
             Panics \<Rightarrow> Done Panics
           | Returns (Inl e) \<Rightarrow> Done (Returns (Inl (PathError e)))
           | Returns (Inr fil) \<Rightarrow>
               if cs = [] then Done (Returns (Inr fil))
               else if IsDir fil then Descend fil (Join cs)
               else Done (Returns (Inl (PathError ErrNotExist)))))"
  by (induction dirs) (auto simp: Match_literal split: outcome.splits sum.splits)

lemma FileFS_Open_components:
  "cs \<noteq> [] \<Longrightarrow> list_all component cs \<Longrightarrow> FileFS_Open r f (Join cs) = lookup_literal r f cs"
proof (induction cs arbitrary: f)
  case Nil
  then show ?case by simp
next
  case (Cons c cs)
  note p = components_path [OF Cons.prems]
  from Cons.prems(2) have cc: "component c" and rest: "list_all component cs"
    by simp_all
  from cc have lc: "literal c" and pc: "plain c"
    by (simp_all add: component_def)
  have np: "\<not> HasPrefix (Join (c # cs)) ''../''"
  proof
    assume "HasPrefix (Join (c # cs)) ''../''"
    from HasPrefix_dotdot [OF this] p(1) pc show False by (simp add: plain_def)
  qed
  have t: "TrimPrefix (Join (c # cs)) ''/'' = Join (c # cs)"
    using TrimPrefix_ValidPath [OF p(2)] .
  have cl: "Clean (Join (c # cs)) = Join (c # cs)" using Clean_ValidPath [OF p(2)] .
  have unfold: "FileFS_Open r f (Join (c # cs)) =
     (case File_ReadDir f 0 of
        Panics \<Rightarrow> Panics
      | Returns (dirs, Some err, f') \<Rightarrow> Returns (Inl (PathError err))
      | Returns (dirs, None, f') \<Rightarrow>
          (case Open_loop r (c # cs) dirs of
             Done res \<Rightarrow> res
           | Descend fil rest \<Rightarrow> FileFS_Open r fil rest))"
    apply (subst FileFS_Open.simps)
    unfolding Let_def t if_cancel cl p(1)
    using p(2,3,4) np by (simp del: Join.simps)
  show ?case
  proof (cases "cs = []")
    case True
    then show ?thesis
      unfolding unfold
      by (auto simp: Open_loop_literal [OF lc] split: outcome.splits option.splits sum.splits)
  next
    case False
    from Cons.IH [OF False rest]
    have ih: "\<And>fil. FileFS_Open r fil (Join cs) = lookup_literal r fil cs" .
    from False show ?thesis
      unfolding unfold
      by (auto simp: Open_loop_literal [OF lc] ih split: outcome.splits option.splits sum.splits)
  qed
qed

lemma FileFS_Open_root: "FileFS_Open r f [] = Returns (Inr f)" "FileFS_Open r f ''.'' = Returns (Inr f)"
proof -
  show "FileFS_Open r f [] = Returns (Inr f)" by (subst FileFS_Open.simps) simp
  have "ValidPath ''.''" by (simp add: ValidPath_def)
  then show "FileFS_Open r f ''.'' = Returns (Inr f)"
    by (subst FileFS_Open.simps) (simp add: HasPrefix_def Clean_def)
qed

lemma dotdot_invalid: "''..'' \<in> set (Split name) \<Longrightarrow> \<not> ValidPath name"
  by (auto simp: ValidPath_def list_all_iff)

lemma FileFS_Open_dotdot:
  "name \<noteq> [] \<Longrightarrow> ''..'' \<in> set (Split name) \<Longrightarrow>
   FileFS_Open r f name = Returns (Inl (PathError ErrInvalid))"
  by (subst FileFS_Open.simps) (simp add: dotdot_invalid)

text \<open>
  Modelled from the spec: the same traversal over \<^verbatim>\<open>FileCore\<close>, the components
  taken last first. Every directory on the way is listed in full, and an
  error that is not a \<^verbatim>\<open>*fs.PathError\<close> becomes \<^verbatim>\<open>fs.ErrInvalid\<close> one level up.
\<close>

fun lookup_literal_core ::
  "tree_source \<Rightarrow> FileCore \<Rightarrow> string list \<Rightarrow> (error + CoreFile) outcome" where
  "lookup_literal_core r f [] =
     (case AsFile r f of Panics \<Rightarrow> Panics | Returns fil \<Rightarrow> Returns (Inr fil))"
| "lookup_literal_core r f (b # rps) =
     (case lookup_literal_core r f rps of
        Panics \<Rightarrow> Panics
      | Returns (Inl err) \<Rightarrow>
          Returns (Inl (if is_PathError err then err else PathError ErrInvalid))
      | Returns (Inr dir) \<Rightarrow>
          (case CoreFile_ReadDir r dir (- 1) of
             Panics \<Rightarrow> Panics
           | Returns ((dirs, Some err), dir') \<Rightarrow> Returns (Inl err)
           | Returns ((dirs, None), dir') \<Rightarrow>
               (case find (\<lambda>d. c_name (cf_core d) = b) dirs of
                  Some d \<Rightarrow> Returns (Inr d)
                | None \<Rightarrow> Returns (Inl (PathError ErrNotExist)))))"

lemma FileFS2_Open_root_gen:
  "TrimPrefix (Clean name) ''/'' = [] \<or> TrimPrefix (Clean name) ''/'' = ''.'' \<Longrightarrow>
   FileFS2_Open r f name = lookup_literal_core r f []"
  by (subst FileFS2_Open.simps) (auto simp: Let_def)

lemma Clean_Nil: "Clean [] = ''.''" "Clean ''.'' = ''.''"
  by (simp_all add: Clean_def)

lemma TrimPrefix_dot: "TrimPrefix ''.'' ''/'' = ''.''"
  by (simp add: TrimPrefix_def HasPrefix_def)

lemma FileFS2_Open_root:
  "FileFS2_Open r f [] = lookup_literal_core r f []"
  "FileFS2_Open r f ''.'' = lookup_literal_core r f []"
  by (rule FileFS2_Open_root_gen, simp add: Clean_Nil TrimPrefix_dot)+

lemma FileFS2_Open_dotdot:
  assumes "''..'' \<in> set (Split (TrimPrefix (Clean name) ''/''))"
  shows "FileFS2_Open r f name = Returns (Inl (PathError ErrInvalid))"
proof -
  define n where "n = TrimPrefix (Clean name) ''/''"
  from assms have s: "''..'' \<in> set (Split n)" by (simp add: n_def)
  then have "n \<noteq> []" "n \<noteq> ''.''" by auto
  moreover from s have "\<not> ValidPath n" by (rule dotdot_invalid)
  ultimately show ?thesis
    by (subst FileFS2_Open.simps) (simp add: Let_def n_def [symmetric])
qed

lemma find_Match_literal:
  "literal b \<Longrightarrow> find (\<lambda>d. fst (Match b (g d))) dirs = find (\<lambda>d. g d = b) dirs"
  by (induction dirs) (auto simp: Match_literal)

lemma FileFS2_Open_components:
  "list_all component cs \<Longrightarrow> FileFS2_Open r f (Join cs) = lookup_literal_core r f (rev cs)"
proof (induction cs rule: rev_induct)
  case Nil
  show ?case using FileFS2_Open_root(1) [of r f] by simp
next
  case (snoc b ps)
  define n where "n = Join (ps @ [b])"
  from snoc.prems have cb: "component b" and cps: "list_all component ps" by simp_all
  have ne: "ps @ [b] \<noteq> []" by simp
  note p = components_path [OF ne snoc.prems, folded n_def]
  from cb have b: "plain b" "CHR ''/'' \<notin> set b" "literal b" by (simp_all add: component_def)
  from cps have pps: "list_all plain ps" "list_all (\<lambda>c. CHR ''/'' \<notin> set c) ps"
    by (auto simp: component_def list_all_iff)
  have t: "TrimPrefix (Clean n) ''/'' = n"
    using p(2) by (simp add: Clean_ValidPath TrimPrefix_ValidPath)
  have base: "Base n = b"
  proof (cases "ps = []")
    case True
    then show ?thesis using Dir_Base_single [OF b(1,2)] by (simp add: n_def)
  next
    case False
    then show ?thesis using Dir_Base_snoc [OF False pps b(1,2)] by (simp add: n_def)
  qed
  have op: "FileFS2_Open r f n =
     (case FileFS2_ReadDir r f (Dir n) of
        Panics \<Rightarrow> Panics
      | Returns (dirs, Some err) \<Rightarrow> Returns (Inl err)
      | Returns (dirs, None) \<Rightarrow>
          (case find (\<lambda>d. c_name (cf_core d) = b) dirs of
             Some d \<Rightarrow> Returns (Inr d)
           | None \<Rightarrow> Returns (Inl (PathError ErrNotExist))))"
    apply (subst FileFS2_Open.simps)
    unfolding Let_def t base find_Match_literal [OF b(3)]
    using p(2,3,4) by simp
  have rd: "FileFS2_ReadDir r f (Dir n) =
     (case lookup_literal_core r f (rev ps) of
        Panics \<Rightarrow> Panics
      | Returns (Inl err) \<Rightarrow>
          Returns ([], Some (if is_PathError err then err else PathError ErrInvalid))
      | Returns (Inr dir) \<Rightarrow>
          (case CoreFile_ReadDir r dir (- 1) of
             Panics \<Rightarrow> Panics
           | Returns (res, dir') \<Rightarrow> Returns res))"
  proof (cases "ps = []")
    case True
    then have d: "Dir n = ''.''" using Dir_Base_single [OF b(1,2)] by (simp add: n_def)
    show ?thesis
      unfolding d
      by (subst FileFS2_ReadDir.simps)
         (auto simp: True Let_def Clean_Nil TrimPrefix_dot split: outcome.splits)
  next
    case False
    have d: "Dir n = Join ps" using Dir_Base_snoc [OF False pps b(1,2)] by (simp add: n_def)
    note q = components_path [OF False cps]
    have tq: "TrimPrefix (Clean (Join ps)) ''/'' = Join ps"
      using q(2) by (simp add: Clean_ValidPath TrimPrefix_ValidPath)
    show ?thesis
      unfolding d
      apply (subst FileFS2_ReadDir.simps)
      unfolding Let_def tq snoc.IH [OF cps]
      using q(2,3,4) by simp
  qed
  show ?case
    unfolding n_def [symmetric] op rd
    by (auto split: outcome.splits sum.splits option.splits prod.splits)
qed

text \<open>
  An archive with the directory \<open>a\<close> and the file \<open>b\<close> in its root, the
  directory \<open>b\<close> in \<open>a\<close>, and the file \<open>c\<close> in that one. Every listing is one
  group followed by the three spare bytes that the size of a directory
  counts.
\<close>

definition tree_dir :: "32 word \<Rightarrow> 16 word \<Rightarrow> Inode" where
  "tree_dir index size' =
     \<lparr>Type = DirType,
      Info = InfoDir \<lparr>DirectoryIndex = index, DirectorySize = size', DirectoryOffset = 0\<rparr>\<rparr>"

definition tree_file :: Inode where
  "tree_file =
     \<lparr>Type = FileType,
      Info = InfoFile \<lparr>BlockStart = 0, FragmentIndex = 0, FragmentOffset = 0, Size = 5,
                        Fragmented = True\<rparr>\<rparr>"

definition tree_example :: tree_source where
  "tree_example =
     \<lparr>files =
        \<lparr>getFragmentDataFromInode = (\<lambda>i. (bytes_of_string ''hello'', None)),
         newDataReaderFromInode = (\<lambda>i. (None, Some (ErrOther ''no data blocks'')))\<rparr>,
      inode_at =
        (\<lambda>offset block.
           if offset = 0 \<and> block = 1 then Inr (tree_dir 1 24)
           else if offset = 0 \<and> block = 2 then Inr (tree_dir 2 24)
           else if offset = 0 \<and> block = 3 then Inr tree_file
           else Inl ErrUnexpectedEOF),
      dir_at =
        (\<lambda>index offset.
           if offset = 0 \<and> index = 0
           then Inr (put_directory [(0, 1, [(1, 0, 1, ''a''), (3, 2, 2, ''b'')])] @ [0, 0, 0])
           else if offset = 0 \<and> index = 1
           then Inr (put_directory [(0, 2, [(2, 0, 1, ''b'')])] @ [0, 0, 0])
           else if offset = 0 \<and> index = 2
           then Inr (put_directory [(0, 3, [(3, 0, 2, ''c'')])] @ [0, 0, 0])
           else Inl ErrUnexpectedEOF)\<rparr>"

definition tree_entry :: "string \<Rightarrow> 16 word \<Rightarrow> 16 word \<Rightarrow> Entry" where
  "tree_entry name kind block =
     \<lparr>Name = name, EntryType = kind, InodeBlockOffset = block, InodeOffset = 0\<rparr>"

definition tree_reader :: fileReader where
  "tree_reader =
     \<lparr>data = None, fil_in = tree_file, fragmentData = bytes_of_string ''hello'',
      fragged = True, fragOnly = True, read = 0, FileSize = 5\<rparr>"

definition tree_root :: File where
  "tree_root =
     \<lparr>f_in = tree_dir 0 33, f_reader = None, f_name = [],
      entries = [tree_entry ''a'' 1 1, tree_entry ''b'' 2 3], dirsRead = 0\<rparr>"

definition tree_a :: File where
  "tree_a =
     \<lparr>f_in = tree_dir 1 24, f_reader = None, f_name = ''a'',
      entries = [tree_entry ''b'' 1 2], dirsRead = 0\<rparr>"

definition tree_a_b :: File where
  "tree_a_b =
     \<lparr>f_in = tree_dir 2 24, f_reader = None, f_name = ''b'',
      entries = [tree_entry ''c'' 2 3], dirsRead = 0\<rparr>"

definition tree_a_b_c :: File where
  "tree_a_b_c =
     \<lparr>f_in = tree_file, f_reader = Some tree_reader, f_name = ''c'', entries = [], dirsRead = 0\<rparr>"

definition core_root :: FileCore where
  "core_root = \<lparr>c_in = tree_dir 0 33, c_name = []\<rparr>"

definition core_file :: "string \<Rightarrow> CoreFile" where
  "core_file name =
     \<lparr>cf_core = \<lparr>c_in = tree_file, c_name = name\<rparr>, cf_rdr = Some tree_reader,
      cf_directory = None, cf_dirIndex = 0\<rparr>"

definition core_dir :: "string \<Rightarrow> 32 word \<Rightarrow> 16 word \<Rightarrow> Entry list \<Rightarrow> CoreFile" where
  "core_dir name index size' ents =
     \<lparr>cf_core = \<lparr>c_in = tree_dir index size', c_name = name\<rparr>, cf_rdr = None,
      cf_directory = Some ents, cf_dirIndex = 0\<rparr>"

lemma tree_types [simp]: "Type (tree_dir index size') = DirType" "Type tree_file = FileType"
  by (simp_all add: tree_dir_def tree_file_def)

lemma tree_listings:
  "NewDirectory (put_directory [(0, 1, [(1, 0, 1, ''a''), (3, 2, 2, ''b'')])] @ [0, 0, 0]) 33
     = ([tree_entry ''a'' 1 1, tree_entry ''b'' 2 3], None)"
  "NewDirectory (put_directory [(0, 2, [(2, 0, 1, ''b'')])] @ [0, 0, 0]) 24
     = ([tree_entry ''b'' 1 2], None)"
  "NewDirectory (put_directory [(0, 3, [(3, 0, 2, ''c'')])] @ [0, 0, 0]) 24
     = ([tree_entry ''c'' 2 3], None)"
proof -
  note defs = group_ok_def name_ok_def put_directory_def put_group_def put_entries_def
    put_Entry_def put_Header_def entries_of_group_def entry_of_def tree_entry_def
  show "NewDirectory (put_directory [(0, 1, [(1, 0, 1, ''a''), (3, 2, 2, ''b'')])] @ [0, 0, 0]) 33
     = ([tree_entry ''a'' 1 1, tree_entry ''b'' 2 3], None)"
    by (subst NewDirectory_put_directory) (simp_all add: defs)
  show "NewDirectory (put_directory [(0, 2, [(2, 0, 1, ''b'')])] @ [0, 0, 0]) 24
     = ([tree_entry ''b'' 1 2], None)"
    by (subst NewDirectory_put_directory) (simp_all add: defs)
  show "NewDirectory (put_directory [(0, 3, [(3, 0, 2, ''c'')])] @ [0, 0, 0]) 24
     = ([tree_entry ''c'' 2 3], None)"
    by (subst NewDirectory_put_directory) (simp_all add: defs)
qed

lemma tree_readDir:
  "readDirFromInode tree_example (tree_dir 0 33)
     = Returns (Inr [tree_entry ''a'' 1 1, tree_entry ''b'' 2 3])"
  "readDirFromInode tree_example (tree_dir 1 24) = Returns (Inr [tree_entry ''b'' 1 2])"
  "readDirFromInode tree_example (tree_dir 2 24) = Returns (Inr [tree_entry ''c'' 2 3])"
  by (simp_all add: readDirFromInode_def dir_location_def tree_dir_def tree_example_def
      tree_listings)

lemma tree_newFileReader:
  "newFileReader (files tree_example) tree_file = Returns (Some tree_reader, None)"
  by (simp add: newFileReader_def tree_file_def tree_example_def tree_reader_def)

lemma tree_Info:
  "DirEntry_Info tree_example (tree_entry ''a'' 1 1) = Returns (Inr tree_a)"
  "DirEntry_Info tree_example (tree_entry ''b'' 1 2) = Returns (Inr tree_a_b)"
  "DirEntry_Info tree_example (tree_entry ''c'' 2 3) = Returns (Inr tree_a_b_c)"
proof -
  have i: "inode_at tree_example 0 1 = Inr (tree_dir 1 24)"
    "inode_at tree_example 0 2 = Inr (tree_dir 2 24)"
    "inode_at tree_example 0 3 = Inr tree_file"
    by (simp_all add: tree_example_def)
  have d: "newFileFromInode tree_example (tree_dir 1 24) = Returns (Inr (tree_a\<lparr>f_name := []\<rparr>))"
    "newFileFromInode tree_example (tree_dir 2 24) = Returns (Inr (tree_a_b\<lparr>f_name := []\<rparr>))"
    by (simp_all add: newFileFromInode_def Let_def IsRegular_def IsDir_def tree_readDir tree_a_def
        tree_a_b_def)
  have f: "newFileFromInode tree_example tree_file = Returns (Inr (tree_a_b_c\<lparr>f_name := []\<rparr>))"
    by (simp add: newFileFromInode_def Let_def IsRegular_def tree_newFileReader tree_a_b_c_def)
  show "DirEntry_Info tree_example (tree_entry ''a'' 1 1) = Returns (Inr tree_a)"
    by (simp add: DirEntry_Info_def newFileFromDirEntry_def tree_entry_def i d)
       (simp add: tree_a_def)
  show "DirEntry_Info tree_example (tree_entry ''b'' 1 2) = Returns (Inr tree_a_b)"
    by (simp add: DirEntry_Info_def newFileFromDirEntry_def tree_entry_def i d)
       (simp add: tree_a_b_def)
  show "DirEntry_Info tree_example (tree_entry ''c'' 2 3) = Returns (Inr tree_a_b_c)"
    by (simp add: DirEntry_Info_def newFileFromDirEntry_def tree_entry_def i f)
       (simp add: tree_a_b_c_def)
qed

lemma tree_ReadDir:
  "File_ReadDir tree_root 0 = Returns ([tree_entry ''a'' 1 1, tree_entry ''b'' 2 3], None, tree_root)"
  "File_ReadDir tree_a 0 = Returns ([tree_entry ''b'' 1 2], None, tree_a)"
  "File_ReadDir tree_a_b 0 = Returns ([tree_entry ''c'' 2 3], None, tree_a_b)"
  by (simp_all add: File_ReadDir_def IsDir_def slice_entries_def tree_root_def tree_a_def
      tree_a_b_def)

lemma tree_IsDir: "IsDir tree_a" "IsDir tree_a_b"
  by (simp_all add: IsDir_def tree_a_def tree_a_b_def)

lemma tree_names [simp]:
  "Name (tree_entry name kind block) = name"
  by (simp add: tree_entry_def)

lemma tree_lookup:
  "lookup_literal tree_example tree_root [''a'', ''b'', ''c''] = Returns (Inr tree_a_b_c)"
  by (simp add: tree_ReadDir tree_Info tree_IsDir)

lemma Match_question: "Match ''?'' ''a'' = (True, None)"
  by (simp add: Match.simps scanChunk_def matchChunk_def matchChunk_loop.simps
      DecodeRuneInString_def Let_def)

lemma tree_open_question: "FileFS_Open tree_example tree_root ''?'' = Returns (Inr tree_a)"
proof -
  have v: "ValidPath ''?''"
    by (simp add: ValidPath_def ValidString.simps DecodeRuneInString_def RuneError_def)
  have c: "Clean ''?'' = ''?''" by (simp add: Clean_def)
  show ?thesis
    by (subst FileFS_Open.simps)
       (simp add: v c HasPrefix_def Let_def tree_ReadDir Match_question tree_Info)
qed

text \<open>The same archive through \<^verbatim>\<open>FileCore\<close>.\<close>

lemma core_AsFile:
  "AsFile tree_example core_root
     = Returns (core_dir [] 0 33 [tree_entry ''a'' 1 1, tree_entry ''b'' 2 3])"
  "AsFile tree_example \<lparr>c_in = tree_dir 1 24, c_name = ''a''\<rparr>
     = Returns (core_dir ''a'' 1 24 [tree_entry ''b'' 1 2])"
  "AsFile tree_example \<lparr>c_in = tree_dir 2 24, c_name = ''b''\<rparr>
     = Returns (core_dir ''b'' 2 24 [tree_entry ''c'' 2 3])"
  "AsFile tree_example \<lparr>c_in = tree_file, c_name = name\<rparr> = Returns (core_file name)"
  by (simp_all add: AsFile_def Let_def FileCore_IsDir_def IsFile_def core_root_def tree_readDir
      tree_newFileReader core_dir_def core_file_def)

lemma core_ReadDir:
  "CoreFile_ReadDir tree_example (core_dir name 0 33 [tree_entry ''a'' 1 1, tree_entry ''b'' 2 3]) (- 1)
     = Returns (([core_dir ''a'' 1 24 [tree_entry ''b'' 1 2], core_file ''b''], None),
                core_dir name 0 33 [tree_entry ''a'' 1 1, tree_entry ''b'' 2 3])"
  "CoreFile_ReadDir tree_example (core_dir name 1 24 [tree_entry ''b'' 1 2]) (- 1)
     = Returns (([core_dir ''b'' 2 24 [tree_entry ''c'' 2 3]], None),
                core_dir name 1 24 [tree_entry ''b'' 1 2])"
  "CoreFile_ReadDir tree_example (core_dir name 2 24 [tree_entry ''c'' 2 3]) (- 1)
     = Returns (([core_file ''c''], None), core_dir name 2 24 [tree_entry ''c'' 2 3])"
proof -
  have i: "newFileCoreFromDirEntry tree_example (tree_entry ''a'' 1 1)
             = Inr \<lparr>c_in = tree_dir 1 24, c_name = ''a''\<rparr>"
    "newFileCoreFromDirEntry tree_example (tree_entry ''b'' 2 3)
             = Inr \<lparr>c_in = tree_file, c_name = ''b''\<rparr>"
    "newFileCoreFromDirEntry tree_example (tree_entry ''b'' 1 2)
             = Inr \<lparr>c_in = tree_dir 2 24, c_name = ''b''\<rparr>"
    "newFileCoreFromDirEntry tree_example (tree_entry ''c'' 2 3)
             = Inr \<lparr>c_in = tree_file, c_name = ''c''\<rparr>"
    by (simp_all add: newFileCoreFromDirEntry_def tree_example_def tree_entry_def)
  have d: "FileCore_IsDir (cf_core (core_dir name index size' ents))" for name index size' ents
    by (simp add: FileCore_IsDir_def core_dir_def)
  have s: "cf_directory (core_dir name index size' ents) = Some ents" for name index size' ents
    by (simp add: core_dir_def)
  show "CoreFile_ReadDir tree_example (core_dir name 0 33 [tree_entry ''a'' 1 1, tree_entry ''b'' 2 3]) (- 1)
     = Returns (([core_dir ''a'' 1 24 [tree_entry ''b'' 1 2], core_file ''b''], None),
                core_dir name 0 33 [tree_entry ''a'' 1 1, tree_entry ''b'' 2 3])"
    by (simp add: CoreFile_ReadDir_def d s slice_entries_def i core_AsFile)
  show "CoreFile_ReadDir tree_example (core_dir name 1 24 [tree_entry ''b'' 1 2]) (- 1)
     = Returns (([core_dir ''b'' 2 24 [tree_entry ''c'' 2 3]], None),
                core_dir name 1 24 [tree_entry ''b'' 1 2])"
    by (simp add: CoreFile_ReadDir_def d s slice_entries_def i core_AsFile)
  show "CoreFile_ReadDir tree_example (core_dir name 2 24 [tree_entry ''c'' 2 3]) (- 1)
     = Returns (([core_file ''c''], None), core_dir name 2 24 [tree_entry ''c'' 2 3])"
    by (simp add: CoreFile_ReadDir_def d s slice_entries_def i core_AsFile)
qed

lemma core_names [simp]:
  "c_name (cf_core (core_dir name index size' ents)) = name"
  "c_name (cf_core (core_file name)) = name"
  by (simp_all add: core_dir_def core_file_def)

lemma core_lookup:
  "lookup_literal_core tree_example core_root [''c'', ''b'', ''a''] = Returns (Inr (core_file ''c''))"
  "lookup_literal_core tree_example core_root [''b''] = Returns (Inr (core_file ''b''))"
  by (simp_all add: core_AsFile core_ReadDir)

lemma tree_components: "list_all component [''a'', ''b'', ''c'']" "list_all component [''b'']"
  by (simp_all add: component_def plain_def literal_def ValidString.simps DecodeRuneInString_def
      RuneError_def)

lemma Clean_a_dotdot_b: "Clean ''a/../b'' = ''b''"
  by (simp add: Clean_def)

lemma core_open_dotdot:
  "FileFS2_Open tree_example core_root ''a/../b'' = Returns (Inr (core_file ''b''))"
proof -
  have t: "TrimPrefix (Clean ''b'') ''/'' = ''b''"
    "TrimPrefix (Clean ''a/../b'') ''/'' = ''b''"
    by (simp_all add: Clean_def TrimPrefix_def HasPrefix_def)
  from FileFS2_Open_components [OF tree_components(2), of tree_example core_root]
  have "FileFS2_Open tree_example core_root ''b''
      = lookup_literal_core tree_example core_root [''b'']"
    by (simp del: lookup_literal_core.simps)
  then have "FileFS2_Open tree_example core_root ''b'' = Returns (Inr (core_file ''b''))"
    by (simp only: core_lookup)
  moreover have "FileFS2_Open r f ''a/../b'' = FileFS2_Open r f ''b''" for r f
    by (simp add: FileFS2_Open.simps [of _ _ "''a/../b''"] FileFS2_Open.simps [of _ _ "''b''"] t)
  ultimately show ?thesis by simp
qed

lemma core_open_question:
  "FileFS2_Open tree_example core_root ''?''
     = Returns (Inr (core_dir ''a'' 1 24 [tree_entry ''b'' 1 2]))"
proof -
  have v: "ValidPath ''?''"
    by (simp add: ValidPath_def ValidString.simps DecodeRuneInString_def RuneError_def)
  have t: "TrimPrefix (Clean ''?'') ''/'' = ''?''" "TrimPrefix (Clean ''.'') ''/'' = ''.''"
    by (simp_all add: Clean_def TrimPrefix_def HasPrefix_def)
  have d: "Dir ''?'' = ''.''" "Base ''?'' = ''?''"
    by (simp_all add: Dir_def Base_def path_Split_def Clean_def)
  have rd: "FileFS2_ReadDir tree_example core_root ''.''
      = Returns ([core_dir ''a'' 1 24 [tree_entry ''b'' 1 2], core_file ''b''], None)"
    by (subst FileFS2_ReadDir.simps) (simp add: t core_AsFile core_ReadDir)
  show ?thesis
    by (subst FileFS2_Open.simps) (simp add: t v d rd Match_question)
qed

lemma FileFS_Open_invalid:
  "name \<noteq> [] \<Longrightarrow> \<not> ValidPath name \<Longrightarrow>
   FileFS_Open r f name = Returns (Inl (PathError ErrInvalid))"
  by (subst FileFS_Open.simps) simp

lemma FileFS2_Open_invalid:
  assumes "TrimPrefix (Clean path) ''/'' \<noteq> []" "TrimPrefix (Clean path) ''/'' \<noteq> ''.''"
    "\<not> ValidPath (TrimPrefix (Clean path) ''/'')"
  shows "FileFS2_Open r g path = Returns (Inl (PathError ErrInvalid))"
  using assms by (subst FileFS2_Open.simps) (simp add: Let_def)

lemma invalid_utf8_path: "\<not> ValidString name \<Longrightarrow> \<not> ValidPath name"
  by (simp add: ValidPath_def)

lemma tree_components_bxy: "list_all component [''b'', ''x'', ''y'']"
  by (simp add: component_def plain_def literal_def ValidString.simps DecodeRuneInString_def
      RuneError_def)

lemma core_lookup_bxy:
  "lookup_literal_core tree_example core_root [''y'', ''x'', ''b'']
     = Returns (Inl (PathError ErrInvalid))"
proof -
  have "CoreFile_ReadDir tree_example (core_file ''b'') (- 1)
      = Returns (([], Some errNotDirectory), core_file ''b'')"
    by (simp add: CoreFile_ReadDir_def core_file_def)
  then have "lookup_literal_core tree_example core_root [''x'', ''b'']
      = Returns (Inl errNotDirectory)"
    by (simp add: core_AsFile core_ReadDir)
  then show ?thesis
    by (simp add: is_PathError_def)
qed

lemma not_utf8: "\<not> ValidString [CHR 0xE9]"
  by (simp add: ValidString.simps DecodeRuneInString_def RuneError_def)

lemma Clean_not_utf8: "TrimPrefix (Clean [CHR 0xE9]) ''/'' = [CHR 0xE9]"
  by (simp add: Clean_def TrimPrefix_def HasPrefix_def)

text \<open>
  C4, as amended. For \<^verbatim>\<open>FileFS.Open\<close> over File (part 003, \<open>FileFS_Open\<close>) and
  over FileCore (part 002, \<open>FileFS2_Open\<close>). The empty path and \<open>.\<close> give the
  root (part 002 builds it anew with \<^verbatim>\<open>AsFile\<close>). Part 003 rejects with
  \<^verbatim>\<open>fs.ErrInvalid\<close> every non-empty path that \<^verbatim>\<open>fs.ValidPath\<close> refuses, so every
  one that has a \<open>..\<close> component and every one that is not valid UTF-8. Part
  002 cleans the path first (\<^verbatim>\<open>path.Clean\<close>, then the leading slash is cut)
  and rejects with \<^verbatim>\<open>fs.ErrInvalid\<close> every cleaned path, other than the empty
  one and \<open>.\<close>, that \<^verbatim>\<open>fs.ValidPath\<close> refuses, so every one that still has a
  \<open>..\<close> component and every one that is not valid UTF-8. On a path whose
  components are valid UTF-8, not empty, not \<open>.\<close> or \<open>..\<close>, and hold none of
  the characters \<open>*\<close>, \<open>?\<close>, \<open>[\<close> and backslash, each version is the traversal
  that compares the components with the entry names for equality
  (\<open>lookup_literal\<close>, \<open>lookup_literal_core\<close>).
\<close>

theorem FileFS_Open_paths:
  "FileFS_Open r f [] = Returns (Inr f)
   \<and> FileFS_Open r f ''.'' = Returns (Inr f)
   \<and> (name \<noteq> [] \<and> \<not> ValidPath name \<longrightarrow>
        FileFS_Open r f name = Returns (Inl (PathError ErrInvalid)))
   \<and> (''..'' \<in> set (Split name) \<longrightarrow> \<not> ValidPath name)
   \<and> (\<not> ValidString name \<longrightarrow> \<not> ValidPath name)
   \<and> (cs \<noteq> [] \<and> list_all component cs \<longrightarrow>
        FileFS_Open r f (Join cs) = lookup_literal r f cs)
   \<and> FileFS2_Open r g [] = lookup_literal_core r g []
   \<and> FileFS2_Open r g ''.'' = lookup_literal_core r g []
   \<and> (TrimPrefix (Clean path) ''/'' \<noteq> [] \<and> TrimPrefix (Clean path) ''/'' \<noteq> ''.''
        \<and> \<not> ValidPath (TrimPrefix (Clean path) ''/'') \<longrightarrow>
        FileFS2_Open r g path = Returns (Inl (PathError ErrInvalid)))
   \<and> (''..'' \<in> set (Split (TrimPrefix (Clean path) ''/'')) \<longrightarrow>
        FileFS2_Open r g path = Returns (Inl (PathError ErrInvalid)))
   \<and> (list_all component cs \<longrightarrow>
        FileFS2_Open r g (Join cs) = lookup_literal_core r g (rev cs))"
proof (intro conjI impI)
  show "FileFS_Open r f [] = Returns (Inr f)" by (rule FileFS_Open_root(1))
  show "FileFS_Open r f ''.'' = Returns (Inr f)" by (rule FileFS_Open_root(2))
  show "FileFS2_Open r g [] = lookup_literal_core r g []" by (rule FileFS2_Open_root(1))
  show "FileFS2_Open r g ''.'' = lookup_literal_core r g []" by (rule FileFS2_Open_root(2))
next
  assume "name \<noteq> [] \<and> \<not> ValidPath name"
  then show "FileFS_Open r f name = Returns (Inl (PathError ErrInvalid))"
    using FileFS_Open_invalid [of name r f] by blast
next
  assume "''..'' \<in> set (Split name)"
  then show "\<not> ValidPath name" by (rule dotdot_invalid)
next
  assume "\<not> ValidString name"
  then show "\<not> ValidPath name" by (rule invalid_utf8_path)
next
  assume "cs \<noteq> [] \<and> list_all component cs"
  then show "FileFS_Open r f (Join cs) = lookup_literal r f cs"
    using FileFS_Open_components [of cs r f] by blast
next
  assume "TrimPrefix (Clean path) ''/'' \<noteq> [] \<and> TrimPrefix (Clean path) ''/'' \<noteq> ''.''
        \<and> \<not> ValidPath (TrimPrefix (Clean path) ''/'')"
  then show "FileFS2_Open r g path = Returns (Inl (PathError ErrInvalid))"
    using FileFS2_Open_invalid [of path r g] by blast
next
  assume "''..'' \<in> set (Split (TrimPrefix (Clean path) ''/''))"
  then show "FileFS2_Open r g path = Returns (Inl (PathError ErrInvalid))"
    by (rule FileFS2_Open_dotdot)
next
  assume "list_all component cs"
  then show "FileFS2_Open r g (Join cs) = lookup_literal_core r g (rev cs)"
    by (rule FileFS2_Open_components)
qed

theorem FileFS_Open_paths_witness:
  "FileFS_Open tree_example tree_root [] = Returns (Inr tree_root)
   \<and> FileFS_Open tree_example tree_root ''.'' = Returns (Inr tree_root)
   \<and> FileFS_Open tree_example tree_root ''a/../b'' = Returns (Inl (PathError ErrInvalid))
   \<and> FileFS_Open tree_example tree_root [CHR 0xE9] = Returns (Inl (PathError ErrInvalid))
   \<and> FileFS_Open tree_example tree_root ''a/b/c'' = Returns (Inr tree_a_b_c)
   \<and> FileFS2_Open tree_example core_root ''.''
       = Returns (Inr (core_dir [] 0 33 [tree_entry ''a'' 1 1, tree_entry ''b'' 2 3]))
   \<and> FileFS2_Open tree_example core_root ''../a'' = Returns (Inl (PathError ErrInvalid))
   \<and> FileFS2_Open tree_example core_root [CHR 0xE9] = Returns (Inl (PathError ErrInvalid))
   \<and> FileFS2_Open tree_example core_root ''a/b/c'' = Returns (Inr (core_file ''c''))
   \<and> FileFS2_Open tree_example core_root ''b/x/y'' = Returns (Inl (PathError ErrInvalid))"
proof -
  note T = FileFS_Open_paths [where r = tree_example and f = tree_root and g = core_root
      and name = "''a/../b''" and path = "''../a''" and cs = "[''a'', ''b'', ''c'']"]
  note U = FileFS_Open_paths [where r = tree_example and f = tree_root and g = core_root
      and name = "[CHR 0xE9]" and path = "[CHR 0xE9]" and cs = "[''b'', ''x'', ''y'']"]
  have j: "Join [''a'', ''b'', ''c''] = ''a/b/c''" "Join [''b'', ''x'', ''y''] = ''b/x/y''"
    by simp_all
  have n: "''..'' \<in> set (Split ''a/../b'')" "''a/../b'' \<noteq> []" by simp_all
  have p: "''..'' \<in> set (Split (TrimPrefix (Clean ''../a'') ''/''))"
    by (simp add: Clean_def TrimPrefix_def HasPrefix_def)
  have c: "[''a'', ''b'', ''c''] \<noteq> [] \<and> list_all component [''a'', ''b'', ''c'']"
    using tree_components(1) by simp
  have r: "lookup_literal_core tree_example core_root []
      = Returns (Inr (core_dir [] 0 33 [tree_entry ''a'' 1 1, tree_entry ''b'' 2 3]))"
    by (simp add: core_AsFile)
  from T have 1: "FileFS_Open tree_example tree_root [] = Returns (Inr tree_root)" by (rule conjunct1)
  from T have 2: "FileFS_Open tree_example tree_root ''.'' = Returns (Inr tree_root)" by blast
  from T n(1) have "\<not> ValidPath ''a/../b''" by blast
  with T n(2) have 3: "FileFS_Open tree_example tree_root ''a/../b'' = Returns (Inl (PathError ErrInvalid))"
    by blast
  from U not_utf8 have v: "\<not> ValidPath [CHR 0xE9]" by blast
  have "[CHR 0xE9] \<noteq> []" by simp
  with U v have 4: "FileFS_Open tree_example tree_root [CHR 0xE9] = Returns (Inl (PathError ErrInvalid))"
    by blast
  from T c have "FileFS_Open tree_example tree_root (Join [''a'', ''b'', ''c''])
      = lookup_literal tree_example tree_root [''a'', ''b'', ''c'']"
    by blast
  then have 5: "FileFS_Open tree_example tree_root ''a/b/c'' = Returns (Inr tree_a_b_c)"
    by (simp only: j tree_lookup)
  from T have "FileFS2_Open tree_example core_root ''.'' = lookup_literal_core tree_example core_root []"
    by blast
  then have 6: "FileFS2_Open tree_example core_root ''.''
       = Returns (Inr (core_dir [] 0 33 [tree_entry ''a'' 1 1, tree_entry ''b'' 2 3]))"
    by (simp only: r)
  from T p have 7: "FileFS2_Open tree_example core_root ''../a'' = Returns (Inl (PathError ErrInvalid))"
    by blast
  have "TrimPrefix (Clean [CHR 0xE9]) ''/'' \<noteq> [] \<and> TrimPrefix (Clean [CHR 0xE9]) ''/'' \<noteq> ''.''
      \<and> \<not> ValidPath (TrimPrefix (Clean [CHR 0xE9]) ''/'')"
    using v by (simp add: Clean_not_utf8)
  with U have 8: "FileFS2_Open tree_example core_root [CHR 0xE9] = Returns (Inl (PathError ErrInvalid))"
    by blast
  from T c have "FileFS2_Open tree_example core_root (Join [''a'', ''b'', ''c''])
      = lookup_literal_core tree_example core_root (rev [''a'', ''b'', ''c''])"
    by blast
  moreover have "rev [''a'', ''b'', ''c''] = [''c'', ''b'', ''a'']" by simp
  ultimately have 9: "FileFS2_Open tree_example core_root ''a/b/c'' = Returns (Inr (core_file ''c''))"
    by (simp only: j core_lookup)
  from U tree_components_bxy have "FileFS2_Open tree_example core_root (Join [''b'', ''x'', ''y''])
      = lookup_literal_core tree_example core_root (rev [''b'', ''x'', ''y''])"
    by blast
  moreover have "rev [''b'', ''x'', ''y''] = [''y'', ''x'', ''b'']" by simp
  ultimately have 10: "FileFS2_Open tree_example core_root ''b/x/y''
      = Returns (Inl (PathError ErrInvalid))"
    by (simp only: j core_lookup_bxy)
  from 1 2 3 4 5 6 7 8 9 10 show ?thesis by blast
qed

text \<open>
  C4 as stated fails twice. In both versions a component is a pattern: \<open>?\<close>
  opens the entry \<open>a\<close>. In part 002 the path is cleaned before it is checked:
  \<open>a/../b\<close> opens \<open>b\<close>.
\<close>

theorem Open_reads_patterns:
  "FileFS_Open tree_example tree_root ''?'' = Returns (Inr tree_a)
   \<and> f_name tree_a = ''a''
   \<and> FileFS2_Open tree_example core_root ''?''
       = Returns (Inr (core_dir ''a'' 1 24 [tree_entry ''b'' 1 2]))
   \<and> FileFS2_Open tree_example core_root ''a/../b'' = Returns (Inr (core_file ''b''))"
  by (simp add: tree_open_question core_open_question core_open_dotdot, simp add: tree_a_def)

end
